(* ===== verification/Prelude.thy ===== *)
theory Prelude
  imports Main "HOL-Library.Word" "HOL-Library.List_Lexorder" "HOL-Library.Char_ord"
begin

text \<open>
  The vocabulary that every component shares: Go error values with their wrapping chain
  (\<open>errors.Is\<close>, \<open>apierrors.IsNotFound\<close>), the way a Go function leaves (it
  returns or it panics), the log of calls made to the environment, small list lemmas and
  the theorem collections the component theories fill.
\<close>

named_theorems err_simps "how the error predicates see a wrapped or a plain error"
named_theorems call_simps "what one call does to the log and to the environment"

section \<open>Errors\<close>

text \<open>
  The reasons of a Kubernetes API status error that the code tests for; every other
  reason is carried as text.
\<close>

datatype api_reason = NotFound | AlreadyExists | Conflict | OtherReason string

text \<open>
  A Go error value: \<open>ErrMsg\<close> is \<open>errors.New\<close> and \<open>fmt.Errorf\<close> without
  \<open>%w\<close>, \<open>ErrWrap\<close> is \<open>fmt.Errorf\<close> with a final \<open>%w\<close> (and
  \<open>errs.Wrapf\<close>), \<open>ErrApi\<close> an API status error, and the last two the sentinels of
  the Helm storage driver.
\<close>

datatype go_error =
    ErrMsg string
  | ErrWrap string go_error
  | ErrApi api_reason string
  | ErrReleaseNotFound
  | ErrReleaseExists

text \<open>The text of an error, which is what \<open>%s\<close>, \<open>%v\<close> and \<open>%w\<close> print.\<close>

fun error_text :: "go_error \<Rightarrow> string" where
  "error_text (ErrMsg m) = m"
| "error_text (ErrWrap m e) = m @ error_text e"
| "error_text (ErrApi _ m) = m"
| "error_text ErrReleaseNotFound = ''release: not found''"
| "error_text ErrReleaseExists = ''release: already exists''"

text \<open>\<open>errors.Is\<close> for a sentinel: the error itself or one that it wraps.\<close>

fun errors_Is :: "go_error \<Rightarrow> go_error \<Rightarrow> bool" where
  "errors_Is (ErrWrap m e) t \<longleftrightarrow> ErrWrap m e = t \<or> errors_Is e t"
| "errors_Is e t \<longleftrightarrow> e = t"

text \<open>The reason of the API status error in the chain, as \<open>apierrors.ReasonForError\<close>.\<close>

fun ReasonForError :: "go_error \<Rightarrow> api_reason option" where
  "ReasonForError (ErrApi r _) = Some r"
| "ReasonForError (ErrWrap _ e) = ReasonForError e"
| "ReasonForError _ = None"

definition IsNotFound :: "go_error \<Rightarrow> bool" where
  "IsNotFound e \<longleftrightarrow> ReasonForError e = Some NotFound"

definition IsConflict :: "go_error \<Rightarrow> bool" where
  "IsConflict e \<longleftrightarrow> ReasonForError e = Some Conflict"

definition IsAlreadyExists :: "go_error \<Rightarrow> bool" where
  "IsAlreadyExists e \<longleftrightarrow> ReasonForError e = Some AlreadyExists"

lemma IsNotFound_simps [simp, err_simps]:
  "IsNotFound (ErrApi r m) \<longleftrightarrow> r = NotFound"
  "IsNotFound (ErrWrap m e) \<longleftrightarrow> IsNotFound e"
  "\<not> IsNotFound (ErrMsg m)"
  "\<not> IsNotFound ErrReleaseNotFound"
  "\<not> IsNotFound ErrReleaseExists"
  by (simp_all add: IsNotFound_def)

lemma IsConflict_simps [simp, err_simps]:
  "IsConflict (ErrApi r m) \<longleftrightarrow> r = Conflict"
  "IsConflict (ErrWrap m e) \<longleftrightarrow> IsConflict e"
  "\<not> IsConflict (ErrMsg m)"
  "\<not> IsConflict ErrReleaseNotFound"
  "\<not> IsConflict ErrReleaseExists"
  by (simp_all add: IsConflict_def)

lemma IsAlreadyExists_simps [simp, err_simps]:
  "IsAlreadyExists (ErrApi r m) \<longleftrightarrow> r = AlreadyExists"
  "IsAlreadyExists (ErrWrap m e) \<longleftrightarrow> IsAlreadyExists e"
  "\<not> IsAlreadyExists (ErrMsg m)"
  "\<not> IsAlreadyExists ErrReleaseNotFound"
  "\<not> IsAlreadyExists ErrReleaseExists"
  by (simp_all add: IsAlreadyExists_def)

lemma not_found_not_conflict: "IsNotFound e \<Longrightarrow> \<not> IsConflict e"
  by (simp add: IsNotFound_def IsConflict_def)

text \<open>\<open>errors.Is\<close> on a possibly nil error: nil matches no sentinel.\<close>

definition opt_Is :: "go_error option \<Rightarrow> go_error \<Rightarrow> bool" where
  "opt_Is err t \<longleftrightarrow> (case err of None \<Rightarrow> False | Some e \<Rightarrow> errors_Is e t)"

lemma opt_Is_simps [simp, err_simps]:
  "\<not> opt_Is None t"
  "opt_Is (Some e) t \<longleftrightarrow> errors_Is e t"
  by (simp_all add: opt_Is_def)

section \<open>Leaving a function\<close>

text \<open>
  A Go function returns its results, or it panics (a nil dereference, a slice out of
  range). Deferred calls run in both cases, so a panic is a value of the model.
\<close>

datatype 'a exit = Ret 'a | Panic string

section \<open>The environment and the log of calls\<close>

text \<open>
  Everything outside the repository (the API server, Helm, the user's hooks) is a
  function on an arbitrary type of worlds \<open>'w\<close>. The model keeps, beside the world,
  the list of the calls made so far, one event per call site, oldest first. The log is
  an observation: no definition reads it.
\<close>

datatype event =
    EvGetCR
  | EvAddFinalizer
  | EvPauseHandler
  | EvActionClientFor
  | EvGetRelease
  | EvTranslate
  | EvDryRunUpgrade
  | EvPreHook
  | EvInstall
  | EvUpgrade
  | EvReconcileRelease
  | EvUninstall
  | EvRecordEvent string string
  | EvPostHook
  | EvStatusUpdate
  | EvUpdateCR
  | EvWaitForDeletion

record 'w sys =
  world :: 'w
  calls :: "event list"

definition call :: "event \<Rightarrow> ('w \<Rightarrow> 'a \<times> 'w) \<Rightarrow> 'w sys \<Rightarrow> 'a \<times> 'w sys" where
  "call ev f s = (let (r, w') = f (world s) in (r, s\<lparr>world := w', calls := calls s @ [ev]\<rparr>))"

lemma fst_call [simp, call_simps]: "fst (call ev f s) = fst (f (world s))"
  by (simp add: call_def split: prod.splits)

lemma calls_call [simp, call_simps]: "calls (snd (call ev f s)) = calls s @ [ev]"
  by (simp add: call_def split: prod.splits)

lemma world_call [simp, call_simps]: "world (snd (call ev f s)) = snd (f (world s))"
  by (simp add: call_def split: prod.splits)

lemma call_eqD:
  assumes "call ev f s = (r, s')"
  shows "f (world s) = (r, world s')" and "calls s' = calls s @ [ev]"
  using assms by (auto simp: call_def split: prod.splits)

text \<open>
  The events that a computation added to the log: the log only grows, and everything it
  gains lies in the given set.
\<close>

definition adds :: "event set \<Rightarrow> 'w sys \<Rightarrow> 'w sys \<Rightarrow> bool" where
  "adds A s s' \<longleftrightarrow> (\<exists>es. calls s' = calls s @ es \<and> set es \<subseteq> A)"

lemma adds_refl [simp, intro]: "adds A s s"
  by (simp add: adds_def)

lemma adds_trans [trans]: "adds A s s' \<Longrightarrow> adds A s' s'' \<Longrightarrow> adds A s s''"
  by (fastforce simp: adds_def)

lemma adds_mono: "adds A s s' \<Longrightarrow> A \<subseteq> B \<Longrightarrow> adds B s s'"
  by (auto simp: adds_def)

lemma adds_call: "call ev f s = (r, s') \<Longrightarrow> ev \<in> A \<Longrightarrow> adds A s s'"
  by (auto simp: adds_def dest: call_eqD)

lemma adds_set: "adds A s s' \<Longrightarrow> set (calls s') \<subseteq> set (calls s) \<union> A"
  by (auto simp: adds_def)

section \<open>Lists\<close>

lemma filter_filter_conj: "filter P (filter Q xs) = filter (\<lambda>x. Q x \<and> P x) xs"
  by (induction xs) auto

lemma map_of_filter_key:
  "map_of (filter (\<lambda>(k, v). P k) kvs) k = (if P k then map_of kvs k else None)"
  by (induction kvs) auto

end
