(* ===== verification/GoLib.thy ===== *)
theory GoLib
  imports Prelude
begin

text \<open>
  The functions of Go's standard library that the modelled code calls and whose result it
  depends on: \<open>strconv.ParseBool\<close>, \<open>strconv.Itoa\<close>, \<open>%q\<close>,
  \<open>strings.Split\<close>, \<open>strings.TrimSpace\<close>, \<open>strings.ToLower\<close> and
  \<open>os.Expand\<close>. A Go string is a list of bytes, so it is a HOL \<open>string\<close>; where the
  library distinguishes Unicode from ASCII (case, white space, printable runes) bytes above
  127 are passed through unchanged, which is what it does for names, keys and annotation
  values in ASCII.
\<close>

abbreviation code_of :: "char \<Rightarrow> nat" where "code_of c \<equiv> of_char c"

section \<open>strconv\<close>

text \<open>\<open>strconv.ParseBool\<close>: \<open>None\<close> is the syntax error.\<close>

definition ParseBool :: "string \<Rightarrow> bool option" where
  "ParseBool str =
     (if str \<in> {''1'', ''t'', ''T'', ''true'', ''TRUE'', ''True''} then Some True
      else if str \<in> {''0'', ''f'', ''F'', ''false'', ''FALSE'', ''False''} then Some False
      else None)"

fun nat_digits :: "nat \<Rightarrow> string" where
  "nat_digits n =
     (if n < 10 then [char_of (48 + n)] else nat_digits (n div 10) @ [char_of (48 + n mod 10)])"

declare nat_digits.simps [simp del]

definition Itoa :: "int \<Rightarrow> string" where
  "Itoa i = (if i < 0 then CHR ''-'' # nat_digits (nat (- i)) else nat_digits (nat i))"

definition hex_digit :: "nat \<Rightarrow> char" where
  "hex_digit n = (if n < 10 then char_of (48 + n) else char_of (87 + n))"

definition quote_char :: "char \<Rightarrow> string" where
  "quote_char c =
     (let n = code_of c
      in if n = 34 \<or> n = 92 then [CHR 0x5C, c]
         else if n = 7 then [CHR 0x5C, CHR ''a'']
         else if n = 8 then [CHR 0x5C, CHR ''b'']
         else if n = 12 then [CHR 0x5C, CHR ''f'']
         else if n = 10 then [CHR 0x5C, CHR ''n'']
         else if n = 13 then [CHR 0x5C, CHR ''r'']
         else if n = 9 then [CHR 0x5C, CHR ''t'']
         else if n = 11 then [CHR 0x5C, CHR ''v'']
         else if n < 32 \<or> n = 127
              then [CHR 0x5C, CHR ''x'', hex_digit (n div 16), hex_digit (n mod 16)]
         else [c])"

text \<open>\<open>%q\<close> for a string.\<close>

definition quoted :: "string \<Rightarrow> string" where
  "quoted s = CHR 0x22 # concat (map quote_char s) @ [CHR 0x22]"

section \<open>strings\<close>

fun Split :: "char \<Rightarrow> string \<Rightarrow> string list" where
  "Split sep [] = [[]]"
| "Split sep (c # cs) =
     (if c = sep then [] # Split sep cs
      else (case Split sep cs of [] \<Rightarrow> [[c]] | p # ps \<Rightarrow> (c # p) # ps))"

definition isSpace :: "char \<Rightarrow> bool" where
  "isSpace c \<longleftrightarrow> code_of c \<in> {9, 10, 11, 12, 13, 32}"

definition TrimSpace :: "string \<Rightarrow> string" where
  "TrimSpace s = rev (dropWhile isSpace (rev (dropWhile isSpace s)))"

definition lower_char :: "char \<Rightarrow> char" where
  "lower_char c = (let n = code_of c in if 65 \<le> n \<and> n \<le> 90 then char_of (n + 32) else c)"

definition ToLower :: "string \<Rightarrow> string" where
  "ToLower s = map lower_char s"

lemma Split_not_empty [simp]: "Split sep s \<noteq> []"
  by (induction s) (auto split: list.splits)

lemma Split_no_sep: "sep \<notin> set s \<Longrightarrow> Split sep s = [s]"
  by (induction s) auto

lemma Split_pieces: "p \<in> set (Split sep s) \<Longrightarrow> sep \<notin> set p"
  by (induction s arbitrary: p) (auto split: if_splits list.splits)

lemma Split_append:
  "sep \<notin> set p \<Longrightarrow> Split sep (p @ sep # s) = p # Split sep s"
  by (induction p) auto

lemma Split_join:
  "concat (map (\<lambda>p. p @ [sep]) (Split sep s)) = s @ [sep]"
proof (induction s)
  case Nil
  then show ?case by simp
next
  case (Cons c cs)
  then show ?case by (cases "Split sep cs") auto
qed

lemma dropWhile_idem: "dropWhile P (dropWhile P xs) = dropWhile P xs"
  by (induction xs) auto

lemma dropWhile_hd: "dropWhile P xs \<noteq> [] \<Longrightarrow> \<not> P (hd (dropWhile P xs))"
  by (induction xs) auto

lemma TrimSpace_ends:
  assumes "TrimSpace s \<noteq> []"
  shows "\<not> isSpace (hd (TrimSpace s))" and "\<not> isSpace (last (TrimSpace s))"
proof -
  let ?d = "dropWhile isSpace s" and ?r = "dropWhile isSpace (rev (dropWhile isSpace s))"
  have r: "?r \<noteq> []" using assms by (simp add: TrimSpace_def)
  from dropWhile_hd [OF r] show "\<not> isSpace (last (TrimSpace s))"
    by (simp add: TrimSpace_def last_rev)
  obtain us where us: "rev ?d = us @ ?r"
    by (metis takeWhile_dropWhile_id)
  then have d: "?d = rev ?r @ rev us"
    by (metis rev_append rev_rev_ident)
  have ne: "?d \<noteq> []"
  proof
    assume "?d = []"
    with r show False by simp
  qed
  have "hd ?d = hd (rev ?r)"
    using d r by (metis hd_append2 rev_is_Nil_conv)
  with dropWhile_hd [OF ne] show "\<not> isSpace (hd (TrimSpace s))"
    by (simp add: TrimSpace_def)
qed

section \<open>os\<close>

definition isShellSpecialVar :: "char \<Rightarrow> bool" where
  "isShellSpecialVar c \<longleftrightarrow> c \<in> set ''*#$@!?-0123456789''"

definition isAlphaNum :: "char \<Rightarrow> bool" where
  "isAlphaNum c \<longleftrightarrow> (let n = code_of c
     in n = 95 \<or> (48 \<le> n \<and> n \<le> 57) \<or> (97 \<le> n \<and> n \<le> 122) \<or> (65 \<le> n \<and> n \<le> 90))"

text \<open>
  The name after a dollar sign and the number of bytes it takes (braces included); an
  empty name with a positive width is bad syntax, which is dropped.
\<close>

definition getShellName :: "string \<Rightarrow> string \<times> nat" where
  "getShellName s =
     (case s of
        [] \<Rightarrow> ([], 0)
      | c # cs \<Rightarrow>
          if c = CHR 0x7B
          then if length s > 2 \<and> isShellSpecialVar (s ! 1) \<and> s ! 2 = CHR 0x7D then ([s ! 1], 3)
               else let body = takeWhile (\<lambda>x. x \<noteq> CHR 0x7D) cs
                    in if length body = length cs then ([], 1)
                       else if body = [] then ([], 2) else (body, length body + 2)
          else if isShellSpecialVar c then ([c], 1)
          else let name = takeWhile isAlphaNum s in (name, length name))"

function Expand :: "(string \<Rightarrow> string) \<Rightarrow> string \<Rightarrow> string" where
  "Expand mapping [] = []"
| "Expand mapping (c # rest) =
     (if c = CHR ''$'' \<and> rest \<noteq> []
      then let (name, w) = getShellName rest
           in (if name = [] \<and> w > 0 then [] else if name = [] then [c] else mapping name)
              @ Expand mapping (drop w rest)
      else c # Expand mapping rest)"
  by pat_completeness auto
termination
  by (relation "measure (\<lambda>(m, s). length s)") auto

lemma Expand_no_dollar: "CHR ''$'' \<notin> set s \<Longrightarrow> Expand mapping s = s"
  by (induction s) auto

end
