(* ===== verification/NameCodec.thy ===== *)
theory NameCodec
  imports GoLib
begin

text \<open>
  The encodings that \<open>pkg/storage/chunked.go\<close> uses for the names of chunk secrets: the
  FNV-1a hash on 64-bit words (\<open>hash/fnv\<close>), base 32 with its own alphabet
  (\<open>encoding/base32\<close>), and JSON arrays of strings (\<open>encoding/json\<close>) in which the
  index secret lists the names. A byte slice is a HOL string.
\<close>

section \<open>FNV-1a\<close>

definition fnv_offset :: "64 word" where "fnv_offset = 14695981039346656037"
definition fnv_prime :: "64 word" where "fnv_prime = 1099511628211"

fun fnv_write :: "64 word \<Rightarrow> string \<Rightarrow> 64 word" where
  "fnv_write h [] = h"
| "fnv_write h (c # cs) = fnv_write (xor h (word_of_nat (code_of c)) * fnv_prime) cs"

text \<open>\<open>Sum\<close>: the eight bytes of the word, most significant first.\<close>

definition fnv_sum :: "64 word \<Rightarrow> string" where
  "fnv_sum h = map (\<lambda>k. char_of (unat h div 256 ^ (7 - k) mod 256)) [0..<8]"

section \<open>Base 32\<close>

definition base32_alphabet :: string where
  "base32_alphabet = ''abcdefghijklmnopqrstuvwxyz123456''"

text \<open>The bits of a byte, most significant first; groups of five, the last one filled with zeros.\<close>

definition byte_bits :: "char \<Rightarrow> nat list" where
  "byte_bits c = map (\<lambda>k. code_of c div 2 ^ (7 - k) mod 2) [0..<8]"

fun quintets :: "nat list \<Rightarrow> nat list" where
  "quintets (a # b # c # d # e # bs) = (16 * a + 8 * b + 4 * c + 2 * d + e) # quintets bs"
| "quintets [a, b, c, d] = [16 * a + 8 * b + 4 * c + 2 * d]"
| "quintets [a, b, c] = [16 * a + 8 * b + 4 * c]"
| "quintets [a, b] = [16 * a + 8 * b]"
| "quintets [a] = [16 * a]"
| "quintets [] = []"

definition EncodeToString :: "string \<Rightarrow> string" where
  "EncodeToString bytes = map (\<lambda>q. base32_alphabet ! q) (quintets (concat (map byte_bits bytes)))"

text \<open>The shared hash is reset under its mutex before every use.\<close>

definition hashForData :: "string \<Rightarrow> string" where
  "hashForData data = EncodeToString (fnv_sum (fnv_write fnv_offset data))"

section \<open>JSON arrays of strings\<close>

text \<open>
  \<open>json.Marshal\<close> of a slice of strings. Bytes above 127 are passed through, as in
  well-formed UTF-8.
\<close>

definition hex4 :: "nat \<Rightarrow> string" where
  "hex4 n = map (\<lambda>k. hex_digit (n div 16 ^ (3 - k) mod 16)) [0..<4]"

definition json_escape :: "char \<Rightarrow> string" where
  "json_escape c =
     (let n = code_of c
      in if n = 34 \<or> n = 92 then [CHR 0x5C, c]
         else if n = 8 then [CHR 0x5C, CHR ''b'']
         else if n = 12 then [CHR 0x5C, CHR ''f'']
         else if n = 10 then [CHR 0x5C, CHR ''n'']
         else if n = 13 then [CHR 0x5C, CHR ''r'']
         else if n = 9 then [CHR 0x5C, CHR ''t'']
         else if n < 32 \<or> n = 60 \<or> n = 62 \<or> n = 38 then [CHR 0x5C, CHR ''u''] @ hex4 n
         else [c])"

definition json_string :: "string \<Rightarrow> string" where
  "json_string s = CHR 0x22 # concat (map json_escape s) @ [CHR 0x22]"

fun json_elements :: "string list \<Rightarrow> string" where
  "json_elements [] = []"
| "json_elements [s] = json_string s"
| "json_elements (s # ss) = json_string s @ [CHR '',''] @ json_elements ss"

definition MarshalNames :: "string list \<Rightarrow> string" where
  "MarshalNames ns = CHR ''['' # json_elements ns @ [CHR '']'']"

text \<open>
  \<open>json.Unmarshal\<close> into a slice of strings; \<open>None\<close> is an error, be it of syntax or
  of type. It accepts white space between tokens, a null for a nil slice and for an empty
  string, and all escapes; of the \<open>\u\<close> escapes those below the surrogates.
\<close>

definition json_space :: "char \<Rightarrow> bool" where
  "json_space c \<longleftrightarrow> code_of c \<in> {9, 10, 13, 32}"

definition skip_space :: "string \<Rightarrow> string" where
  "skip_space s = dropWhile json_space s"

definition hex_value :: "char \<Rightarrow> nat option" where
  "hex_value c =
     (let n = code_of c
      in if 48 \<le> n \<and> n \<le> 57 then Some (n - 48)
         else if 97 \<le> n \<and> n \<le> 102 then Some (n - 87)
         else if 65 \<le> n \<and> n \<le> 70 then Some (n - 55)
         else None)"

definition utf8 :: "nat \<Rightarrow> string" where
  "utf8 n = (if n < 128 then [char_of n]
     else if n < 2048 then [char_of (192 + n div 64), char_of (128 + n mod 64)]
     else [char_of (224 + n div 4096), char_of (128 + n div 64 mod 64), char_of (128 + n mod 64)])"

fun json_unescape :: "string \<Rightarrow> (string \<times> string) option" where
  "json_unescape (c # cs) =
     (if c = CHR 0x22 \<or> c = CHR 0x5C \<or> c = CHR ''/'' then Some ([c], cs)
      else if c = CHR ''b'' then Some ([char_of (8::nat)], cs)
      else if c = CHR ''f'' then Some ([char_of (12::nat)], cs)
      else if c = CHR ''n'' then Some ([char_of (10::nat)], cs)
      else if c = CHR ''r'' then Some ([char_of (13::nat)], cs)
      else if c = CHR ''t'' then Some ([char_of (9::nat)], cs)
      else if c = CHR ''u'' then
        (case cs of
           d1 # d2 # d3 # d4 # ds \<Rightarrow>
             (case (hex_value d1, hex_value d2, hex_value d3, hex_value d4) of
                (Some h1, Some h2, Some h3, Some h4) \<Rightarrow>
                  let n = 4096 * h1 + 256 * h2 + 16 * h3 + h4
                  in if n < 55296 then Some (utf8 n, ds) else None
              | _ \<Rightarrow> None)
         | _ \<Rightarrow> None)
      else None)"
| "json_unescape [] = None"

lemma json_unescape_shorter: "json_unescape s = Some (x, rest) \<Longrightarrow> length rest < length s"
  by (cases s) (auto split: if_splits list.splits option.splits prod.splits simp: Let_def)

text \<open>After the opening quote: the contents of the string and what follows its closing quote.\<close>

function json_chars :: "string \<Rightarrow> (string \<times> string) option" where
  "json_chars [] = None"
| "json_chars (c # cs) =
     (if c = CHR 0x22 then Some ([], cs)
      else if c = CHR 0x5C then
        (case json_unescape cs of
           None \<Rightarrow> None
         | Some (x, rest) \<Rightarrow>
             (case json_chars rest of None \<Rightarrow> None | Some (y, rest') \<Rightarrow> Some (x @ y, rest')))
      else if code_of c < 32 then None
      else (case json_chars cs of None \<Rightarrow> None | Some (y, rest') \<Rightarrow> Some (c # y, rest')))"
  by pat_completeness auto
termination
  by (relation "measure length") (auto dest: json_unescape_shorter)

lemma json_chars_shorter: "json_chars s = Some (x, rest) \<Longrightarrow> length rest < length s"
proof (induction s arbitrary: x rest rule: json_chars.induct)
  case 1
  then show ?case by simp
next
  case (2 c cs)
  then show ?case
    by (auto split: if_splits option.splits prod.splits dest!: json_unescape_shorter)
       (meson less_SucI less_trans)+
qed

fun json_element :: "string \<Rightarrow> (string \<times> string) option" where
  "json_element (c # cs) =
     (if c = CHR 0x22 then json_chars cs
      else if take 4 (c # cs) = ''null'' then Some ([], drop 4 (c # cs))
      else None)"
| "json_element [] = None"

lemma json_element_shorter: "json_element s = Some (x, rest) \<Longrightarrow> length rest < length s"
  by (cases s) (auto split: if_splits dest: json_chars_shorter)

lemma skip_space_length: "length (skip_space s) \<le> length s"
  by (simp add: skip_space_def length_dropWhile_le)

text \<open>From an element on, to the end of the document.\<close>

function json_list :: "string \<Rightarrow> string list option" where
  "json_list s =
     (case json_element (skip_space s) of
        None \<Rightarrow> None
      | Some (x, rest) \<Rightarrow>
          (case skip_space rest of
             [] \<Rightarrow> None
           | c # cs \<Rightarrow>
               if c = CHR '','' then (case json_list cs of None \<Rightarrow> None | Some xs \<Rightarrow> Some (x # xs))
               else if c = CHR '']'' \<and> skip_space cs = [] then Some [x]
               else None))"
  by pat_completeness auto
termination
proof (relation "measure length")
  fix s p x rest c cs
  assume e: "json_element (skip_space s) = Some p" "(x, rest) = p" and r: "skip_space rest = c # cs"
  from e json_element_shorter [of "skip_space s" x rest] skip_space_length [of s]
  have "length rest < length s" by simp
  moreover from r skip_space_length [of rest] have "length cs < length rest" by simp
  ultimately show "(cs, s) \<in> measure length" by simp
qed simp

declare json_list.simps [simp del]

definition UnmarshalNames :: "string \<Rightarrow> string list option" where
  "UnmarshalNames s =
     (case skip_space s of
        [] \<Rightarrow> None
      | c # cs \<Rightarrow>
          if c = CHR ''['' then
            (case skip_space cs of
               [] \<Rightarrow> None
             | d # ds \<Rightarrow> if d = CHR '']'' then (if skip_space ds = [] then Some [] else None)
                         else json_list cs)
          else if take 4 (c # cs) = ''null'' \<and> skip_space (drop 4 (c # cs)) = [] then Some []
          else None)"

section \<open>Lemmas: the names survive the index\<close>

lemma code_of_eq: "code_of c = n \<longleftrightarrow> n < 256 \<and> c = char_of n"
  by (auto simp: of_char_of)

lemma char_codes: "code_of c = 34 \<longleftrightarrow> c = CHR 0x22" "code_of c = 92 \<longleftrightarrow> c = CHR 0x5C"
  using of_char_eq_iff [where 'a = nat, of c "CHR 0x22"] of_char_eq_iff [where 'a = nat, of c "CHR 0x5C"]
  by simp_all

lemma hex_value_digit: "d < 16 \<Longrightarrow> hex_value (hex_digit d) = Some d"
  by (simp add: hex_value_def hex_digit_def Let_def)

lemma char_of_zero: "char_of (48::nat) = CHR ''0''"
proof -
  have "code_of (CHR ''0'') = 48" by simp
  then show ?thesis by (simp only: code_of_eq)
qed

lemma hex4_small: "n < 256 \<Longrightarrow> hex4 n = [CHR ''0'', CHR ''0'', hex_digit (n div 16), hex_digit (n mod 16)]"
  by (simp add: hex4_def upt_rec numeral_2_eq_2 hex_digit_def char_of_zero)

lemma json_unescape_u:
  assumes "code_of c < 128"
  shows "json_unescape (CHR ''u'' # hex4 (code_of c) @ t) = Some ([c], t)"
proof -
  have h: "hex_value (CHR ''0'') = Some 0" by (simp add: hex_value_def)
  have "code_of c = 16 * (code_of c div 16) + code_of c mod 16" by simp
  then show ?thesis
    using assms by (simp add: hex4_small h hex_value_digit utf8_def Let_def)
qed

lemma json_chars_escape:
  "json_chars (json_escape c @ t) =
     (case json_chars t of None \<Rightarrow> None | Some (y, rest) \<Rightarrow> Some (c # y, rest))"
proof -
  let ?n = "code_of c"
  have n: "?n < 256" by (simp)
  consider "?n = 34 \<or> ?n = 92" | "?n \<in> {8, 12, 10, 13, 9}"
    | "?n < 32 \<or> ?n = 60 \<or> ?n = 62 \<or> ?n = 38" "\<not> (?n = 34 \<or> ?n = 92)" "?n \<notin> {8, 12, 10, 13, 9}"
    | "\<not> (?n < 32 \<or> ?n = 60 \<or> ?n = 62 \<or> ?n = 38)" "\<not> (?n = 34 \<or> ?n = 92)" "?n \<notin> {8, 12, 10, 13, 9}"
    by blast
  then show ?thesis
  proof cases
    case 1
    then have "c = CHR 0x22 \<or> c = CHR 0x5C" by (simp only: char_codes)
    then show ?thesis by (auto simp: json_escape_def split: option.splits)
  next
    case 2
    then have "c = char_of (8::nat) \<or> c = char_of (12::nat) \<or> c = char_of (10::nat)
        \<or> c = char_of (13::nat) \<or> c = char_of (9::nat)" by (auto simp: code_of_eq)
    then show ?thesis by (auto simp: json_escape_def split: option.splits)
  next
    case 3
    then have e: "json_escape c = CHR 0x5C # CHR ''u'' # hex4 ?n"
      by (auto simp: json_escape_def Let_def)
    have "?n < 128" using 3 by auto
    from json_unescape_u [OF this, of t] show ?thesis
      by (simp add: e del: json_unescape.simps split: option.splits)
  next
    case 4
    then have e: "json_escape c = [c]" and "c \<noteq> CHR 0x22" "c \<noteq> CHR 0x5C"
      unfolding char_codes [symmetric] by (auto simp: json_escape_def Let_def)
    with 4 show ?thesis by (simp add: e)
  qed
qed

lemma json_chars_string: "json_chars (concat (map json_escape s) @ CHR 0x22 # rest) = Some (s, rest)"
  by (induction s) (simp_all add: json_chars_escape)

lemma json_element_string: "json_element (json_string s @ rest) = Some (s, rest)"
  by (simp add: json_string_def json_chars_string)

lemma skip_space_quote: "skip_space (json_string s @ rest) = json_string s @ rest"
  by (simp add: json_string_def skip_space_def json_space_def)

lemma json_list_elements:
  "ns \<noteq> [] \<Longrightarrow> json_list (json_elements ns @ [CHR '']'']) = Some ns"
proof (induction ns rule: json_elements.induct)
  case 1
  then show ?case by simp
next
  case (2 s)
  then show ?case
    by (simp add: json_list.simps skip_space_quote json_element_string)
       (simp add: skip_space_def json_space_def)
next
  case (3 s s' ss)
  then have "json_list (json_elements (s' # ss) @ [CHR '']'']) = Some (s' # ss)" by simp
  then show ?case
    by (subst json_list.simps)
       (simp add: skip_space_quote json_element_string skip_space_def [of "CHR '','' # _"] json_space_def)
qed

lemma json_elements_hd: "ns \<noteq> [] \<Longrightarrow> \<exists>t. json_elements ns @ [CHR '']''] = CHR 0x22 # t"
  by (cases ns rule: json_elements.cases) (auto simp: json_string_def)

lemma Unmarshal_Marshal: "UnmarshalNames (MarshalNames ns) = Some ns"
proof (cases "ns = []")
  case True
  then show ?thesis by (simp add: MarshalNames_def UnmarshalNames_def skip_space_def json_space_def)
next
  case False
  from json_elements_hd [OF this] obtain t where t: "json_elements ns @ [CHR '']''] = CHR 0x22 # t" by blast
  have "skip_space (CHR 0x22 # t) = CHR 0x22 # t" by (simp add: skip_space_def json_space_def)
  moreover have "skip_space (CHR ''['' # CHR 0x22 # t) = CHR ''['' # CHR 0x22 # t"
    by (simp add: skip_space_def json_space_def)
  ultimately show ?thesis
    using json_list_elements [OF False] by (simp add: MarshalNames_def UnmarshalNames_def t)
qed

section \<open>Lemmas: the shape of a hash\<close>

lemma quintets_length: "length (quintets bs) = (length bs + 4) div 5"
  by (induction bs rule: quintets.induct) auto

lemma quintets_bound: "set bs \<subseteq> {0, 1} \<Longrightarrow> q \<in> set (quintets bs) \<Longrightarrow> q < 32"
  by (induction bs rule: quintets.induct) auto

lemma byte_bits_length [simp]: "length (byte_bits c) = 8"
  by (simp add: byte_bits_def)

lemma byte_bits_bound: "set (byte_bits c) \<subseteq> {0, 1}"
  by (auto simp: byte_bits_def)

lemma bits_length: "length (concat (map byte_bits bytes)) = 8 * length bytes"
  by (induction bytes) simp_all

lemma base32_length: "length base32_alphabet = 32"
  by (simp add: base32_alphabet_def)

lemma EncodeToString_chars: "set (EncodeToString bytes) \<subseteq> set base32_alphabet"
proof -
  have "set (concat (map byte_bits bytes)) \<subseteq> {0, 1}" using byte_bits_bound by fastforce
  from quintets_bound [OF this] show ?thesis
    by (auto simp: EncodeToString_def base32_length intro!: nth_mem)
qed

lemma EncodeToString_length: "length (EncodeToString bytes) = (8 * length bytes + 4) div 5"
  unfolding EncodeToString_def by (simp add: quintets_length bits_length)

lemma hashForData_shape:
  "length (hashForData data) = 13 \<and> set (hashForData data) \<subseteq> set base32_alphabet"
  using EncodeToString_chars by (simp add: hashForData_def EncodeToString_length fnv_sum_def)

section \<open>Lemmas: distinct hashes have distinct names\<close>

lemma digits_eq:
  fixes x y B :: nat
  assumes "\<And>k. k < n \<Longrightarrow> x div B ^ k mod B = y div B ^ k mod B" and "x < B ^ n" and "y < B ^ n"
    and "0 < B"
  shows "x = y"
  using assms(1-3)
proof (induction n arbitrary: x y)
  case 0
  then show ?case by simp
next
  case (Suc n)
  have "x div B = y div B"
  proof (rule Suc.IH)
    show "x div B div B ^ k mod B = y div B div B ^ k mod B" if "k < n" for k
      using Suc.prems(1) [of "Suc k"] that by (simp add: div_mult2_eq)
  qed (use Suc.prems(2,3) in \<open>simp_all add: less_mult_imp_div_less mult.commute\<close>)
  moreover have "x mod B = y mod B" using Suc.prems(1) [of 0] by simp
  ultimately show ?case by (metis div_mult_mod_eq)
qed

lemma two_digits:
  "2 * x + e = 2 * y + e' \<Longrightarrow> e < 2 \<Longrightarrow> e' < 2 \<Longrightarrow> x = y \<and> e = (e' :: nat)"
  by presburger

lemma five_bits:
  assumes "16 * a + 8 * b + 4 * c + 2 * d + e = 16 * a' + 8 * b' + 4 * c' + 2 * d' + (e' :: nat)"
    and "b < 2" "c < 2" "d < 2" "e < 2" "b' < 2" "c' < 2" "d' < 2" "e' < 2"
  shows "a = a' \<and> b = b' \<and> c = c' \<and> d = d' \<and> e = e'"
proof -
  have "2 * (8 * a + 4 * b + 2 * c + d) + e = 2 * (8 * a' + 4 * b' + 2 * c' + d') + e'"
    using assms(1) by simp
  from two_digits [OF this assms(5,9)]
  have 1: "2 * (4 * a + 2 * b + c) + d = 2 * (4 * a' + 2 * b' + c') + d'" "e = e'" by simp_all
  from two_digits [OF 1(1) assms(4,8)]
  have 2: "2 * (2 * a + b) + c = 2 * (2 * a' + b') + c'" "d = d'" by simp_all
  from two_digits [OF 2(1) assms(3,7)] have 3: "2 * a + b = 2 * a' + b'" "c = c'" by simp_all
  from two_digits [OF 3(1) assms(2,6)] 1 2 3 show ?thesis by simp
qed

lemma quintets_inj:
  assumes "quintets bs = quintets cs" and "length bs = length cs"
    and "set bs \<subseteq> {0, 1}" and "set cs \<subseteq> {0, 1}"
  shows "bs = cs"
  using assms
proof (induction bs arbitrary: cs rule: quintets.induct)
  case (1 a b c d e bs)
  then obtain a' b' c' d' e' cs' where cs: "cs = a' # b' # c' # d' # e' # cs'"
    by (cases cs rule: quintets.cases) auto
  have eq: "16 * a + 8 * b + 4 * c + 2 * d + e = 16 * a' + 8 * b' + 4 * c' + 2 * d' + e'"
    and rest: "quintets bs = quintets cs'"
    using 1(2) unfolding cs by simp_all
  have two: "x < 2" if "x \<in> {0, 1}" for x :: nat using that by auto
  have bits: "{b, c, d, e, b', c', d', e'} \<subseteq> {0, 1}" using 1(4,5) unfolding cs by simp
  have "a = a' \<and> b = b' \<and> c = c' \<and> d = d' \<and> e = e'"
    by (rule five_bits [OF eq]; rule two; use bits in blast)
  moreover have "bs = cs'"
    by (rule 1(1) [OF rest]) (use 1(3-5) in \<open>simp_all add: cs\<close>)
  ultimately show ?case by (simp add: cs)
next
  case (2 a b c d)
  then obtain a' b' c' d' where cs: "cs = [a', b', c', d']"
    by (cases cs rule: quintets.cases) auto
  with 2 five_bits [of a b c d 0 a' b' c' d' 0] show ?case by (simp add: less_2_cases_iff)
next
  case (3 a b c)
  then obtain a' b' c' where cs: "cs = [a', b', c']"
    by (cases cs rule: quintets.cases) auto
  with 3 five_bits [of a b c 0 0 a' b' c' 0 0] show ?case by (simp add: less_2_cases_iff)
next
  case (4 a b)
  then obtain a' b' where cs: "cs = [a', b']"
    by (cases cs rule: quintets.cases) auto
  with 4 five_bits [of a b 0 0 0 a' b' 0 0 0] show ?case by (simp add: less_2_cases_iff)
next
  case (5 a)
  then obtain a' where "cs = [a']" by (cases cs rule: quintets.cases) auto
  with 5 show ?case by simp
next
  case 6
  then show ?case by simp
qed

lemma byte_bits_inj: "byte_bits c = byte_bits d \<Longrightarrow> c = d"
proof -
  assume b: "byte_bits c = byte_bits d"
  have "code_of c div 2 ^ k mod 2 = code_of d div 2 ^ k mod 2" if "k < 8" for k
  proof -
    have "byte_bits e ! (7 - k) = code_of e div 2 ^ k mod 2" for e
      using that nth_upt [of 0 "7 - k" 8] by (simp add: byte_bits_def)
    with b show ?thesis by metis
  qed
  then have "code_of c = code_of d" by (rule digits_eq [of 8]) simp_all
  then show "c = d" by simp
qed

lemma bits_inj:
  "concat (map byte_bits xs) = concat (map byte_bits ys) \<Longrightarrow> xs = ys"
proof (induction xs arbitrary: ys)
  case Nil
  then show ?case by (cases ys) (auto dest: arg_cong [of _ _ length])
next
  case (Cons x xs)
  show ?case
  proof (cases ys)
    case Nil
    with Cons.prems show ?thesis by (auto dest: arg_cong [of _ _ length])
  next
    case (Cons y ys')
    with Cons.prems have "byte_bits x = byte_bits y"
      "concat (map byte_bits xs) = concat (map byte_bits ys')" by (auto simp: append_eq_append_conv)
    with Cons.IH Cons byte_bits_inj show ?thesis by blast
  qed
qed

lemma EncodeToString_inj:
  assumes "EncodeToString xs = EncodeToString ys" and "length xs = length ys"
  shows "xs = ys"
proof -
  let ?b = "\<lambda>s. concat (map byte_bits s)"
  have bits: "set (?b s) \<subseteq> {0, 1}" for s unfolding set_concat set_map using byte_bits_bound by blast
  have "distinct base32_alphabet" by (simp add: base32_alphabet_def)
  then have "inj_on (\<lambda>q. base32_alphabet ! q) {..<32}"
    by (simp add: inj_on_nth base32_length)
  then have "quintets (?b xs) = quintets (?b ys)"
    using assms(1) quintets_bound [OF bits] unfolding EncodeToString_def
    by (subst (asm) inj_on_map_eq_map) (auto elim!: inj_on_subset)
  then have "?b xs = ?b ys" by (rule quintets_inj [OF _ _ bits bits]) (simp add: bits_length assms(2))
  then show ?thesis by (rule bits_inj)
qed

lemma fnv_sum_inj: "fnv_sum h = fnv_sum h' \<Longrightarrow> h = h'"
proof -
  assume f: "fnv_sum h = fnv_sum h'"
  have d: "unat h div 256 ^ k mod 256 = unat h' div 256 ^ k mod 256" if "k < 8" for k
  proof -
    have n: "fnv_sum x ! (7 - k) = char_of (unat x div 256 ^ k mod 256)" for x
      using that nth_upt [of 0 "7 - k" 8] by (simp add: fnv_sum_def)
    have "char_of (unat h div 256 ^ k mod 256) = (char_of (unat h' div 256 ^ k mod 256) :: char)"
      unfolding n [symmetric] f ..
    then have "code_of (char_of (unat h div 256 ^ k mod 256)) = code_of (char_of (unat h' div 256 ^ k mod 256))"
      by simp
    then show ?thesis by (simp only: of_char_of mod_mod_trivial)
  qed
  have b: "unat x < 256 ^ 8" for x :: "64 word"
    using unsigned_less [where 'a = nat, of x] by simp
  have "unat h = unat h'" by (rule digits_eq [of 8]) (use d b in auto)
  then show "h = h'" by (simp add: word_unat_eq_iff)
qed

lemma hashForData_eq_iff:
  "hashForData d = hashForData d' \<longleftrightarrow> fnv_write fnv_offset d = fnv_write fnv_offset d'"
  using EncodeToString_inj [of "fnv_sum (fnv_write fnv_offset d)" "fnv_sum (fnv_write fnv_offset d')"]
    fnv_sum_inj
  by (auto simp: hashForData_def fnv_sum_def)

end
