(* ===== verification/Conditions.thy ===== *)
theory Conditions
  imports Prelude
begin

text \<open>
  The status conditions of a custom resource: \<open>pkg/internal/status/conditions.go\<close>
  (the set of conditions and its operations) and
  \<open>pkg/reconciler/internal/conditions/conditions.go\<close> (the five condition types of the
  reconciler and their reasons). Conditions are a Go slice, so they are a list here; that
  no two of them have the same type is an invariant that the operations keep
  (\<open>conditions_ok\<close>), not part of the type.
\<close>

section \<open>Condition values\<close>

type_synonym time = int
type_synonym condition_status = string

abbreviation ConditionTrue :: condition_status where "ConditionTrue \<equiv> ''True''"
abbreviation ConditionFalse :: condition_status where "ConditionFalse \<equiv> ''False''"
abbreviation ConditionUnknown :: condition_status where "ConditionUnknown \<equiv> ''Unknown''"

record condition =
  cond_type :: string
  cond_status :: condition_status
  cond_reason :: string
  cond_message :: string
  cond_last_transition :: time

type_synonym conditions = "condition list"

definition IsTrue :: "condition \<Rightarrow> bool" where
  "IsTrue c \<longleftrightarrow> cond_status c = ConditionTrue"

definition IsFalse :: "condition \<Rightarrow> bool" where
  "IsFalse c \<longleftrightarrow> cond_status c = ConditionFalse"

definition IsUnknown :: "condition \<Rightarrow> bool" where
  "IsUnknown c \<longleftrightarrow> cond_status c = ConditionUnknown"

section \<open>Queries\<close>

fun IsTrueFor :: "conditions \<Rightarrow> string \<Rightarrow> bool" where
  "IsTrueFor [] t = False"
| "IsTrueFor (c # cs) t = (if cond_type c = t then IsTrue c else IsTrueFor cs t)"

fun IsFalseFor :: "conditions \<Rightarrow> string \<Rightarrow> bool" where
  "IsFalseFor [] t = False"
| "IsFalseFor (c # cs) t = (if cond_type c = t then IsFalse c else IsFalseFor cs t)"

fun IsUnknownFor :: "conditions \<Rightarrow> string \<Rightarrow> bool" where
  "IsUnknownFor [] t = True"
| "IsUnknownFor (c # cs) t = (if cond_type c = t then IsUnknown c else IsUnknownFor cs t)"

fun GetCondition :: "conditions \<Rightarrow> string \<Rightarrow> condition option" where
  "GetCondition [] t = None"
| "GetCondition (c # cs) t = (if cond_type c = t then Some c else GetCondition cs t)"

section \<open>Updates\<close>

text \<open>
  The loop of \<open>SetCondition\<close> over the slice: the first condition of the same type is
  overwritten in place, keeping its transition time when the status is the same; if there
  is none, the new one is appended. \<open>newCond\<close> already carries the current time.
\<close>

fun SetCondition_loop :: "condition \<Rightarrow> conditions \<Rightarrow> bool \<times> conditions" where
  "SetCondition_loop newCond [] = (True, [newCond])"
| "SetCondition_loop newCond (c # cs) =
     (if cond_type c = cond_type newCond
      then let newCond' = (if cond_status c = cond_status newCond
                           then newCond\<lparr>cond_last_transition := cond_last_transition c\<rparr>
                           else newCond);
               changed = (cond_status c \<noteq> cond_status newCond
                          \<or> cond_reason c \<noteq> cond_reason newCond
                          \<or> cond_message c \<noteq> cond_message newCond)
           in (changed, newCond' # cs)
      else let (changed, cs') = SetCondition_loop newCond cs in (changed, c # cs'))"

text \<open>\<open>now\<close> is the reading of the package's clock.\<close>

definition SetCondition :: "time \<Rightarrow> condition \<Rightarrow> conditions \<Rightarrow> bool \<times> conditions" where
  "SetCondition now newCond cs = SetCondition_loop (newCond\<lparr>cond_last_transition := now\<rparr>) cs"

definition NewConditions :: "time \<Rightarrow> condition list \<Rightarrow> conditions" where
  "NewConditions now conds = foldl (\<lambda>cs c. snd (SetCondition now c cs)) [] conds"

fun RemoveCondition_loop :: "string \<Rightarrow> conditions \<Rightarrow> bool \<times> conditions" where
  "RemoveCondition_loop t [] = (False, [])"
| "RemoveCondition_loop t (c # cs) =
     (if cond_type c = t then (True, cs)
      else let (b, cs') = RemoveCondition_loop t cs in (b, c # cs'))"

text \<open>The receiver is a pointer that may be nil.\<close>

definition RemoveCondition :: "string \<Rightarrow> conditions option \<Rightarrow> bool \<times> conditions option" where
  "RemoveCondition t conds =
     (case conds of None \<Rightarrow> (False, None)
      | Some cs \<Rightarrow> let (b, cs') = RemoveCondition_loop t cs in (b, Some cs'))"

text \<open>
  \<open>MarshalJSON\<close> sorts by type (byte order) and hands the sorted slice to the JSON
  encoder; \<open>marshal\<close> is that encoder.
\<close>

definition MarshalJSON :: "(condition list \<Rightarrow> go_error + string) \<Rightarrow> conditions \<Rightarrow> go_error + string" where
  "MarshalJSON marshal conds = marshal (sort_key cond_type conds)"

section \<open>The reconciler's conditions\<close>

abbreviation TypeInitialized :: string where "TypeInitialized \<equiv> ''Initialized''"
abbreviation TypeDeployed :: string where "TypeDeployed \<equiv> ''Deployed''"
abbreviation TypeReleaseFailed :: string where "TypeReleaseFailed \<equiv> ''ReleaseFailed''"
abbreviation TypeIrreconcilable :: string where "TypeIrreconcilable \<equiv> ''Irreconcilable''"
abbreviation TypePaused :: string where "TypePaused \<equiv> ''Paused''"

abbreviation ReasonInstallSuccessful :: string where
  "ReasonInstallSuccessful \<equiv> ''InstallSuccessful''"
abbreviation ReasonUpgradeSuccessful :: string where
  "ReasonUpgradeSuccessful \<equiv> ''UpgradeSuccessful''"
abbreviation ReasonUninstallSuccessful :: string where
  "ReasonUninstallSuccessful \<equiv> ''UninstallSuccessful''"
abbreviation ReasonPauseReconcileAnnotationTrue :: string where
  "ReasonPauseReconcileAnnotationTrue \<equiv> ''PauseReconcileAnnotationTrue''"
abbreviation ReasonErrorGettingClient :: string where
  "ReasonErrorGettingClient \<equiv> ''ErrorGettingClient''"
abbreviation ReasonErrorGettingValues :: string where
  "ReasonErrorGettingValues \<equiv> ''ErrorGettingValues''"
abbreviation ReasonErrorGettingReleaseState :: string where
  "ReasonErrorGettingReleaseState \<equiv> ''ErrorGettingReleaseState''"
abbreviation ReasonInstallError :: string where "ReasonInstallError \<equiv> ''InstallError''"
abbreviation ReasonUpgradeError :: string where "ReasonUpgradeError \<equiv> ''UpgradeError''"
abbreviation ReasonReconcileError :: string where "ReasonReconcileError \<equiv> ''ReconcileError''"
abbreviation ReasonUninstallError :: string where "ReasonUninstallError \<equiv> ''UninstallError''"

text \<open>
  The message of \<open>newCondition\<close> is whatever \<open>%s\<close> prints: the reconciler passes
  strings and errors. The transition time of a fresh literal is the zero time.
\<close>

datatype message = MStr string | MErr go_error

fun sprint_message :: "message \<Rightarrow> string" where
  "sprint_message (MStr m) = m"
| "sprint_message (MErr e) = error_text e"

definition newCondition :: "string \<Rightarrow> condition_status \<Rightarrow> string \<Rightarrow> message \<Rightarrow> condition" where
  "newCondition t s r m =
     \<lparr>cond_type = t, cond_status = s, cond_reason = r, cond_message = sprint_message m,
      cond_last_transition = 0\<rparr>"

definition Initialized :: "condition_status \<Rightarrow> string \<Rightarrow> message \<Rightarrow> condition" where
  "Initialized stat reason m = newCondition TypeInitialized stat reason m"

definition Deployed :: "condition_status \<Rightarrow> string \<Rightarrow> message \<Rightarrow> condition" where
  "Deployed stat reason m = newCondition TypeDeployed stat reason m"

definition ReleaseFailed :: "condition_status \<Rightarrow> string \<Rightarrow> message \<Rightarrow> condition" where
  "ReleaseFailed stat reason m = newCondition TypeReleaseFailed stat reason m"

definition Irreconcilable :: "condition_status \<Rightarrow> string \<Rightarrow> message \<Rightarrow> condition" where
  "Irreconcilable stat reason m = newCondition TypeIrreconcilable stat reason m"

definition Paused :: "condition_status \<Rightarrow> string \<Rightarrow> message \<Rightarrow> condition" where
  "Paused stat reason m = newCondition TypePaused stat reason m"

lemmas condition_ctor_defs =
  Initialized_def Deployed_def ReleaseFailed_def Irreconcilable_def Paused_def newCondition_def

section \<open>Lemmas\<close>

text \<open>Two conditions agree when they differ at most in their transition time.\<close>

definition cond_agree :: "condition \<Rightarrow> condition \<Rightarrow> bool" where
  "cond_agree c d \<longleftrightarrow> cond_type c = cond_type d \<and> cond_status c = cond_status d
     \<and> cond_reason c = cond_reason d \<and> cond_message c = cond_message d"

definition conditions_ok :: "conditions \<Rightarrow> bool" where
  "conditions_ok cs \<longleftrightarrow> distinct (map cond_type cs)"

lemma cond_agree_refl [simp]: "cond_agree c c"
  by (simp add: cond_agree_def)

lemma cond_agree_sym: "cond_agree c d \<Longrightarrow> cond_agree d c"
  by (simp add: cond_agree_def)

lemma cond_agree_trans [trans]: "cond_agree c d \<Longrightarrow> cond_agree d e \<Longrightarrow> cond_agree c e"
  by (simp add: cond_agree_def)

lemma cond_agree_time [simp]:
  "cond_agree (c\<lparr>cond_last_transition := t\<rparr>) d \<longleftrightarrow> cond_agree c d"
  "cond_agree c (d\<lparr>cond_last_transition := t\<rparr>) \<longleftrightarrow> cond_agree c d"
  by (simp_all add: cond_agree_def)

lemma cond_agree_equality:
  "cond_agree c d \<Longrightarrow> cond_last_transition c = cond_last_transition d \<Longrightarrow> c = (d :: condition)"
  by (simp add: cond_agree_def)

text \<open>The transition time that a write leaves, given what was there before.\<close>

definition transition_time :: "time \<Rightarrow> condition \<Rightarrow> condition option \<Rightarrow> time" where
  "transition_time now c old =
     (case old of None \<Rightarrow> now
      | Some d \<Rightarrow> if cond_status d = cond_status c then cond_last_transition d else now)"

lemma transition_time_simps [simp]:
  "transition_time now c None = now"
  "transition_time now c (Some d) =
     (if cond_status d = cond_status c then cond_last_transition d else now)"
  by (simp_all add: transition_time_def)

lemma GetCondition_type: "GetCondition cs t = Some c \<Longrightarrow> cond_type c = t"
  by (induction cs) (auto split: if_splits)

lemma GetCondition_mem: "GetCondition cs t = Some c \<Longrightarrow> c \<in> set cs"
  by (induction cs) (auto split: if_splits)

lemma GetCondition_None_iff: "GetCondition cs t = None \<longleftrightarrow> t \<notin> cond_type ` set cs"
  by (induction cs) auto

lemma GetCondition_distinct:
  "conditions_ok cs \<Longrightarrow> c \<in> set cs \<Longrightarrow> GetCondition cs (cond_type c) = Some c"
proof (induction cs)
  case Nil
  then show ?case by simp
next
  case (Cons d cs)
  show ?case
  proof (cases "c = d")
    case True
    then show ?thesis by simp
  next
    case False
    with Cons.prems have c: "c \<in> set cs" and ok: "conditions_ok cs"
      by (simp_all add: conditions_ok_def)
    from c have "cond_type c \<in> cond_type ` set cs" by (rule imageI)
    with Cons.prems(1) have "cond_type d \<noteq> cond_type c" by (auto simp: conditions_ok_def)
    with Cons.IH [OF ok c] show ?thesis by simp
  qed
qed

lemma GetCondition_SetCondition_loop:
  "GetCondition (snd (SetCondition_loop c cs)) t =
     (if t = cond_type c
      then Some (c\<lparr>cond_last_transition :=
             transition_time (cond_last_transition c) c (GetCondition cs t)\<rparr>)
      else GetCondition cs t)"
proof (induction cs)
  case Nil
  then show ?case by simp
next
  case (Cons d cs)
  then show ?case
    by (cases "cond_type d = cond_type c"; cases "cond_status d = cond_status c")
       (auto simp: Let_def case_prod_unfold)
qed

lemma SetCondition_loop_changed:
  "\<not> fst (SetCondition_loop c cs) \<longleftrightarrow>
     (\<exists>d. GetCondition cs (cond_type c) = Some d \<and> cond_agree c d)"
proof (induction cs)
  case Nil
  then show ?case by simp
next
  case (Cons d cs)
  then show ?case
    by (cases "cond_type d = cond_type c") (auto simp: Let_def case_prod_unfold cond_agree_def)
qed

lemma SetCondition_loop_unchanged:
  "\<not> fst (SetCondition_loop c cs) \<Longrightarrow> snd (SetCondition_loop c cs) = cs"
proof (induction cs)
  case Nil
  then show ?case by simp
next
  case (Cons d cs)
  then show ?case
    by (cases "cond_type d = cond_type c") (simp_all add: Let_def case_prod_unfold)
qed

lemma SetCondition_loop_types:
  "map cond_type (snd (SetCondition_loop c cs)) =
     (if cond_type c \<in> cond_type ` set cs then map cond_type cs
      else map cond_type cs @ [cond_type c])"
proof (induction cs)
  case Nil
  then show ?case by simp
next
  case (Cons d cs)
  then show ?case
    by (cases "cond_type d = cond_type c") (auto simp: Let_def case_prod_unfold)
qed

lemma SetCondition_types:
  "map cond_type (snd (SetCondition now c cs)) =
     (if cond_type c \<in> cond_type ` set cs then map cond_type cs
      else map cond_type cs @ [cond_type c])"
  by (simp add: SetCondition_def SetCondition_loop_types)

lemma SetCondition_ok: "conditions_ok cs \<Longrightarrow> conditions_ok (snd (SetCondition now c cs))"
  by (auto simp: conditions_ok_def SetCondition_types)

lemma GetCondition_SetCondition:
  "GetCondition (snd (SetCondition now c cs)) t =
     (if t = cond_type c
      then Some (c\<lparr>cond_last_transition := transition_time now c (GetCondition cs t)\<rparr>)
      else GetCondition cs t)"
  by (simp add: SetCondition_def GetCondition_SetCondition_loop)
     (simp add: transition_time_def split: option.splits)

lemma SetCondition_changed:
  "fst (SetCondition now c cs) \<longleftrightarrow>
     \<not> (\<exists>d. GetCondition cs (cond_type c) = Some d \<and> cond_agree c d)"
  using SetCondition_loop_changed [of "c\<lparr>cond_last_transition := now\<rparr>" cs]
  by (simp add: SetCondition_def) blast

lemma SetCondition_unchanged:
  "\<not> fst (SetCondition now c cs) \<Longrightarrow> snd (SetCondition now c cs) = cs"
  by (simp add: SetCondition_def SetCondition_loop_unchanged)

text \<open>The three queries read the status of the first condition of the type.\<close>

lemma status_queries_GetCondition:
  "IsTrueFor cs t = (case GetCondition cs t of None \<Rightarrow> False | Some c \<Rightarrow> IsTrue c)"
  "IsFalseFor cs t = (case GetCondition cs t of None \<Rightarrow> False | Some c \<Rightarrow> IsFalse c)"
  "IsUnknownFor cs t = (case GetCondition cs t of None \<Rightarrow> True | Some c \<Rightarrow> IsUnknown c)"
  by (induction cs) auto

lemma RemoveCondition_loop_found:
  "fst (RemoveCondition_loop t cs) \<longleftrightarrow> t \<in> cond_type ` set cs"
  by (induction cs) (auto split: prod.splits)

lemma RemoveCondition_loop_result:
  "conditions_ok cs \<Longrightarrow>
     snd (RemoveCondition_loop t cs) = filter (\<lambda>c. cond_type c \<noteq> t) cs"
  by (induction cs)
     (auto simp: conditions_ok_def image_iff intro!: filter_True [symmetric] split: prod.splits)

lemma NewConditions_ok: "conditions_ok (NewConditions now conds)"
proof -
  have "conditions_ok cs \<Longrightarrow> conditions_ok (foldl (\<lambda>cs c. snd (SetCondition now c cs)) cs conds)" for cs
    by (induction conds arbitrary: cs) (auto intro: SetCondition_ok)
  then show ?thesis by (simp add: NewConditions_def conditions_ok_def)
qed

section \<open>The interface: a store of conditions\<close>

text \<open>
  What the updater relies on: a write is visible under its key up to the transition time,
  other keys keep their value, the change flag says whether the stored value disagreed, and
  a write that reports no change leaves the store as it was.
\<close>

locale condition_store =
  fixes lookup :: "'cs \<Rightarrow> 'k \<Rightarrow> 'v option"
    and put :: "'t \<Rightarrow> 'v \<Rightarrow> 'cs \<Rightarrow> bool \<times> 'cs"
    and key :: "'v \<Rightarrow> 'k"
    and agree :: "'v \<Rightarrow> 'v \<Rightarrow> bool"
    and ok :: "'cs \<Rightarrow> bool"
  assumes lookup_put_same: "\<exists>v'. lookup (snd (put t v cs)) (key v) = Some v' \<and> agree v v'"
    and lookup_put_other: "k \<noteq> key v \<Longrightarrow> lookup (snd (put t v cs)) k = lookup cs k"
    and put_changed: "fst (put t v cs) \<longleftrightarrow> \<not> (\<exists>v'. lookup cs (key v) = Some v' \<and> agree v v')"
    and put_unchanged: "\<not> fst (put t v cs) \<Longrightarrow> snd (put t v cs) = cs"
    and ok_put: "ok cs \<Longrightarrow> ok (snd (put t v cs))"
begin

abbreviation puts :: "('t \<times> 'v) list \<Rightarrow> 'cs \<Rightarrow> 'cs" where
  "puts ws cs \<equiv> foldl (\<lambda>cs (t, v). snd (put t v cs)) cs ws"

lemma ok_puts: "ok cs \<Longrightarrow> ok (puts ws cs)"
  by (induction ws arbitrary: cs) (auto intro: ok_put)

lemma lookup_puts_other:
  "k \<notin> key ` snd ` set ws \<Longrightarrow> lookup (puts ws cs) k = lookup cs k"
  by (induction ws arbitrary: cs) (auto simp: lookup_put_other)

lemma lookup_puts_last:
  assumes "key v \<notin> key ` snd ` set vs"
  shows "\<exists>v'. lookup (puts (us @ (t, v) # vs) cs) (key v) = Some v' \<and> agree v v'"
  using assms lookup_put_same [of t v "puts us cs"] by (simp add: lookup_puts_other)

lemma puts_idle:
  assumes "\<And>t v. (t, v) \<in> set ws \<Longrightarrow> \<exists>v'. lookup cs (key v) = Some v' \<and> agree v v'"
  shows "puts ws cs = cs"
  using assms
proof (induction ws)
  case Nil
  then show ?case by simp
next
  case (Cons w ws)
  obtain t v where w: "w = (t, v)" by (cases w)
  have "snd (put t v cs) = cs"
    using Cons.prems [of t v] by (intro put_unchanged) (auto simp: put_changed w)
  moreover have "puts ws cs = cs"
    by (rule Cons.IH) (use Cons.prems in auto)
  ultimately show ?case by (simp add: w)
qed

end

interpretation cs: condition_store GetCondition SetCondition cond_type cond_agree conditions_ok
proof
  show "\<exists>v'. GetCondition (snd (SetCondition t v cs)) (cond_type v) = Some v' \<and> cond_agree v v'"
    for t v cs
    by (simp add: GetCondition_SetCondition)
next
  show "GetCondition (snd (SetCondition t v cs)) k = GetCondition cs k" if "k \<noteq> cond_type v"
    for t v cs k
    using that by (simp add: GetCondition_SetCondition)
qed (auto simp: SetCondition_changed SetCondition_unchanged SetCondition_ok)

end
