(* ===== verification/KubeApi.thy ===== *)
theory KubeApi
  imports Conditions
begin

text \<open>
  The data the operator exchanges with Kubernetes and Helm, and the third-party code it
  calls on them. The types are the ones the source names (objects, owner references,
  releases); what the API server, client-go, controller-runtime and Helm compute is a field
  of the records \<open>kube_client\<close> and \<open>kube_lib\<close>, which the operations take as
  arguments. What their documentation promises is stated as predicates (\<open>retry_ok\<close>,
  \<open>poll_ok\<close>, \<open>lib_ok\<close>) that theorems name as hypotheses where they need them.
\<close>

section \<open>Objects\<close>

datatype json =
    JNull
  | JBool bool
  | JNum int
  | JStr string
  | JArr "json list"
  | JObj "(string \<times> json) list"

type_synonym json_map = "(string \<times> json) list"

record gvk =
  gvk_group :: string
  gvk_version :: string
  gvk_kind :: string

definition gvk_empty :: "gvk \<Rightarrow> bool" where
  "gvk_empty g \<longleftrightarrow> gvk_group g = [] \<and> gvk_version g = [] \<and> gvk_kind g = []"

record owner_ref =
  or_api_version :: string
  or_kind :: string
  or_name :: string
  or_uid :: string
  or_controller :: "bool option"
  or_block_owner_deletion :: "bool option"

text \<open>\<open>mf_rest\<close> is the rest of an entry (API version, time, field set).\<close>

record managed_field =
  mf_manager :: string
  mf_operation :: string
  mf_subresource :: string
  mf_rest :: json

text \<open>The status of a custom resource, as \<open>helmAppStatus\<close> in \<open>updater.go\<close>.\<close>

record helm_app_release =
  har_name :: string
  har_manifest :: string

record helm_app_status =
  has_conditions :: conditions
  has_deployed_release :: "helm_app_release option"

text \<open>
  What \<open>obj.Object["status"]\<close> can hold, following the type switch of \<open>statusFor\<close>.
\<close>

datatype status_value =
    StAbsent
  | StPtr helm_app_status
  | StStruct helm_app_status
  | StMap json_map
  | StOther json

text \<open>
  An \<open>unstructured.Unstructured\<close> with a non-nil \<open>Object\<close>: the fields the source
  reads through its accessors, and every other field in \<open>u_body\<close>.
\<close>

record unstructured =
  u_gvk :: gvk
  u_name :: string
  u_namespace :: string
  u_uid :: string
  u_annotations :: "string \<rightharpoonup> string"
  u_finalizers :: "string list"
  u_deletion_timestamp :: "time option"
  u_resource_version :: string
  u_owner_refs :: "owner_ref list"
  u_managed_fields :: "managed_field list option"
  u_spec :: "json option"
  u_status :: status_value
  u_body :: json_map

type_synonym namespaced_name = "string \<times> string"

section \<open>Helm releases\<close>

abbreviation StatusFailed :: string where "StatusFailed \<equiv> ''failed''"
abbreviation StatusSuperseded :: string where "StatusSuperseded \<equiv> ''superseded''"

record release_info =
  ri_status :: string
  ri_notes :: string

text \<open>\<open>rel_rest\<close> is the rest of the release (chart, config, hooks, time stamps).\<close>

record release =
  rel_name :: string
  rel_namespace :: string
  rel_version :: int
  rel_manifest :: string
  rel_info :: "release_info option"
  rel_labels :: "string \<rightharpoonup> string"
  rel_rest :: json

section \<open>The API server and the client libraries\<close>

text \<open>
  Go's client methods fill the object they are given in place and return an error: the
  model returns the error (\<open>None\<close> is nil), the object afterwards and the new world.
  Nothing is assumed of the object after an error.
\<close>

type_synonym 'w io = "unstructured \<times> 'w \<Rightarrow> go_error option \<times> unstructured \<times> 'w"

record 'w kube_client =
  kc_get :: "namespaced_name \<Rightarrow> 'w io"
  kc_update :: "'w io"
  kc_status_update :: "'w io"

record 'w kube_lib =
  lib_retry_OnError :: "(go_error \<Rightarrow> bool) \<Rightarrow> 'w io \<Rightarrow> 'w io"
  lib_poll :: "int \<Rightarrow> (unstructured \<times> 'w \<Rightarrow> (go_error + bool) \<times> unstructured \<times> 'w) \<Rightarrow> 'w io"
  lib_RemoveFinalizer :: "string \<Rightarrow> string list \<Rightarrow> string list"
  lib_ToUnstructured :: "helm_app_status \<Rightarrow> go_error + json_map"
  lib_FromUnstructured :: "json_map \<Rightarrow> helm_app_status"
  lib_clock :: "'w \<Rightarrow> nat \<Rightarrow> time"

subsection \<open>What their documentation promises\<close>

text \<open>
  \<open>retry.OnError\<close> runs the function again while it fails with a retriable error and the
  backoff allows it, and returns the outcome of the last attempt. \<open>attempts n\<close> is a run
  with at most \<open>n\<close> repetitions.
\<close>

fun attempts :: "nat \<Rightarrow> (go_error \<Rightarrow> bool) \<Rightarrow> 'w io \<Rightarrow> 'w io" where
  "attempts 0 p f s = f s"
| "attempts (Suc n) p f s =
     (case f s of
        (None, s') \<Rightarrow> (None, s')
      | (Some e, s') \<Rightarrow> if p e then attempts n p f s' else (Some e, s'))"

definition retry_ok :: "((go_error \<Rightarrow> bool) \<Rightarrow> 'w io \<Rightarrow> 'w io) \<Rightarrow> bool" where
  "retry_ok R \<longleftrightarrow> (\<forall>p f s. \<exists>n. R p f s = attempts n p f s)"

text \<open>
  \<open>wait.PollUntilContextCancel\<close> returns nil only when the condition has reported that it
  is done: its state is then the one that evaluation of the condition left.
\<close>

definition poll_ok ::
  "(int \<Rightarrow> (unstructured \<times> 'w \<Rightarrow> (go_error + bool) \<times> unstructured \<times> 'w) \<Rightarrow> 'w io) \<Rightarrow> bool" where
  "poll_ok P \<longleftrightarrow> (\<forall>t c s s'. P t c s = (None, s') \<longrightarrow> (\<exists>s0. c s0 = (Inr True, s')))"

text \<open>
  \<open>controllerutil.RemoveFinalizer\<close> removes the given finalizer and keeps the others;
  the unstructured converter restores a status it has converted.
\<close>

definition lib_ok :: "'w kube_lib \<Rightarrow> bool" where
  "lib_ok L \<longleftrightarrow> retry_ok (lib_retry_OnError L) \<and> poll_ok (lib_poll L)
     \<and> (\<forall>f fs. set (lib_RemoveFinalizer L f fs) = set fs - {f})
     \<and> (\<forall>st m. lib_ToUnstructured L st = Inr m \<longrightarrow> lib_FromUnstructured L m = st)"

lemma lib_okD:
  assumes "lib_ok L"
  shows "retry_ok (lib_retry_OnError L)" and "poll_ok (lib_poll L)"
    and "set (lib_RemoveFinalizer L f fs) = set fs - {f}"
    and "lib_ToUnstructured L st = Inr m \<Longrightarrow> lib_FromUnstructured L m = st"
  using assms by (auto simp: lib_ok_def)

lemma attempts_final:
  "attempts n p f s = (Some e, s') \<Longrightarrow> \<not> p e \<or> (\<exists>s0. f s0 = (Some e, s'))"
  by (induction n arbitrary: s) (auto split: prod.splits option.splits if_splits)

lemma attempts_outcome:
  assumes "attempts n p f s = (r, s')"
  shows "\<exists>s0. f s0 = (r, s')"
  using assms
  by (induction n arbitrary: s) (auto split: prod.splits option.splits if_splits)

lemma attempts_not_retried:
  assumes "f s = (Some e, s')" and "\<not> p e"
  shows "attempts n p f s = (Some e, s')"
  using assms by (cases n) auto

lemma attempts_success:
  assumes "f s = (None, s')"
  shows "attempts n p f s = (None, s')"
  using assms by (cases n) auto

lemma retry_not_retried:
  assumes "retry_ok R" and "f s = (Some e, s')" and "\<not> p e"
  shows "R p f s = (Some e, s')"
  using assms attempts_not_retried [of f s e s' p] by (metis retry_ok_def)

lemma retry_success:
  assumes "retry_ok R" and "f s = (None, s')"
  shows "R p f s = (None, s')"
  using assms attempts_success [of f s s'] by (metis retry_ok_def)

lemma retry_outcome:
  assumes "retry_ok R" and "R p f s = (r, s')"
  shows "\<exists>s0. f s0 = (r, s')"
  using assms attempts_outcome [of _ p f s r s'] by (metis retry_ok_def)

end
