(* ===== verification/Controllerutil.thy ===== *)
theory Controllerutil
  imports KubeApi GoLib
begin

text \<open>
  \<open>internal/sdk/controllerutil/controllerutil.go\<close>: finalizers, waiting for an object
  to disappear, and whether a dependent object may carry an owner reference; and
  \<open>pkg/manifestutil/resourcepolicykeep.go\<close>.
\<close>

section \<open>Finalizers\<close>

fun ContainsFinalizer_loop :: "string list \<Rightarrow> string \<Rightarrow> bool" where
  "ContainsFinalizer_loop [] finalizer = False"
| "ContainsFinalizer_loop (f # fs) finalizer =
     (if f = finalizer then True else ContainsFinalizer_loop fs finalizer)"

definition ContainsFinalizer :: "unstructured \<Rightarrow> string \<Rightarrow> bool" where
  "ContainsFinalizer obj finalizer = ContainsFinalizer_loop (u_finalizers obj) finalizer"

lemma ContainsFinalizer_iff [simp]:
  "ContainsFinalizer obj f \<longleftrightarrow> f \<in> set (u_finalizers obj)"
proof -
  have "ContainsFinalizer_loop fs f \<longleftrightarrow> f \<in> set fs" for fs
    by (induction fs) auto
  then show ?thesis by (simp add: ContainsFinalizer_def)
qed

section \<open>Waiting for deletion\<close>

text \<open>The condition that \<open>WaitForDeletion\<close> polls: done when the object is not found.\<close>

definition deletion_condition ::
  "'w kube_client \<Rightarrow> namespaced_name \<Rightarrow> unstructured \<times> 'w \<Rightarrow> (go_error + bool) \<times> unstructured \<times> 'w" where
  "deletion_condition C key s =
     (case kc_get C key s of
        (Some e, s') \<Rightarrow> if IsNotFound e then (Inr True, s') else (Inl e, s')
      | (None, s') \<Rightarrow> (Inr False, s'))"

definition WaitForDeletion :: "'w kube_client \<Rightarrow> 'w kube_lib \<Rightarrow> int \<Rightarrow> 'w io" where
  "WaitForDeletion C L timeout s =
     lib_poll L timeout (deletion_condition C (u_namespace (fst s), u_name (fst s))) s"

lemma WaitForDeletion_nil:
  assumes "lib_ok L" and "WaitForDeletion C L t s = (None, s')"
  shows "\<exists>e s0. kc_get C (u_namespace (fst s), u_name (fst s)) s0 = (Some e, s') \<and> IsNotFound e"
proof -
  let ?c = "deletion_condition C (u_namespace (fst s), u_name (fst s))"
  have "lib_poll L t ?c s = (None, s')"
    using assms(2) by (simp add: WaitForDeletion_def)
  then obtain s0 where fin: "?c s0 = (Inr True, s')"
    using lib_okD(2) [OF assms(1)] unfolding poll_ok_def by blast
  obtain r s1 where get: "kc_get C (u_namespace (fst s), u_name (fst s)) s0 = (r, s1)"
    by (metis surj_pair)
  with fin have "\<exists>e. r = Some e \<and> IsNotFound e \<and> s1 = s'"
    by (cases r) (auto simp: deletion_condition_def split: if_splits)
  with get show ?thesis by blast
qed

section \<open>Owner references\<close>

text \<open>
  The scope a REST mapping reports; \<open>mapping\<close> is the RESTMapper (third-party),
  asked for a kind.
\<close>

datatype rest_scope = RootScope | NamespaceScope

definition SupportsOwnerReference ::
  "(gvk \<Rightarrow> go_error + rest_scope) \<Rightarrow> unstructured \<Rightarrow> unstructured \<Rightarrow> go_error + bool" where
  "SupportsOwnerReference mapping owner dependent =
     (case mapping (u_gvk owner) of
        Inl e \<Rightarrow> Inl e
      | Inr ownerScope \<Rightarrow>
          (case mapping (u_gvk dependent) of
             Inl e \<Rightarrow> Inl e
           | Inr depScope \<Rightarrow>
               let ownerClusterScoped = (ownerScope = RootScope);
                   depClusterScoped = (depScope = RootScope)
               in if ownerClusterScoped then Inr True
                  else if depClusterScoped then Inr False
                  else if u_namespace owner \<noteq> u_namespace dependent then Inr False
                  else Inr True))"

text \<open>
  The rule of the Kubernetes garbage collector that it implements: an owner reference is
  possible when the owner is cluster scoped, or both are namespaced and share a namespace.
\<close>

lemma SupportsOwnerReference_iff:
  assumes "mapping (u_gvk owner) = Inr so" and "mapping (u_gvk dep) = Inr sd"
  shows "SupportsOwnerReference mapping owner dep =
     Inr (so = RootScope \<or> (sd = NamespaceScope \<and> u_namespace owner = u_namespace dep))"
  using assms by (cases so; cases sd) (auto simp: SupportsOwnerReference_def)

lemma SupportsOwnerReference_error:
  "SupportsOwnerReference mapping owner dep = Inl e \<Longrightarrow>
     mapping (u_gvk owner) = Inl e
     \<or> (\<exists>s. mapping (u_gvk owner) = Inr s) \<and> mapping (u_gvk dep) = Inl e"
  by (auto simp: SupportsOwnerReference_def Let_def split: sum.splits if_splits)

section \<open>The keep policy of a resource\<close>

text \<open>
  \<open>HasResourcePolicyKeep\<close>: the annotations may be a nil map. The annotation name and the
  policy are Helm's constants.
\<close>

abbreviation ResourcePolicyAnno :: string where "ResourcePolicyAnno \<equiv> ''helm.sh/resource-policy''"
abbreviation KeepPolicy :: string where "KeepPolicy \<equiv> ''keep''"

definition HasResourcePolicyKeep :: "(string \<rightharpoonup> string) option \<Rightarrow> bool" where
  "HasResourcePolicyKeep annotations =
     (case annotations of
        None \<Rightarrow> False
      | Some m \<Rightarrow>
          (case m ResourcePolicyAnno of
             None \<Rightarrow> False
           | Some resourcePolicyType \<Rightarrow> ToLower (TrimSpace resourcePolicyType) = KeepPolicy))"

end
