(* ===== verification/Updater.thy ===== *)
theory Updater
  imports Controllerutil
begin

text \<open>
  \<open>pkg/reconciler/internal/updater/updater.go\<close>: the reconciler collects changes to a
  custom resource as functions and applies them at the end, the status first and the
  object afterwards. A collected function reports whether it changed anything; only then is
  the API server called.
\<close>

section \<open>The updater and the functions it collects\<close>

text \<open>
  An \<open>UpdateStatusFunc\<close> gets the reading of the clock that \<open>SetCondition\<close> takes.
\<close>

type_synonym UpdateFunc = "unstructured \<Rightarrow> bool \<times> unstructured"
type_synonym UpdateStatusFunc = "time \<Rightarrow> helm_app_status \<Rightarrow> bool \<times> helm_app_status"

record updater =
  isCanceled :: bool
  updateFuncs :: "UpdateFunc list"
  updateStatusFuncs :: "UpdateStatusFunc list"

definition New_updater :: updater where
  "New_updater = \<lparr>isCanceled = False, updateFuncs = [], updateStatusFuncs = []\<rparr>"

definition Update :: "UpdateFunc list \<Rightarrow> updater \<Rightarrow> updater" where
  "Update fs u = u\<lparr>updateFuncs := updateFuncs u @ fs\<rparr>"

definition UpdateStatus :: "UpdateStatusFunc list \<Rightarrow> updater \<Rightarrow> updater" where
  "UpdateStatus fs u = u\<lparr>updateStatusFuncs := updateStatusFuncs u @ fs\<rparr>"

definition CancelUpdates :: "updater \<Rightarrow> updater" where
  "CancelUpdates u = u\<lparr>isCanceled := True\<rparr>"

lemma updater_fields [simp]:
  "isCanceled New_updater = False" "updateFuncs New_updater = []"
  "updateStatusFuncs New_updater = []"
  "isCanceled (Update fs u) = isCanceled u" "updateFuncs (Update fs u) = updateFuncs u @ fs"
  "updateStatusFuncs (Update fs u) = updateStatusFuncs u"
  "isCanceled (UpdateStatus gs u) = isCanceled u"
  "updateFuncs (UpdateStatus gs u) = updateFuncs u"
  "updateStatusFuncs (UpdateStatus gs u) = updateStatusFuncs u @ gs"
  "isCanceled (CancelUpdates u) = True" "updateFuncs (CancelUpdates u) = updateFuncs u"
  "updateStatusFuncs (CancelUpdates u) = updateStatusFuncs u"
  by (simp_all add: New_updater_def Update_def UpdateStatus_def CancelUpdates_def)

definition RemoveFinalizer :: "'w kube_lib \<Rightarrow> string \<Rightarrow> UpdateFunc" where
  "RemoveFinalizer L finalizer obj =
     (if \<not> ContainsFinalizer obj finalizer then (False, obj)
      else (True, obj\<lparr>u_finalizers := lib_RemoveFinalizer L finalizer (u_finalizers obj)\<rparr>))"

definition EnsureCondition :: "condition \<Rightarrow> UpdateStatusFunc" where
  "EnsureCondition c now st =
     (let (b, cs) = SetCondition now c (has_conditions st) in (b, st\<lparr>has_conditions := cs\<rparr>))"

definition EnsureConditionUnknown :: "string \<Rightarrow> UpdateStatusFunc" where
  "EnsureConditionUnknown t now st =
     (let (b, cs) = SetCondition now
        \<lparr>cond_type = t, cond_status = ConditionUnknown, cond_reason = [], cond_message = [],
         cond_last_transition = 0\<rparr> (has_conditions st)
      in (b, st\<lparr>has_conditions := cs\<rparr>))"

definition helmAppReleaseFor :: "release option \<Rightarrow> helm_app_release option" where
  "helmAppReleaseFor rel =
     (case rel of None \<Rightarrow> None
      | Some r \<Rightarrow> Some \<lparr>har_name = rel_name r, har_manifest = rel_manifest r\<rparr>)"

definition EnsureDeployedRelease :: "release option \<Rightarrow> UpdateStatusFunc" where
  "EnsureDeployedRelease rel now st =
     (let newRel = helmAppReleaseFor rel
      in if has_deployed_release st = None \<and> newRel = None then (False, st)
         else if has_deployed_release st \<noteq> None \<and> newRel \<noteq> None
                 \<and> has_deployed_release st = newRel then (False, st)
         else (True, st\<lparr>has_deployed_release := newRel\<rparr>))"

definition RemoveDeployedRelease :: UpdateStatusFunc where
  "RemoveDeployedRelease = EnsureDeployedRelease None"

section \<open>Applying\<close>

definition empty_status :: helm_app_status where
  "empty_status = \<lparr>has_conditions = [], has_deployed_release = None\<rparr>"

definition statusFor :: "'w kube_lib \<Rightarrow> unstructured \<Rightarrow> helm_app_status" where
  "statusFor L obj =
     (case u_status obj of
        StAbsent \<Rightarrow> empty_status
      | StPtr s \<Rightarrow> s
      | StStruct s \<Rightarrow> s
      | StMap m \<Rightarrow> lib_FromUnstructured L m
      | StOther _ \<Rightarrow> empty_status)"

text \<open>
  The two loops of \<open>Apply\<close>. Every function runs, and the flags are joined; the
  \<open>k\<close>-th function reads the clock at \<open>clk k\<close>.
\<close>

fun run_status_funcs ::
  "(nat \<Rightarrow> time) \<Rightarrow> UpdateStatusFunc list \<Rightarrow> bool \<Rightarrow> helm_app_status \<Rightarrow> bool \<times> helm_app_status" where
  "run_status_funcs clk [] b st = (b, st)"
| "run_status_funcs clk (f # fs) b st =
     (let (c, st') = f (clk 0) st in run_status_funcs (\<lambda>k. clk (Suc k)) fs (c \<or> b) st')"

fun run_update_funcs :: "UpdateFunc list \<Rightarrow> bool \<Rightarrow> unstructured \<Rightarrow> bool \<times> unstructured" where
  "run_update_funcs [] b obj = (b, obj)"
| "run_update_funcs (f # fs) b obj =
     (let (c, obj') = f obj in run_update_funcs fs (c \<or> b) obj')"

definition isRetryableUpdateError :: "go_error \<Rightarrow> bool" where
  "isRetryableUpdateError e \<longleftrightarrow> \<not> IsConflict e \<and> \<not> IsNotFound e"

definition retryOnRetryableUpdateError :: "'w kube_lib \<Rightarrow> 'w io \<Rightarrow> 'w io" where
  "retryOnRetryableUpdateError L f = lib_retry_OnError L isRetryableUpdateError f"

text \<open>One call of the API server on the object, through the retry, as one logged call.\<close>

definition retried ::
  "event \<Rightarrow> 'w kube_lib \<Rightarrow> 'w io \<Rightarrow> unstructured \<Rightarrow> 'w sys \<Rightarrow> (go_error option \<times> unstructured) \<times> 'w sys" where
  "retried ev L f obj s =
     call ev (\<lambda>w. let (err, obj', w') = retryOnRetryableUpdateError L f (obj, w)
                  in ((err, obj'), w')) s"

definition apply_status ::
  "'w kube_client \<Rightarrow> 'w kube_lib \<Rightarrow> helm_app_status \<Rightarrow> unstructured \<Rightarrow> 'w sys
     \<Rightarrow> (go_error option \<times> unstructured) \<times> 'w sys" where
  "apply_status C L st obj s =
     (case lib_ToUnstructured L st of
        Inl e \<Rightarrow> ((Some e, obj), s)
      | Inr uSt \<Rightarrow> retried EvStatusUpdate L (kc_status_update C) (obj\<lparr>u_status := StMap uSt\<rparr>) s)"

definition apply_object ::
  "'w kube_client \<Rightarrow> 'w kube_lib \<Rightarrow> UpdateFunc list \<Rightarrow> unstructured \<Rightarrow> 'w sys
     \<Rightarrow> (go_error option \<times> unstructured) \<times> 'w sys" where
  "apply_object C L fs obj s =
     (let (needsUpdate, obj') = run_update_funcs fs False obj
      in if needsUpdate then retried EvUpdateCR L (kc_update C) obj' s else ((None, obj'), s))"

definition Apply ::
  "'w kube_client \<Rightarrow> 'w kube_lib \<Rightarrow> updater \<Rightarrow> unstructured \<Rightarrow> 'w sys
     \<Rightarrow> (go_error option \<times> unstructured) \<times> 'w sys" where
  "Apply C L u obj s =
     (if isCanceled u then ((None, obj), s)
      else
        let (needsStatusUpdate, st) =
              run_status_funcs (lib_clock L (world s)) (updateStatusFuncs u) False (statusFor L obj);
            ((err, obj1), s1) =
              (if needsStatusUpdate then apply_status C L st obj s else ((None, obj), s))
        in case err of
             Some e \<Rightarrow> ((Some e, obj1), s1)
           | None \<Rightarrow> apply_object C L (updateFuncs u) obj1 s1)"

section \<open>Lemmas: the two loops\<close>

lemma run_status_funcs_flag:
  "run_status_funcs clk fs b st =
     (fst (run_status_funcs clk fs False st) \<or> b, snd (run_status_funcs clk fs False st))"
proof (induction fs arbitrary: clk b st)
  case Nil
  then show ?case by simp
next
  case (Cons f fs)
  obtain c st' where f: "f (clk 0) st = (c, st')" by fastforce
  show ?case
    using Cons.IH [of "\<lambda>k. clk (Suc k)" "c \<or> b" st'] Cons.IH [of "\<lambda>k. clk (Suc k)" c st']
    by (auto simp: f)
qed

lemma run_status_funcs_append:
  "run_status_funcs clk (fs @ gs) b st =
     (let (c, st') = run_status_funcs clk fs b st
      in run_status_funcs (\<lambda>k. clk (k + length fs)) gs c st')"
  by (induction fs arbitrary: clk b st) (auto split: prod.splits)

text \<open>
  Every function the reconciler collects writes a condition or the deployed release;
  \<open>status_write\<close> names them, so that the outcome of a collected list can be read off
  its last writes.
\<close>

datatype status_write = WCond condition | WRel "release option"

fun write_func :: "status_write \<Rightarrow> UpdateStatusFunc" where
  "write_func (WCond c) = EnsureCondition c"
| "write_func (WRel r) = EnsureDeployedRelease r"

definition unknown_condition :: "string \<Rightarrow> condition" where
  "unknown_condition t =
     \<lparr>cond_type = t, cond_status = ConditionUnknown, cond_reason = [], cond_message = [],
      cond_last_transition = 0\<rparr>"

lemma EnsureConditionUnknown_write: "EnsureConditionUnknown t = write_func (WCond (unknown_condition t))"
  by (simp add: fun_eq_iff EnsureConditionUnknown_def EnsureCondition_def unknown_condition_def)

lemma RemoveDeployedRelease_write: "RemoveDeployedRelease = write_func (WRel None)"
  by (simp add: RemoveDeployedRelease_def)

fun last_cond :: "string \<Rightarrow> status_write list \<Rightarrow> condition option" where
  "last_cond t [] = None"
| "last_cond t (w # ws) =
     (case last_cond t ws of
        Some c \<Rightarrow> Some c
      | None \<Rightarrow> (case w of WCond c \<Rightarrow> if cond_type c = t then Some c else None | WRel _ \<Rightarrow> None))"

fun last_rel :: "status_write list \<Rightarrow> release option option" where
  "last_rel [] = None"
| "last_rel (w # ws) =
     (case last_rel ws of
        Some r \<Rightarrow> Some r
      | None \<Rightarrow> (case w of WRel r \<Rightarrow> Some r | WCond _ \<Rightarrow> None))"

lemma last_cond_type: "last_cond t ws = Some c \<Longrightarrow> cond_type c = t"
  by (induction ws) (auto split: option.splits status_write.splits if_splits)

lemma last_cond_append:
  "last_cond t (us @ ws) = (case last_cond t ws of Some c \<Rightarrow> Some c | None \<Rightarrow> last_cond t us)"
  by (induction us) (auto split: option.splits status_write.splits)

lemma last_rel_append:
  "last_rel (us @ ws) = (case last_rel ws of Some r \<Rightarrow> Some r | None \<Rightarrow> last_rel us)"
  by (induction us) (auto split: option.splits status_write.splits)

lemma snd_EnsureCondition [simp]:
  "snd (EnsureCondition c now st) =
     st\<lparr>has_conditions := snd (SetCondition now c (has_conditions st))\<rparr>"
  "fst (EnsureCondition c now st) = fst (SetCondition now c (has_conditions st))"
  by (simp_all add: EnsureCondition_def split: prod.splits)

lemma EnsureDeployedRelease_release:
  "has_deployed_release (snd (EnsureDeployedRelease r now st)) = helmAppReleaseFor r"
  "has_conditions (snd (EnsureDeployedRelease r now st)) = has_conditions st"
  "fst (EnsureDeployedRelease r now st) \<longleftrightarrow> has_deployed_release st \<noteq> helmAppReleaseFor r"
  by (auto simp: EnsureDeployedRelease_def Let_def)

lemma EnsureDeployedRelease_unchanged:
  "has_deployed_release st = helmAppReleaseFor r \<Longrightarrow> EnsureDeployedRelease r now st = (False, st)"
  by (auto simp: EnsureDeployedRelease_def Let_def)

text \<open>
  After a run, the condition of a type is the last one written with that type, up to its
  transition time, and the one from before when none was written; likewise the release.
\<close>

lemma run_writes_condition:
  "case last_cond t ws of
     None \<Rightarrow> GetCondition (has_conditions (snd (run_status_funcs clk (map write_func ws) b st))) t
               = GetCondition (has_conditions st) t
   | Some c \<Rightarrow> \<exists>d. GetCondition
         (has_conditions (snd (run_status_funcs clk (map write_func ws) b st))) t = Some d
         \<and> cond_agree c d"
proof (induction ws arbitrary: clk b st)
  case Nil
  then show ?case by simp
next
  case (Cons w ws)
  obtain c st' where w: "write_func w (clk 0) st = (c, st')" by fastforce
  then have st': "st' = snd (write_func w (clk 0) st)" by simp
  note IH = Cons.IH [of "\<lambda>k. clk (Suc k)" "c \<or> b" st']
  show ?case
  proof (cases "last_cond t ws")
    case (Some d)
    with IH show ?thesis by (simp add: w)
  next
    case None
    show ?thesis
    proof (cases w)
      case (WCond d)
      have "GetCondition (has_conditions st') t = (if t = cond_type d
         then Some (d\<lparr>cond_last_transition :=
            transition_time (clk 0) d (GetCondition (has_conditions st) t)\<rparr>)
         else GetCondition (has_conditions st) t)"
        by (simp add: st' WCond GetCondition_SetCondition)
      with IH None WCond w show ?thesis by (auto simp: cond_agree_sym)
    next
      case (WRel r)
      then have "has_conditions st' = has_conditions st"
        by (simp add: st' EnsureDeployedRelease_release)
      with IH None WRel w show ?thesis by simp
    qed
  qed
qed

lemma run_writes_condition_Some:
  assumes "last_cond t ws = Some c"
  shows "\<exists>d. GetCondition (has_conditions (snd (run_status_funcs clk (map write_func ws) b st))) t
               = Some d \<and> cond_agree c d"
  using run_writes_condition [where t = t and ws = ws] assms by simp

lemma run_writes_release:
  "has_deployed_release (snd (run_status_funcs clk (map write_func ws) b st)) =
     (case last_rel ws of None \<Rightarrow> has_deployed_release st | Some r \<Rightarrow> helmAppReleaseFor r)"
proof (induction ws arbitrary: clk b st)
  case Nil
  then show ?case by simp
next
  case (Cons w ws)
  obtain c st' where w: "write_func w (clk 0) st = (c, st')" by fastforce
  then have "st' = snd (write_func w (clk 0) st)" by simp
  then have "has_deployed_release st' =
      (case w of WCond _ \<Rightarrow> has_deployed_release st | WRel r \<Rightarrow> helmAppReleaseFor r)"
    by (cases w) (simp_all add: EnsureDeployedRelease_release)
  with Cons.IH show ?case
    by (auto simp: w split: option.splits status_write.splits)
qed

lemma run_writes_ok:
  assumes "conditions_ok (has_conditions st)"
  shows "conditions_ok (has_conditions (snd (run_status_funcs clk (map write_func ws) b st)))"
  using assms
proof (induction ws arbitrary: clk b st)
  case Nil
  then show ?case by simp
next
  case (Cons w ws)
  obtain c st' where w: "write_func w (clk 0) st = (c, st')" by fastforce
  then have st': "st' = snd (write_func w (clk 0) st)" by simp
  have "conditions_ok (has_conditions st')"
    using Cons.prems by (cases w) (simp_all add: st' cs.ok_put EnsureDeployedRelease_release)
  with Cons.IH show ?case by (simp add: w)
qed

text \<open>A status that already agrees with every write is left alone, and no update is needed.\<close>

fun agrees :: "helm_app_status \<Rightarrow> status_write \<Rightarrow> bool" where
  "agrees st (WCond c) \<longleftrightarrow>
     (\<exists>d. GetCondition (has_conditions st) (cond_type c) = Some d \<and> cond_agree c d)"
| "agrees st (WRel r) \<longleftrightarrow> has_deployed_release st = helmAppReleaseFor r"

lemma agrees_write:
  assumes "agrees st w"
  shows "write_func w now st = (False, st)"
proof (cases w)
  case (WCond c)
  with assms have "\<not> fst (SetCondition now c (has_conditions st))"
    by (simp add: cs.put_changed)
  then have "SetCondition now c (has_conditions st) = (False, has_conditions st)"
    using cs.put_unchanged by (metis prod.collapse)
  then show ?thesis by (simp add: WCond EnsureCondition_def)
next
  case (WRel r)
  with assms show ?thesis by (simp add: EnsureDeployedRelease_unchanged)
qed

lemma run_writes_agree:
  assumes "\<And>w. w \<in> set ws \<Longrightarrow> agrees st w"
  shows "run_status_funcs clk (map write_func ws) b st = (b, st)"
  using assms by (induction ws arbitrary: clk b) (auto simp: agrees_write)

text \<open>
  A run needs no update exactly when the status agrees with every write: a run that writes
  two different things to one condition always needs one.
\<close>

lemma run_writes_unneeded:
  "\<not> fst (run_status_funcs clk (map write_func ws) b st) \<longleftrightarrow> \<not> b \<and> (\<forall>w \<in> set ws. agrees st w)"
proof (induction ws arbitrary: clk b)
  case Nil
  then show ?case by simp
next
  case (Cons w ws)
  obtain c st' where w: "write_func w (clk 0) st = (c, st')" by fastforce
  have c: "\<not> c \<longleftrightarrow> agrees st w"
  proof (cases w)
    case (WCond d)
    have "c = fst (write_func w (clk 0) st)" using w by simp
    then show ?thesis by (simp add: WCond cs.put_changed)
  next
    case (WRel r)
    have "c = fst (write_func w (clk 0) st)" using w by simp
    then show ?thesis by (auto simp: WRel EnsureDeployedRelease_release)
  qed
  show ?case
  proof (cases c)
    case True
    have "fst (run_status_funcs (\<lambda>k. clk (Suc k)) (map write_func ws) True st')"
      by (subst run_status_funcs_flag) simp
    with True c show ?thesis by (simp add: w)
  next
    case False
    with c have a: "agrees st w" by simp
    from agrees_write [OF this] w have "st' = st" by simp
    with False a Cons.IH show ?thesis by (simp add: w)
  qed
qed

section \<open>Lemmas: applying\<close>

lemma run_update_funcs_nil: "run_update_funcs [] b obj = (b, obj)"
  by simp

lemma retried_calls: "retried ev L f obj s = (r, s') \<Longrightarrow> calls s' = calls s @ [ev]"
  by (auto simp: retried_def dest: call_eqD(2))

lemma retried_result:
  "retried ev L f obj s = ((err, obj'), s') \<Longrightarrow>
     retryOnRetryableUpdateError L f (obj, world s) = (err, obj', world s')"
  by (auto simp: retried_def dest!: call_eqD(1) split: prod.splits)

lemma apply_status_cases:
  assumes "apply_status C L st obj s = ((err, obj'), s')"
  obtains (convert) e where "lib_ToUnstructured L st = Inl e" "err = Some e" "obj' = obj" "s' = s"
  | (call) m where "lib_ToUnstructured L st = Inr m"
      "retryOnRetryableUpdateError L (kc_status_update C) (obj\<lparr>u_status := StMap m\<rparr>, world s)
         = (err, obj', world s')"
      "calls s' = calls s @ [EvStatusUpdate]"
proof (cases "lib_ToUnstructured L st")
  case (Inl e)
  with assms convert show ?thesis by (auto simp: apply_status_def)
next
  case (Inr m)
  with assms have r: "retried EvStatusUpdate L (kc_status_update C) (obj\<lparr>u_status := StMap m\<rparr>) s
      = ((err, obj'), s')"
    by (simp add: apply_status_def)
  show ?thesis
    by (rule call [OF Inr retried_result [OF r] retried_calls [OF r]])
qed

lemma apply_object_cases:
  assumes "apply_object C L fs obj s = ((err, obj'), s')"
  obtains (idle) "\<not> fst (run_update_funcs fs False obj)" "err = None" "s' = s"
      "obj' = snd (run_update_funcs fs False obj)"
  | (call) "fst (run_update_funcs fs False obj)"
      "retryOnRetryableUpdateError L (kc_update C) (snd (run_update_funcs fs False obj), world s)
         = (err, obj', world s')"
      "calls s' = calls s @ [EvUpdateCR]"
proof (cases "fst (run_update_funcs fs False obj)")
  case False
  with assms idle show ?thesis by (auto simp: apply_object_def split: prod.splits)
next
  case True
  with assms have r: "retried EvUpdateCR L (kc_update C) (snd (run_update_funcs fs False obj)) s
      = ((err, obj'), s')"
    by (auto simp: apply_object_def split: prod.splits)
  show ?thesis
    by (rule call [OF True retried_result [OF r] retried_calls [OF r]])
qed

lemma Apply_canceled: "isCanceled u \<Longrightarrow> Apply C L u obj s = ((None, obj), s)"
  by (simp add: Apply_def)

text \<open>The status that \<open>Apply\<close> computes, and whether it has to be written.\<close>

definition applied_status :: "'w kube_lib \<Rightarrow> updater \<Rightarrow> unstructured \<Rightarrow> 'w sys \<Rightarrow> bool \<times> helm_app_status" where
  "applied_status L u obj s =
     run_status_funcs (lib_clock L (world s)) (updateStatusFuncs u) False (statusFor L obj)"

lemma Apply_unfold:
  assumes "\<not> isCanceled u"
  shows "Apply C L u obj s =
     (if fst (applied_status L u obj s)
      then case apply_status C L (snd (applied_status L u obj s)) obj s of
             ((Some e, obj1), s1) \<Rightarrow> ((Some e, obj1), s1)
           | ((None, obj1), s1) \<Rightarrow> apply_object C L (updateFuncs u) obj1 s1
      else apply_object C L (updateFuncs u) obj s)"
  using assms
  by (auto simp: Apply_def applied_status_def split: prod.splits option.splits)

lemma Apply_no_status_change:
  assumes "\<not> isCanceled u" and "\<not> fst (applied_status L u obj s)"
  shows "Apply C L u obj s = apply_object C L (updateFuncs u) obj s"
  using assms by (simp add: Apply_unfold)

lemma Apply_status_error:
  assumes "\<not> isCanceled u" and "fst (applied_status L u obj s)"
    and "apply_status C L (snd (applied_status L u obj s)) obj s = ((Some e, obj1), s1)"
  shows "Apply C L u obj s = ((Some e, obj1), s1)"
  using assms by (simp add: Apply_unfold)

lemma Apply_status_written:
  assumes "\<not> isCanceled u" and "fst (applied_status L u obj s)"
    and "apply_status C L (snd (applied_status L u obj s)) obj s = ((None, obj1), s1)"
  shows "Apply C L u obj s = apply_object C L (updateFuncs u) obj1 s1"
  using assms by (simp add: Apply_unfold)

text \<open>The calls one \<open>Apply\<close> can make, in order.\<close>

lemma apply_object_calls:
  assumes "apply_object C L fs obj s = (r, s')"
  shows "calls s' = calls s @ (if fst (run_update_funcs fs False obj) then [EvUpdateCR] else [])"
proof -
  obtain err obj' where r: "r = (err, obj')" by (cases r)
  show ?thesis
    using assms unfolding r by (cases rule: apply_object_cases) auto
qed

lemma apply_status_calls:
  assumes "apply_status C L st obj s = (r, s')"
  shows "calls s' = calls s \<or> calls s' = calls s @ [EvStatusUpdate]"
proof -
  obtain err obj' where r: "r = (err, obj')" by (cases r)
  show ?thesis
    using assms unfolding r by (cases rule: apply_status_cases) auto
qed

lemma Apply_calls:
  assumes "Apply C L u obj s = (r, s')"
  shows "\<exists>es \<in> {[], [EvStatusUpdate], [EvUpdateCR], [EvStatusUpdate, EvUpdateCR]}.
     calls s' = calls s @ es"
proof (cases "isCanceled u")
  case True
  with assms show ?thesis by (auto simp: Apply_canceled)
next
  case nc: False
  show ?thesis
  proof (cases "fst (applied_status L u obj s)")
    case False
    with assms nc show ?thesis
      by (auto simp: Apply_no_status_change dest!: apply_object_calls split: if_splits)
  next
    case True
    obtain err obj1 s1 where
      st: "apply_status C L (snd (applied_status L u obj s)) obj s = ((err, obj1), s1)"
      by (metis surj_pair)
    note c1 = apply_status_calls [OF st]
    show ?thesis
    proof (cases err)
      case (Some e)
      with Apply_status_error [OF nc True] st assms c1 show ?thesis by auto
    next
      case None
      with Apply_status_written [OF nc True] st assms
      have "apply_object C L (updateFuncs u) obj1 s1 = (r, s')" by simp
      from apply_object_calls [OF this] c1 show ?thesis by (auto split: if_splits)
    qed
  qed
qed

lemma Apply_adds: "Apply C L u obj s = (r, s') \<Longrightarrow> adds {EvStatusUpdate, EvUpdateCR} s s'"
  by (auto simp: adds_def dest!: Apply_calls)

text \<open>With no collected object change, \<open>Apply\<close> never writes the object itself.\<close>

lemma Apply_adds_status:
  assumes "updateFuncs u = []" and "Apply C L u obj s = (r, s')"
  shows "adds {EvStatusUpdate} s s'"
proof (cases "isCanceled u")
  case True
  with assms show ?thesis by (auto simp: Apply_canceled)
next
  case nc: False
  have obj_idle: "apply_object C L [] obj0 s0 = ((None, obj0), s0)" for obj0 s0
    by (simp add: apply_object_def)
  obtain err obj1 s1 where
    st: "apply_status C L (snd (applied_status L u obj s)) obj s = ((err, obj1), s1)"
    by (metis surj_pair)
  then show ?thesis
    using assms nc apply_status_calls [OF st]
    by (cases "fst (applied_status L u obj s)"; cases err)
       (auto simp: Apply_unfold obj_idle adds_def)
qed

end
