(* ===== verification/Helm.thy ===== *)
theory Helm
  imports KubeApi GoLib
begin

text \<open>
  The Helm types that \<open>pkg/client\<close> configures (the action structs, post-renderers)
  and the interfaces between the reconciler and Helm: \<open>ActionInterface\<close> of
  \<open>pkg/client/actionclient.go\<close> and the option functions. What Helm itself does is the
  record \<open>helm\<close> of functions on the world.
\<close>

section \<open>Post-renderers\<close>

text \<open>
  A post-renderer maps the rendered manifest to another one and may use the cluster. The
  code distinguishes one implementation by its dynamic type, the chain.
\<close>

datatype 'w post_renderer =
    PRFun "string \<Rightarrow> 'w \<Rightarrow> (go_error + string) \<times> 'w"
  | ChainedPostRenderer "'w post_renderer list"

section \<open>Action structs\<close>

text \<open>The fields that the repository reads or writes.\<close>

record get_action =
  ga_version :: int

record history_action =
  hia_max :: int

record 'w install_action =
  ia_release_name :: string
  ia_namespace :: string
  ia_disable_hooks :: bool
  ia_description :: string
  ia_post_renderer :: "'w post_renderer option"

record 'w upgrade_action =
  ua_namespace :: string
  ua_disable_hooks :: bool
  ua_force :: bool
  ua_description :: string
  ua_max_history :: int
  ua_dry_run :: bool
  ua_dry_run_option :: string
  ua_post_renderer :: "'w post_renderer option"

record uninstall_action =
  una_disable_hooks :: bool
  una_description :: string

record rollback_action =
  ra_force :: bool
  ra_max_history :: int

type_synonym get_option = "get_action \<Rightarrow> go_error + get_action"
type_synonym history_option = "history_action \<Rightarrow> go_error + history_action"
type_synonym 'w install_option = "'w install_action \<Rightarrow> go_error + 'w install_action"
type_synonym 'w upgrade_option = "'w upgrade_action \<Rightarrow> go_error + 'w upgrade_action"
type_synonym uninstall_option = "uninstall_action \<Rightarrow> go_error + uninstall_action"
type_synonym rollback_option = "rollback_action \<Rightarrow> go_error + rollback_action"

record chart =
  ch_name :: string
  ch_content :: json

type_synonym vals = json_map

text \<open>\<open>release.UninstallReleaseResponse\<close>.\<close>

record uninstall_response =
  ur_release :: "release option"
  ur_info :: string

text \<open>Go's pair of a pointer and an error; both may be nil, or both set.\<close>

type_synonym 'a go_result = "'a option \<times> go_error option"

section \<open>Interfaces\<close>

text \<open>\<open>ActionInterface\<close>, without \<open>Config\<close>, which returns the Helm handle itself.\<close>

record 'w action_interface =
  ai_Get :: "string \<Rightarrow> get_option list \<Rightarrow> 'w \<Rightarrow> release go_result \<times> 'w"
  ai_History :: "string \<Rightarrow> history_option list \<Rightarrow> 'w \<Rightarrow> (release list \<times> go_error option) \<times> 'w"
  ai_Install :: "string \<Rightarrow> string \<Rightarrow> chart \<Rightarrow> vals \<Rightarrow> 'w install_option list \<Rightarrow> 'w
     \<Rightarrow> release go_result \<times> 'w"
  ai_Upgrade :: "string \<Rightarrow> string \<Rightarrow> chart \<Rightarrow> vals \<Rightarrow> 'w upgrade_option list \<Rightarrow> 'w
     \<Rightarrow> release go_result \<times> 'w"
  ai_Uninstall :: "string \<Rightarrow> uninstall_option list \<Rightarrow> 'w \<Rightarrow> uninstall_response go_result \<times> 'w"
  ai_Reconcile :: "release \<Rightarrow> 'w \<Rightarrow> go_error option \<times> 'w"

text \<open>
  One object of a manifest, as \<open>resource.Info\<close>. The visitor of the resource builder
  delivers each object together with the error it met, if any.
\<close>

record resource_info =
  in_namespace :: string
  in_name :: string
  in_object :: json

datatype patch_type = StrategicMergePatchType | JSONPatchType

record 'w helm =
  helm_NewGet :: get_action
  helm_NewHistory :: history_action
  helm_NewInstall :: "'w install_action"
  helm_NewUpgrade :: "'w upgrade_action"
  helm_NewUninstall :: uninstall_action
  helm_NewRollback :: rollback_action
  helm_Get :: "get_action \<Rightarrow> string \<Rightarrow> 'w \<Rightarrow> release go_result \<times> 'w"
  helm_History :: "history_action \<Rightarrow> string \<Rightarrow> 'w \<Rightarrow> (release list \<times> go_error option) \<times> 'w"
  helm_Install :: "'w install_action \<Rightarrow> chart \<Rightarrow> vals \<Rightarrow> 'w \<Rightarrow> release go_result \<times> 'w"
  helm_Upgrade :: "'w upgrade_action \<Rightarrow> string \<Rightarrow> chart \<Rightarrow> vals \<Rightarrow> 'w \<Rightarrow> release go_result \<times> 'w"
  helm_Uninstall :: "uninstall_action \<Rightarrow> string \<Rightarrow> 'w \<Rightarrow> uninstall_response go_result \<times> 'w"
  helm_Rollback :: "rollback_action \<Rightarrow> string \<Rightarrow> 'w \<Rightarrow> go_error option \<times> 'w"
  helm_SortByRevision :: "release list \<Rightarrow> release list"
  helm_Build :: "string \<Rightarrow> 'w \<Rightarrow> (go_error + (resource_info \<times> go_error option) list) \<times> 'w"
  helm_ObjGet :: "resource_info \<Rightarrow> 'w \<Rightarrow> (go_error + json) \<times> 'w"
  helm_ObjCreate :: "resource_info \<Rightarrow> 'w \<Rightarrow> go_error option \<times> 'w"
  helm_ObjPatch :: "resource_info \<Rightarrow> patch_type \<Rightarrow> string \<Rightarrow> 'w \<Rightarrow> go_error option \<times> 'w"

section \<open>Options\<close>

text \<open>
  The loop that every action runs over its options: each may change the struct or stop
  the action with an error. \<open>concat\<close> puts the defaults first.
\<close>

fun run_options :: "('a \<Rightarrow> go_error + 'a) list \<Rightarrow> 'a \<Rightarrow> go_error + 'a" where
  "run_options [] a = Inr a"
| "run_options (opt # os) a = (case opt a of Inl e \<Rightarrow> Inl e | Inr a' \<Rightarrow> run_options os a')"

definition concat_opts :: "'a list \<Rightarrow> 'a list \<Rightarrow> 'a list" where
  "concat_opts s1 s2 = s1 @ s2"

lemma run_options_append:
  "run_options (os @ ps) a =
     (case run_options os a of Inl e \<Rightarrow> Inl e | Inr a' \<Rightarrow> run_options ps a')"
  by (induction os arbitrary: a) (auto split: sum.splits)

lemma run_options_snoc:
  "run_options (os @ [p]) a = (case run_options os a of Inl e \<Rightarrow> Inl e | Inr a' \<Rightarrow> p a')"
  by (simp add: run_options_append split: sum.splits)

text \<open>A fact that every option keeps holds of the final struct.\<close>

lemma run_options_invariant:
  assumes "run_options os a = Inr b" and "P a"
    and "\<And>opt x y. opt \<in> set os \<Longrightarrow> opt x = Inr y \<Longrightarrow> P x \<Longrightarrow> P y"
  shows "P b"
  using assms
proof (induction os arbitrary: a)
  case Nil
  then show ?case by simp
next
  case (Cons p os)
  then obtain c where "p a = Inr c" and "run_options os c = Inr b"
    by (auto split: sum.splits)
  with Cons show ?case by (metis list.set_intros(1) list.set_intros(2))
qed

end
