(* ===== verification/PostRenderer.thy ===== *)
theory PostRenderer
  imports Helm Controllerutil
begin

text \<open>
  \<open>pkg/client/postrenderer.go\<close>: chains of post-renderers, and the default one that marks
  every object of a rendered manifest with its owner.
\<close>

section \<open>Options\<close>

definition WithInstallPostRenderer :: "'w post_renderer \<Rightarrow> 'w install_option" where
  "WithInstallPostRenderer pr i = Inr (i\<lparr>ia_post_renderer := Some pr\<rparr>)"

definition WithUpgradePostRenderer :: "'w post_renderer \<Rightarrow> 'w upgrade_option" where
  "WithUpgradePostRenderer pr a = Inr (a\<lparr>ua_post_renderer := Some pr\<rparr>)"

definition appendPostRenderer :: "'w post_renderer option \<Rightarrow> 'w post_renderer \<Rightarrow> 'w post_renderer" where
  "appendPostRenderer pr extra =
     (case pr of
        None \<Rightarrow> extra
      | Some (ChainedPostRenderer cpr) \<Rightarrow> ChainedPostRenderer (cpr @ [extra])
      | Some pr' \<Rightarrow> ChainedPostRenderer [pr', extra])"

definition AppendInstallPostRenderer :: "'w post_renderer \<Rightarrow> 'w install_option" where
  "AppendInstallPostRenderer pr a =
     Inr (a\<lparr>ia_post_renderer := Some (appendPostRenderer (ia_post_renderer a) pr)\<rparr>)"

definition AppendUpgradePostRenderer :: "'w post_renderer \<Rightarrow> 'w upgrade_option" where
  "AppendUpgradePostRenderer pr a =
     Inr (a\<lparr>ua_post_renderer := Some (appendPostRenderer (ua_post_renderer a) pr)\<rparr>)"

section \<open>Running\<close>

text \<open>
  A chain feeds each renderer the output of the one before and stops at the first error.
  The error text names the position and the dynamic type, which \<open>type_name\<close> gives.
\<close>

definition chain_error :: "nat \<Rightarrow> string \<Rightarrow> go_error \<Rightarrow> go_error" where
  "chain_error i tname e =
     ErrMsg (''postrenderer['' @ Itoa (int i) @ ''] ('' @ tname @ '') failed: '' @ error_text e)"

fun type_name :: "('w post_renderer \<Rightarrow> string) \<Rightarrow> 'w post_renderer \<Rightarrow> string" where
  "type_name tn (ChainedPostRenderer _) = ''client.chainedPostRenderer''"
| "type_name tn pr = tn pr"

fun run_post_renderer ::
    "('w post_renderer \<Rightarrow> string) \<Rightarrow> 'w post_renderer \<Rightarrow> string \<Rightarrow> 'w \<Rightarrow> (go_error + string) \<times> 'w"
and run_chain ::
    "('w post_renderer \<Rightarrow> string) \<Rightarrow> nat \<Rightarrow> 'w post_renderer list \<Rightarrow> string \<Rightarrow> 'w \<Rightarrow> (go_error + string) \<times> 'w"
where
  "run_post_renderer tn (PRFun f) b w = f b w"
| "run_post_renderer tn (ChainedPostRenderer prs) b w = run_chain tn 0 prs b w"
| "run_chain tn i [] b w = (Inr b, w)"
| "run_chain tn i (pr # prs) b w =
     (case run_post_renderer tn pr b w of
        (Inl e, w1) \<Rightarrow> (Inl (chain_error i (type_name tn pr) e), w1)
      | (Inr b1, w1) \<Rightarrow> run_chain tn (Suc i) prs b1 w1)"

text \<open>
  The libraries of the owner post-renderer: the conversion of a built resource, the
  controller reference of \<open>metav1\<close>, operator-lib's owner annotations, and YAML.
\<close>

record pr_lib =
  pl_ToUnstructured :: "json \<Rightarrow> go_error + unstructured"
  pl_NewControllerRef :: "unstructured \<Rightarrow> gvk \<Rightarrow> owner_ref"
  pl_SetOwnerAnnotations :: "unstructured \<Rightarrow> unstructured \<Rightarrow> go_error + unstructured"
  pl_YamlMarshal :: "unstructured \<Rightarrow> go_error + string"

definition mark_owner ::
  "pr_lib \<Rightarrow> (gvk \<Rightarrow> go_error + rest_scope) \<Rightarrow> unstructured \<Rightarrow> unstructured \<Rightarrow> go_error + unstructured" where
  "mark_owner P rm owner u =
     (case SupportsOwnerReference rm owner u of
        Inl e \<Rightarrow> Inl e
      | Inr useOwnerRef \<Rightarrow>
          if useOwnerRef \<and> \<not> HasResourcePolicyKeep (Some (u_annotations u))
          then Inr (u\<lparr>u_owner_refs := u_owner_refs u @ [pl_NewControllerRef P owner (u_gvk owner)]\<rparr>)
          else pl_SetOwnerAnnotations P owner u)"

fun ownerPostRenderer_visit ::
  "pr_lib \<Rightarrow> (gvk \<Rightarrow> go_error + rest_scope) \<Rightarrow> unstructured \<Rightarrow> (resource_info \<times> go_error option) list
     \<Rightarrow> string \<Rightarrow> go_error + string" where
  "ownerPostRenderer_visit P rm owner [] out = Inr out"
| "ownerPostRenderer_visit P rm owner ((r, Some err) # rs) out = Inl err"
| "ownerPostRenderer_visit P rm owner ((r, None) # rs) out =
     (case pl_ToUnstructured P (in_object r) of
        Inl e \<Rightarrow> Inl e
      | Inr u \<Rightarrow>
          (case mark_owner P rm owner u of
             Inl e \<Rightarrow> Inl e
           | Inr u' \<Rightarrow>
               (case pl_YamlMarshal P u' of
                  Inl e \<Rightarrow> Inl e
                | Inr outData \<Rightarrow>
                    ownerPostRenderer_visit P rm owner rs (out @ ''---'' @ [CHR 0x0A] @ outData))))"

definition ownerPostRenderer_Run ::
  "pr_lib \<Rightarrow> (gvk \<Rightarrow> go_error + rest_scope) \<Rightarrow> 'w helm \<Rightarrow> unstructured \<Rightarrow> string \<Rightarrow> 'w \<Rightarrow> (go_error + string) \<times> 'w" where
  "ownerPostRenderer_Run P rm kubeClient owner b w =
     (case helm_Build kubeClient b w of
        (Inl e, w1) \<Rightarrow> (Inl e, w1)
      | (Inr resourceList, w1) \<Rightarrow> (ownerPostRenderer_visit P rm owner resourceList [], w1))"

definition DefaultPostRendererFunc ::
  "pr_lib \<Rightarrow> (gvk \<Rightarrow> go_error + rest_scope) \<Rightarrow> 'w helm \<Rightarrow> unstructured \<Rightarrow> 'w post_renderer" where
  "DefaultPostRendererFunc P rm kubeClient owner = PRFun (ownerPostRenderer_Run P rm kubeClient owner)"

section \<open>Lemmas\<close>

lemma run_chain_append:
  "run_chain tn i (prs @ qs) b w =
     (case run_chain tn i prs b w of
        (Inl e, w1) \<Rightarrow> (Inl e, w1)
      | (Inr b1, w1) \<Rightarrow> run_chain tn (i + length prs) qs b1 w1)"
  by (induction prs arbitrary: i b w) (auto split: prod.splits sum.splits)

text \<open>Up to the wording of an error, a chain succeeds exactly as its members in sequence.\<close>

lemma run_chain_snoc_ok:
  "run_chain tn i (prs @ [pr]) b w = (Inr b2, w2) \<longleftrightarrow>
     (\<exists>b1 w1. run_chain tn i prs b w = (Inr b1, w1) \<and> run_post_renderer tn pr b1 w1 = (Inr b2, w2))"
  by (auto simp: run_chain_append split: prod.splits sum.splits)

lemma appendPostRenderer_run:
  "run_post_renderer tn (appendPostRenderer (Some pr) extra) b w = (Inr b2, w2) \<longleftrightarrow>
     (\<exists>b1 w1. run_post_renderer tn pr b w = (Inr b1, w1)
        \<and> run_post_renderer tn extra b1 w1 = (Inr b2, w2))"
proof (cases pr)
  case (PRFun f)
  then show ?thesis
    by (auto simp: appendPostRenderer_def split: prod.splits sum.splits)
next
  case (ChainedPostRenderer prs)
  then show ?thesis
    by (simp add: appendPostRenderer_def run_chain_snoc_ok)
qed

lemma mark_owner_cases:
  assumes "mark_owner P rm owner u = Inr u'"
  obtains (ref) "SupportsOwnerReference rm owner u = Inr True"
      "\<not> HasResourcePolicyKeep (Some (u_annotations u))"
      "u' = u\<lparr>u_owner_refs := u_owner_refs u @ [pl_NewControllerRef P owner (u_gvk owner)]\<rparr>"
  | (annotation) b where "SupportsOwnerReference rm owner u = Inr b"
      "b \<longrightarrow> HasResourcePolicyKeep (Some (u_annotations u))"
      "pl_SetOwnerAnnotations P owner u = Inr u'"
  using assms by (auto simp: mark_owner_def split: sum.splits if_splits)

text \<open>A visit without error produces one document per object, in order.\<close>

fun marked_documents ::
  "pr_lib \<Rightarrow> (gvk \<Rightarrow> go_error + rest_scope) \<Rightarrow> unstructured \<Rightarrow> (resource_info \<times> go_error option) list
     \<Rightarrow> string list \<Rightarrow> bool" where
  "marked_documents P rm owner [] ds \<longleftrightarrow> ds = []"
| "marked_documents P rm owner ((r, err) # rs) ds \<longleftrightarrow>
     err = None \<and> (\<exists>u u' d ds'. ds = d # ds' \<and> pl_ToUnstructured P (in_object r) = Inr u
        \<and> mark_owner P rm owner u = Inr u' \<and> pl_YamlMarshal P u' = Inr d
        \<and> marked_documents P rm owner rs ds')"

lemma visit_documents:
  "ownerPostRenderer_visit P rm owner rs out = Inr res \<Longrightarrow>
     \<exists>ds. marked_documents P rm owner rs ds
        \<and> res = out @ concat (map (\<lambda>d. ''---'' @ [CHR 0x0A] @ d) ds)"
proof (induction P rm owner rs out arbitrary: res rule: ownerPostRenderer_visit.induct)
  case (1 P rm owner out)
  then show ?case by (intro exI [of _ "[]"]) simp
next
  case (2 P rm owner r err rs out)
  then show ?case by simp
next
  case (3 P rm owner r rs out)
  from 3(2) obtain u u' d where u: "pl_ToUnstructured P (in_object r) = Inr u"
    and u': "mark_owner P rm owner u = Inr u'" and d: "pl_YamlMarshal P u' = Inr d"
    and v: "ownerPostRenderer_visit P rm owner rs (out @ ''---'' @ [CHR 0x0A] @ d) = Inr res"
    by (auto split: sum.splits)
  from 3(1) [OF u u' d v] obtain ds where "marked_documents P rm owner rs ds"
    and "res = (out @ ''---'' @ [CHR 0x0A] @ d) @ concat (map (\<lambda>d. ''---'' @ [CHR 0x0A] @ d) ds)"
    by blast
  with u u' d show ?case by (intro exI [of _ "d # ds"]) auto
qed

end
