(* ===== verification/ActionClient.thy ===== *)
theory ActionClient
  imports PostRenderer
begin

text \<open>
  \<open>pkg/client/actionclient.go\<close>: the client through which the reconciler uses Helm. It
  runs the default and the given options over Helm's action structs, undoes a failed
  install or upgrade, and re-applies the objects of a release that have drifted.
\<close>

section \<open>The getter and its options\<close>

text \<open>An \<open>action.Configuration\<close>, as far as the client uses it.\<close>

record 'w action_config =
  cfg_helm :: "'w helm"
  cfg_ToRESTMapper :: "go_error + (gvk \<Rightarrow> go_error + rest_scope)"

type_synonym 'w PostRendererProvider =
  "(gvk \<Rightarrow> go_error + rest_scope) \<Rightarrow> 'w helm \<Rightarrow> unstructured \<Rightarrow> 'w post_renderer"

record 'w actionClientGetter =
  acg :: "unstructured \<Rightarrow> 'w \<Rightarrow> (go_error + 'w action_config) \<times> 'w"
  g_defaultGetOpts :: "get_option list"
  g_defaultHistoryOpts :: "history_option list"
  g_defaultInstallOpts :: "'w install_option list"
  g_defaultUpgradeOpts :: "'w upgrade_option list"
  g_defaultUninstallOpts :: "uninstall_option list"
  g_enableFailureRollbacks :: bool
  g_installFailureUninstallOpts :: "uninstall_option list"
  g_upgradeFailureRollbackOpts :: "rollback_option list"
  g_postRendererProviders :: "'w PostRendererProvider list"

type_synonym 'w ActionClientGetterOption =
  "'w actionClientGetter \<Rightarrow> go_error + 'w actionClientGetter"

definition AppendGetOptions :: "get_option list \<Rightarrow> 'w ActionClientGetterOption" where
  "AppendGetOptions opts getter =
     Inr (getter\<lparr>g_defaultGetOpts := g_defaultGetOpts getter @ opts\<rparr>)"

definition AppendHistoryOptions :: "history_option list \<Rightarrow> 'w ActionClientGetterOption" where
  "AppendHistoryOptions opts getter =
     Inr (getter\<lparr>g_defaultHistoryOpts := g_defaultHistoryOpts getter @ opts\<rparr>)"

definition AppendInstallOptions :: "'w install_option list \<Rightarrow> 'w ActionClientGetterOption" where
  "AppendInstallOptions opts getter =
     Inr (getter\<lparr>g_defaultInstallOpts := g_defaultInstallOpts getter @ opts\<rparr>)"

definition AppendUpgradeOptions :: "'w upgrade_option list \<Rightarrow> 'w ActionClientGetterOption" where
  "AppendUpgradeOptions opts getter =
     Inr (getter\<lparr>g_defaultUpgradeOpts := g_defaultUpgradeOpts getter @ opts\<rparr>)"

definition AppendUninstallOptions :: "uninstall_option list \<Rightarrow> 'w ActionClientGetterOption" where
  "AppendUninstallOptions opts getter =
     Inr (getter\<lparr>g_defaultUninstallOpts := g_defaultUninstallOpts getter @ opts\<rparr>)"

definition AppendInstallFailureUninstallOptions :: "uninstall_option list \<Rightarrow> 'w ActionClientGetterOption" where
  "AppendInstallFailureUninstallOptions opts getter =
     Inr (getter\<lparr>g_installFailureUninstallOpts := g_installFailureUninstallOpts getter @ opts\<rparr>)"

definition AppendUpgradeFailureRollbackOptions :: "rollback_option list \<Rightarrow> 'w ActionClientGetterOption" where
  "AppendUpgradeFailureRollbackOptions opts getter =
     Inr (getter\<lparr>g_upgradeFailureRollbackOpts := g_upgradeFailureRollbackOpts getter @ opts\<rparr>)"

definition AppendPostRenderers :: "'w PostRendererProvider list \<Rightarrow> 'w ActionClientGetterOption" where
  "AppendPostRenderers postRendererFns getter =
     Inr (getter\<lparr>g_postRendererProviders := g_postRendererProviders getter @ postRendererFns\<rparr>)"

definition WithFailureRollbacks :: "bool \<Rightarrow> 'w ActionClientGetterOption" where
  "WithFailureRollbacks enableFailureRollbacks getter =
     Inr (getter\<lparr>g_enableFailureRollbacks := enableFailureRollbacks\<rparr>)"

definition NewActionClientGetter ::
  "(unstructured \<Rightarrow> 'w \<Rightarrow> (go_error + 'w action_config) \<times> 'w) \<Rightarrow> 'w ActionClientGetterOption list
     \<Rightarrow> go_error + 'w actionClientGetter" where
  "NewActionClientGetter a opts =
     run_options opts
       \<lparr>acg = a, g_defaultGetOpts = [], g_defaultHistoryOpts = [], g_defaultInstallOpts = [],
        g_defaultUpgradeOpts = [], g_defaultUninstallOpts = [], g_enableFailureRollbacks = True,
        g_installFailureUninstallOpts = [], g_upgradeFailureRollbackOpts = [],
        g_postRendererProviders = []\<rparr>"

section \<open>The client\<close>

record 'w actionClient =
  conf :: "'w helm"
  defaultGetOpts :: "get_option list"
  defaultHistoryOpts :: "history_option list"
  defaultInstallOpts :: "'w install_option list"
  defaultUpgradeOpts :: "'w upgrade_option list"
  defaultUninstallOpts :: "uninstall_option list"
  enableFailureRollbacks :: bool
  installFailureUninstallOpts :: "uninstall_option list"
  upgradeFailureRollbackOpts :: "rollback_option list"

text \<open>
  The chain of a client: the providers' renderers in order, then the default one. The
  option that installs it comes first, so that a user's default can override it.
\<close>

definition ActionClientFor ::
  "pr_lib \<Rightarrow> 'w actionClientGetter \<Rightarrow> unstructured \<Rightarrow> 'w \<Rightarrow> (go_error + 'w actionClient) \<times> 'w" where
  "ActionClientFor P hcg obj w =
     (case acg hcg obj w of
        (Inl e, w1) \<Rightarrow> (Inl e, w1)
      | (Inr actionConfig, w1) \<Rightarrow>
          (case cfg_ToRESTMapper actionConfig of
             Inl e \<Rightarrow> (Inl e, w1)
           | Inr rm \<Rightarrow>
               let cpr = ChainedPostRenderer
                     (map (\<lambda>provider. provider rm (cfg_helm actionConfig) obj) (g_postRendererProviders hcg)
                      @ [DefaultPostRendererFunc P rm (cfg_helm actionConfig) obj])
               in (Inr \<lparr>conf = cfg_helm actionConfig,
                        defaultGetOpts = g_defaultGetOpts hcg,
                        defaultHistoryOpts = g_defaultHistoryOpts hcg,
                        defaultInstallOpts = WithInstallPostRenderer cpr # g_defaultInstallOpts hcg,
                        defaultUpgradeOpts = WithUpgradePostRenderer cpr # g_defaultUpgradeOpts hcg,
                        defaultUninstallOpts = g_defaultUninstallOpts hcg,
                        enableFailureRollbacks = g_enableFailureRollbacks hcg,
                        installFailureUninstallOpts = g_installFailureUninstallOpts hcg,
                        upgradeFailureRollbackOpts = g_upgradeFailureRollbackOpts hcg\<rparr>, w1)))"

definition client_Config :: "'w actionClient \<Rightarrow> 'w helm" where
  "client_Config c = conf c"

definition client_Get :: "'w actionClient \<Rightarrow> string \<Rightarrow> get_option list \<Rightarrow> 'w \<Rightarrow> release go_result \<times> 'w" where
  "client_Get c name opts w =
     (case run_options (concat_opts (defaultGetOpts c) opts) (helm_NewGet (conf c)) of
        Inl e \<Rightarrow> ((None, Some e), w)
      | Inr get \<Rightarrow> helm_Get (conf c) get name w)"

text \<open>\<open>releaseutil.Reverse\<close> sorts with the given order and turns the slice around.\<close>

definition client_History ::
  "'w actionClient \<Rightarrow> string \<Rightarrow> history_option list \<Rightarrow> 'w \<Rightarrow> (release list \<times> go_error option) \<times> 'w" where
  "client_History c name opts w =
     (case run_options (concat_opts (defaultHistoryOpts c) opts) (helm_NewHistory (conf c)) of
        Inl e \<Rightarrow> (([], Some e), w)
      | Inr history \<Rightarrow>
          (case helm_History (conf c) history name w of
             ((rels, Some e), w1) \<Rightarrow> (([], Some e), w1)
           | ((rels, None), w1) \<Rightarrow> ((rev (helm_SortByRevision (conf c) rels), None), w1)))"

definition client_uninstall ::
  "'w actionClient \<Rightarrow> string \<Rightarrow> uninstall_option list \<Rightarrow> 'w \<Rightarrow> uninstall_response go_result \<times> 'w" where
  "client_uninstall c name opts w =
     (case run_options opts (helm_NewUninstall (conf c)) of
        Inl e \<Rightarrow> ((None, Some e), w)
      | Inr uninstall \<Rightarrow> helm_Uninstall (conf c) uninstall name w)"

definition client_Uninstall ::
  "'w actionClient \<Rightarrow> string \<Rightarrow> uninstall_option list \<Rightarrow> 'w \<Rightarrow> uninstall_response go_result \<times> 'w" where
  "client_Uninstall c name opts w =
     client_uninstall c name (concat_opts (defaultUninstallOpts c) opts) w"

definition client_rollback ::
  "'w actionClient \<Rightarrow> string \<Rightarrow> rollback_option list \<Rightarrow> 'w \<Rightarrow> go_error option \<times> 'w" where
  "client_rollback c name opts w =
     (case run_options opts (helm_NewRollback (conf c)) of
        Inl e \<Rightarrow> (Some e, w)
      | Inr rollback \<Rightarrow> helm_Rollback (conf c) rollback name w)"

definition client_Install ::
  "'w actionClient \<Rightarrow> string \<Rightarrow> string \<Rightarrow> chart \<Rightarrow> vals \<Rightarrow> 'w install_option list \<Rightarrow> 'w
     \<Rightarrow> release go_result \<times> 'w" where
  "client_Install c name namespace chrt vals opts w =
     (case run_options (concat_opts (defaultInstallOpts c) opts) (helm_NewInstall (conf c)) of
        Inl e \<Rightarrow> ((None, Some e), w)
      | Inr install \<Rightarrow>
          let install1 = install\<lparr>ia_release_name := name, ia_namespace := namespace\<rparr>
          in (case helm_Install (conf c) install1 chrt vals w of
                ((rel, None), w1) \<Rightarrow> ((rel, None), w1)
              | ((rel, Some err), w1) \<Rightarrow>
                  if enableFailureRollbacks c \<and> rel \<noteq> None
                  then (case client_uninstall c name (installFailureUninstallOpts c) w1 of
                          ((resp, Some uninstallErr), w2) \<Rightarrow>
                            if \<not> errors_Is uninstallErr ErrReleaseNotFound
                            then ((None, Some (ErrWrap (''uninstall failed: '' @ error_text uninstallErr
                                    @ '': original install error: '') err)), w2)
                            else ((rel, Some err), w2)
                        | ((resp, None), w2) \<Rightarrow> ((rel, Some err), w2))
                  else ((rel, Some err), w1)))"

definition client_Upgrade ::
  "'w actionClient \<Rightarrow> string \<Rightarrow> string \<Rightarrow> chart \<Rightarrow> vals \<Rightarrow> 'w upgrade_option list \<Rightarrow> 'w
     \<Rightarrow> release go_result \<times> 'w" where
  "client_Upgrade c name namespace chrt vals opts w =
     (case run_options (concat_opts (defaultUpgradeOpts c) opts) (helm_NewUpgrade (conf c)) of
        Inl e \<Rightarrow> ((None, Some e), w)
      | Inr upgrade0 \<Rightarrow>
          let upgrade = upgrade0\<lparr>ua_namespace := namespace\<rparr>
          in (case helm_Upgrade (conf c) upgrade name chrt vals w of
                ((rel, None), w1) \<Rightarrow> ((rel, None), w1)
              | ((rel, Some err), w1) \<Rightarrow>
                  if enableFailureRollbacks c \<and> rel \<noteq> None
                  then let rollbackOpts =
                             (\<lambda>rollback. Inr (rollback\<lparr>ra_force := True,
                                                 ra_max_history := ua_max_history upgrade\<rparr>))
                             # upgradeFailureRollbackOpts c
                       in (case client_rollback c name rollbackOpts w1 of
                             (Some rollbackErr, w2) \<Rightarrow>
                               ((None, Some (ErrWrap (''rollback failed: '' @ error_text rollbackErr
                                    @ '': original upgrade error: '') err)), w2)
                           | (None, w2) \<Rightarrow> ((rel, Some err), w2))
                  else ((rel, Some err), w1)))"

section \<open>Reconciling the objects of a release\<close>

record json_patch_op =
  op_operation :: string
  op_path :: string
  op_value :: "json option"

datatype versioned_kind = VUnstructured | VCRDv1beta1 | VCRDv1 | VTyped

text \<open>
  The libraries behind \<open>createPatch\<close>: JSON encoding, the versioned form of an object,
  the JSON patch and the strategic three-way merge.
\<close>

record patch_lib =
  pt_Marshal :: "json \<Rightarrow> go_error + string"
  pt_AsVersioned :: "resource_info \<Rightarrow> versioned_kind"
  pt_CreatePatch :: "string \<Rightarrow> string \<Rightarrow> go_error + json_patch_op list"
  pt_MarshalOps :: "json_patch_op list \<Rightarrow> go_error + string"
  pt_NewPatchMeta :: "resource_info \<Rightarrow> go_error option"
  pt_ThreeWayMerge :: "string \<Rightarrow> string \<Rightarrow> string \<Rightarrow> resource_info \<Rightarrow> go_error + string"

definition keep_patch_op :: "json_patch_op \<Rightarrow> bool" where
  "keep_patch_op patchOp \<longleftrightarrow> op_operation patchOp \<noteq> ''remove''
     \<and> \<not> (op_operation patchOp = ''add'' \<and> op_value patchOp = None)"

text \<open>A nil patch is \<open>None\<close>: there is nothing to send.\<close>

definition createJSONMergePatch :: "patch_lib \<Rightarrow> string \<Rightarrow> string \<Rightarrow> go_error + string option" where
  "createJSONMergePatch PL existingJSON expectedJSON =
     (case pt_CreatePatch PL existingJSON expectedJSON of
        Inl e \<Rightarrow> Inl e
      | Inr ops \<Rightarrow>
          let patchOps = filter keep_patch_op ops
          in if length patchOps = 0 then Inr None
             else (case pt_MarshalOps PL patchOps of Inl e \<Rightarrow> Inl e | Inr p \<Rightarrow> Inr (Some p)))"

definition createPatch ::
  "patch_lib \<Rightarrow> json \<Rightarrow> resource_info \<Rightarrow> (go_error + string option) \<times> patch_type" where
  "createPatch PL existing expected =
     (case pt_Marshal PL existing of
        Inl e \<Rightarrow> (Inl e, StrategicMergePatchType)
      | Inr existingJSON \<Rightarrow>
          (case pt_Marshal PL (in_object expected) of
             Inl e \<Rightarrow> (Inl e, StrategicMergePatchType)
           | Inr expectedJSON \<Rightarrow>
               if pt_AsVersioned PL expected \<noteq> VTyped
               then (createJSONMergePatch PL existingJSON expectedJSON, JSONPatchType)
               else (case pt_NewPatchMeta PL expected of
                       Some e \<Rightarrow> (Inl e, StrategicMergePatchType)
                     | None \<Rightarrow>
                         (case pt_ThreeWayMerge PL expectedJSON expectedJSON existingJSON expected of
                            Inl e \<Rightarrow> (Inl e, StrategicMergePatchType)
                          | Inr patch \<Rightarrow>
                              if length patch = 0 \<or> patch = ''{}''
                              then (Inr None, StrategicMergePatchType)
                              else (Inr (Some patch), StrategicMergePatchType)))))"

text \<open>The function that \<open>Reconcile\<close> gives to the visitor, for one object.\<close>

definition reconcile_object ::
  "patch_lib \<Rightarrow> 'w helm \<Rightarrow> resource_info \<Rightarrow> go_error option \<Rightarrow> 'w \<Rightarrow> go_error option \<times> 'w" where
  "reconcile_object PL h expected err w =
     (case err of
        Some e \<Rightarrow> (Some (ErrWrap ''visit error: '' e), w)
      | None \<Rightarrow>
          (case helm_ObjGet h expected w of
             (Inl e, w1) \<Rightarrow>
               if IsNotFound e
               then (case helm_ObjCreate h expected w1 of
                       (Some ce, w2) \<Rightarrow> (Some (ErrWrap ''create error: '' ce), w2)
                     | (None, w2) \<Rightarrow> (None, w2))
               else (Some (ErrWrap ''could not get object: '' e), w1)
           | (Inr existing, w1) \<Rightarrow>
               (case createPatch PL existing expected of
                  (Inl e, _) \<Rightarrow> (Some (ErrWrap ''error creating patch: '' e), w1)
                | (Inr None, _) \<Rightarrow> (None, w1)
                | (Inr (Some patch), patchType) \<Rightarrow>
                    (case helm_ObjPatch h expected patchType patch w1 of
                       (Some e, w2) \<Rightarrow> (Some (ErrWrap ''patch error: '' e), w2)
                     | (None, w2) \<Rightarrow> (None, w2)))))"

text \<open>The visitor stops when the function returns an error.\<close>

fun visit_infos ::
  "(resource_info \<Rightarrow> go_error option \<Rightarrow> 'w \<Rightarrow> go_error option \<times> 'w) \<Rightarrow> (resource_info \<times> go_error option) list
     \<Rightarrow> 'w \<Rightarrow> go_error option \<times> 'w" where
  "visit_infos f [] w = (None, w)"
| "visit_infos f ((r, err) # rs) w =
     (case f r err w of (Some e, w1) \<Rightarrow> (Some e, w1) | (None, w1) \<Rightarrow> visit_infos f rs w1)"

definition client_Reconcile ::
  "patch_lib \<Rightarrow> 'w actionClient \<Rightarrow> release \<Rightarrow> 'w \<Rightarrow> go_error option \<times> 'w" where
  "client_Reconcile PL c rel w =
     (case helm_Build (conf c) (rel_manifest rel) w of
        (Inl e, w1) \<Rightarrow> (Some e, w1)
      | (Inr infos, w1) \<Rightarrow> visit_infos (reconcile_object PL (conf c)) infos w1)"

text \<open>The client as an \<open>ActionInterface\<close>.\<close>

definition action_interface_of :: "patch_lib \<Rightarrow> 'w actionClient \<Rightarrow> 'w action_interface" where
  "action_interface_of PL c =
     \<lparr>ai_Get = client_Get c, ai_History = client_History c, ai_Install = client_Install c,
      ai_Upgrade = client_Upgrade c, ai_Uninstall = client_Uninstall c,
      ai_Reconcile = client_Reconcile PL c\<rparr>"

end
