(* ===== verification/Annotation.thy ===== *)
theory Annotation
  imports Helm
begin

text \<open>
  \<open>pkg/annotation/annotation.go\<close>: annotations on a custom resource that set fields of
  the install, upgrade and uninstall actions. An annotation is an interface value, here a
  record of its name and of the option made from the annotation's value; the seven structs
  of the file are values of it, built from their \<open>CustomName\<close>.
\<close>

record 'w install_annotation =
  inst_Name :: string
  inst_InstallOption :: "string \<Rightarrow> 'w install_option"

record 'w upgrade_annotation =
  up_Name :: string
  up_UpgradeOption :: "string \<Rightarrow> 'w upgrade_option"

record uninstall_annotation =
  un_Name :: string
  un_UninstallOption :: "string \<Rightarrow> uninstall_option"

section \<open>Names\<close>

abbreviation defaultDomain :: string where "defaultDomain \<equiv> ''helm.sdk.operatorframework.io''"

definition defaultInstallDisableHooksName :: string where
  "defaultInstallDisableHooksName = defaultDomain @ ''/install-disable-hooks''"
definition defaultUpgradeDisableHooksName :: string where
  "defaultUpgradeDisableHooksName = defaultDomain @ ''/upgrade-disable-hooks''"
definition defaultUninstallDisableHooksName :: string where
  "defaultUninstallDisableHooksName = defaultDomain @ ''/uninstall-disable-hooks''"
definition defaultUpgradeForceName :: string where
  "defaultUpgradeForceName = defaultDomain @ ''/upgrade-force''"
definition defaultInstallDescriptionName :: string where
  "defaultInstallDescriptionName = defaultDomain @ ''/install-description''"
definition defaultUpgradeDescriptionName :: string where
  "defaultUpgradeDescriptionName = defaultDomain @ ''/upgrade-description''"
definition defaultUninstallDescriptionName :: string where
  "defaultUninstallDescriptionName = defaultDomain @ ''/uninstall-description''"

lemmas default_name_defs =
  defaultInstallDisableHooksName_def defaultUpgradeDisableHooksName_def
  defaultUninstallDisableHooksName_def defaultUpgradeForceName_def
  defaultInstallDescriptionName_def defaultUpgradeDescriptionName_def
  defaultUninstallDescriptionName_def

section \<open>The annotations\<close>

text \<open>A value that does not parse as a boolean counts as false.\<close>

definition bool_value :: "string \<Rightarrow> bool" where
  "bool_value val = (case ParseBool val of None \<Rightarrow> False | Some v \<Rightarrow> v)"

definition InstallDisableHooks :: "string \<Rightarrow> 'w install_annotation" where
  "InstallDisableHooks customName =
     \<lparr>inst_Name = (if customName \<noteq> [] then customName else defaultInstallDisableHooksName),
      inst_InstallOption = (\<lambda>val install. Inr (install\<lparr>ia_disable_hooks := bool_value val\<rparr>))\<rparr>"

definition UpgradeDisableHooks :: "string \<Rightarrow> 'w upgrade_annotation" where
  "UpgradeDisableHooks customName =
     \<lparr>up_Name = (if customName \<noteq> [] then customName else defaultUpgradeDisableHooksName),
      up_UpgradeOption = (\<lambda>val upgrade. Inr (upgrade\<lparr>ua_disable_hooks := bool_value val\<rparr>))\<rparr>"

definition UpgradeForce :: "string \<Rightarrow> 'w upgrade_annotation" where
  "UpgradeForce customName =
     \<lparr>up_Name = (if customName \<noteq> [] then customName else defaultUpgradeForceName),
      up_UpgradeOption = (\<lambda>val upgrade. Inr (upgrade\<lparr>ua_force := bool_value val\<rparr>))\<rparr>"

definition UninstallDisableHooks :: "string \<Rightarrow> uninstall_annotation" where
  "UninstallDisableHooks customName =
     \<lparr>un_Name = (if customName \<noteq> [] then customName else defaultUninstallDisableHooksName),
      un_UninstallOption = (\<lambda>val uninstall. Inr (uninstall\<lparr>una_disable_hooks := bool_value val\<rparr>))\<rparr>"

definition InstallDescription :: "string \<Rightarrow> 'w install_annotation" where
  "InstallDescription customName =
     \<lparr>inst_Name = (if customName \<noteq> [] then customName else defaultInstallDescriptionName),
      inst_InstallOption = (\<lambda>v i. Inr (i\<lparr>ia_description := v\<rparr>))\<rparr>"

definition UpgradeDescription :: "string \<Rightarrow> 'w upgrade_annotation" where
  "UpgradeDescription customName =
     \<lparr>up_Name = (if customName \<noteq> [] then customName else defaultUpgradeDescriptionName),
      up_UpgradeOption = (\<lambda>v upgrade. Inr (upgrade\<lparr>ua_description := v\<rparr>))\<rparr>"

definition UninstallDescription :: "string \<Rightarrow> uninstall_annotation" where
  "UninstallDescription customName =
     \<lparr>un_Name = (if customName \<noteq> [] then customName else defaultUninstallDescriptionName),
      un_UninstallOption = (\<lambda>v uninstall. Inr (uninstall\<lparr>una_description := v\<rparr>))\<rparr>"

definition DefaultInstallAnnotations :: "'w install_annotation list" where
  "DefaultInstallAnnotations = [InstallDescription [], InstallDisableHooks []]"

definition DefaultUpgradeAnnotations :: "'w upgrade_annotation list" where
  "DefaultUpgradeAnnotations = [UpgradeDescription [], UpgradeDisableHooks [], UpgradeForce []]"

definition DefaultUninstallAnnotations :: "uninstall_annotation list" where
  "DefaultUninstallAnnotations = [UninstallDescription [], UninstallDisableHooks []]"

lemmas annotation_defs =
  InstallDisableHooks_def UpgradeDisableHooks_def UpgradeForce_def UninstallDisableHooks_def
  InstallDescription_def UpgradeDescription_def UninstallDescription_def

section \<open>Lemmas\<close>

lemma bool_value_iff:
  "bool_value val \<longleftrightarrow> val \<in> {''1'', ''t'', ''T'', ''true'', ''TRUE'', ''True''}"
  by (simp add: bool_value_def ParseBool_def)

end
