(* ===== verification/Values.thy ===== *)
theory Values
  imports KubeApi GoLib
begin

text \<open>
  \<open>pkg/reconciler/internal/values/values.go\<close>: override values written into the spec of
  a custom resource, the default translation of a resource to Helm values, and the
  defaults of the reconciler's settings. \<open>value_lib\<close> holds the environment variables,
  Helm's \<open>strvals.ParseInto\<close> (which changes its map in place) and
  \<open>chartutil.CoalesceValues\<close>.
\<close>

record value_lib =
  vl_getenv :: "string \<Rightarrow> string"
  vl_ParseInto :: "string \<Rightarrow> json_map \<Rightarrow> go_error option \<times> json_map"

text \<open>Durations are nanoseconds.\<close>

definition DefaultWaitForDeletionTimeout :: int where
  "DefaultWaitForDeletionTimeout = 30 * 1000000000"

definition DefaultMaxReleaseHistory :: int where
  "DefaultMaxReleaseHistory = 10"

definition DefaultMapper :: "json_map \<Rightarrow> json_map" where
  "DefaultMapper v = v"

text \<open>\<open>None\<close> is a nil object.\<close>

definition getSpecMap :: "unstructured option \<Rightarrow> go_error + json_map" where
  "getSpecMap obj =
     (case obj of
        None \<Rightarrow> Inl (ErrMsg ''nil object'')
      | Some ob \<Rightarrow>
          (case u_spec ob of
             None \<Rightarrow> Inl (ErrMsg ''spec not found'')
           | Some (JObj specMap) \<Rightarrow> Inr specMap
           | Some _ \<Rightarrow> Inl (ErrMsg ''spec must be a map'')))"

definition DefaultTranslator :: "unstructured \<Rightarrow> go_error + json_map" where
  "DefaultTranslator u = getSpecMap (Some u)"

text \<open>The line that \<open>ParseInto\<close> gets for one override.\<close>

definition override_line :: "value_lib \<Rightarrow> string \<Rightarrow> string \<Rightarrow> string" where
  "override_line V inK inV = inK @ ''='' @ Expand (vl_getenv V) inV"

fun ApplyOverrides_loop :: "value_lib \<Rightarrow> (string \<times> string) list \<Rightarrow> json_map \<Rightarrow> go_error option \<times> json_map" where
  "ApplyOverrides_loop V [] specMap = (None, specMap)"
| "ApplyOverrides_loop V ((inK, inV) # kvs) specMap =
     (case vl_ParseInto V (override_line V inK inV) specMap of
        (Some e, specMap') \<Rightarrow> (Some e, specMap')
      | (None, specMap') \<Rightarrow> ApplyOverrides_loop V kvs specMap')"

text \<open>
  \<open>overrideValues\<close> is listed in the order in which Go happens to iterate over the map.
  The spec map is changed in place, so the object changes with it.
\<close>

definition ApplyOverrides ::
  "value_lib \<Rightarrow> (string \<times> string) list \<Rightarrow> unstructured \<Rightarrow> go_error option \<times> unstructured" where
  "ApplyOverrides V overrideValues obj =
     (case getSpecMap (Some obj) of
        Inl e \<Rightarrow> (Some e, obj)
      | Inr specMap \<Rightarrow>
          let (err, specMap') = ApplyOverrides_loop V overrideValues specMap
          in (err, obj\<lparr>u_spec := Some (JObj specMap')\<rparr>))"

lemma getSpecMap_Inr: "getSpecMap (Some obj) = Inr m \<longleftrightarrow> u_spec obj = Some (JObj m)"
  by (auto simp: getSpecMap_def split: option.splits json.splits)

text \<open>Only the spec of the object can change.\<close>

lemma ApplyOverrides_frame:
  assumes "ApplyOverrides V ov obj = (err, obj')"
  shows "\<exists>sp. obj' = obj\<lparr>u_spec := sp\<rparr>"
proof (cases "getSpecMap (Some obj)")
  case (Inl e)
  with assms have "obj' = obj\<lparr>u_spec := u_spec obj\<rparr>"
    by (simp add: ApplyOverrides_def)
  then show ?thesis by blast
next
  case (Inr m)
  with assms show ?thesis
    by (auto simp: ApplyOverrides_def split: prod.splits)
qed

lemma ApplyOverrides_none:
  assumes "getSpecMap (Some obj) = Inr m"
  shows "ApplyOverrides V [] obj = (None, obj)"
proof -
  have "u_spec obj = Some (JObj m)" using assms by (simp add: getSpecMap_Inr)
  then have "obj\<lparr>u_spec := Some (JObj m)\<rparr> = obj" by (cases obj) simp
  with assms show ?thesis by (simp add: ApplyOverrides_def)
qed

lemma ApplyOverrides_loop_append:
  "ApplyOverrides_loop V (xs @ ys) m =
     (case ApplyOverrides_loop V xs m of
        (Some e, m1) \<Rightarrow> (Some e, m1)
      | (None, m1) \<Rightarrow> ApplyOverrides_loop V ys m1)"
  by (induction V xs m rule: ApplyOverrides_loop.induct) (auto split: prod.splits option.splits)

end
