(* ===== verification/Reconcile.thy ===== *)
theory Reconcile
  imports Updater ActionClient Annotation Values
begin

text \<open>
  The reconcile loop of \<open>pkg/reconciler/reconciler.go\<close> (\<open>Reconcile\<close> and everything
  it calls), on a reconciler whose defaults have been filled in. The body works on a frame:
  the custom resource, the updater that collects changes, and the system. The deferred
  \<open>Apply\<close> runs when the body leaves, however it leaves.
\<close>

section \<open>The reconciler at run time\<close>

text \<open>
  The fields of \<open>Reconciler\<close> that the loop reads, with the interfaces set (see
  \<open>addDefaults\<close>). Go maps are listed in the order of their iteration. Hooks, the pause
  handler and the translator get a pointer to the resource and may change it.
\<close>

type_synonym 'w pre_hook =
  "unstructured \<Rightarrow> vals \<Rightarrow> 'w \<Rightarrow> (go_error option \<times> unstructured \<times> vals) \<times> 'w"
type_synonym 'w post_hook =
  "unstructured \<Rightarrow> release \<Rightarrow> 'w \<Rightarrow> (go_error option \<times> unstructured) \<times> 'w"
type_synonym 'w pause_handler =
  "unstructured \<Rightarrow> 'w \<Rightarrow> ((bool \<times> go_error option) \<times> unstructured) \<times> 'w"
type_synonym 'w translator =
  "unstructured \<Rightarrow> 'w \<Rightarrow> ((go_error + vals) \<times> unstructured) \<times> 'w"
type_synonym 'w event_recorder = "unstructured \<Rightarrow> string \<Rightarrow> string \<Rightarrow> string \<Rightarrow> 'w \<Rightarrow> 'w"

record 'w runtime =
  rt_client :: "'w kube_client"
  rt_actionClientGetter :: "unstructured \<Rightarrow> 'w \<Rightarrow> (go_error + 'w action_interface) \<times> 'w"
  rt_valueTranslator :: "'w translator"
  rt_valueMapper :: "vals \<Rightarrow> vals"
  rt_eventRecorder :: "'w event_recorder"
  rt_preHooks :: "'w pre_hook list"
  rt_postHooks :: "'w post_hook list"
  rt_gvk :: gvk
  rt_chrt :: chart
  rt_overrideValues :: "(string \<times> string) list"
  rt_reconcilePeriod :: int
  rt_waitForDeletionTimeout :: int
  rt_maxReleaseHistory :: int
  rt_pauseHandler :: "'w pause_handler option"
  rt_installAnnotations :: "(string \<times> 'w install_annotation) list"
  rt_upgradeAnnotations :: "(string \<times> 'w upgrade_annotation) list"
  rt_uninstallAnnotations :: "(string \<times> uninstall_annotation) list"

record 'w env =
  e_lib :: "'w kube_lib"
  e_values :: value_lib
  e_CoalesceValues :: "chart \<Rightarrow> vals \<Rightarrow> go_error + vals"

abbreviation uninstallFinalizer :: string where
  "uninstallFinalizer \<equiv> ''uninstall-helm-release''"

record ctrl_result =
  requeue_after :: int

abbreviation no_result :: ctrl_result where "no_result \<equiv> \<lparr>requeue_after = 0\<rparr>"

datatype helmReleaseState =
    StateNeedsInstall
  | StateNeedsUpgrade
  | StateUnchanged
  | StateError

fun state_text :: "helmReleaseState \<Rightarrow> string" where
  "state_text StateNeedsInstall = ''needs install''"
| "state_text StateNeedsUpgrade = ''needs upgrade''"
| "state_text StateUnchanged = ''unchanged''"
| "state_text StateError = ''error''"

record 'w frame =
  f_obj :: unstructured
  f_u :: updater
  f_sys :: "'w sys"

definition fcall :: "event \<Rightarrow> ('w \<Rightarrow> 'a \<times> 'w) \<Rightarrow> 'w frame \<Rightarrow> 'a \<times> 'w frame" where
  "fcall ev g f = (let (r, s') = call ev g (f_sys f) in (r, f\<lparr>f_sys := s'\<rparr>))"

definition collect :: "UpdateStatusFunc list \<Rightarrow> 'w frame \<Rightarrow> 'w frame" where
  "collect fs f = f\<lparr>f_u := UpdateStatus fs (f_u f)\<rparr>"

abbreviation nil_deref :: "'a exit" where
  "nil_deref \<equiv> Panic ''invalid memory address or nil pointer dereference''"

section \<open>Options from annotations\<close>

text \<open>
  The loop over an annotation map: an option for every annotation that the resource
  carries, made from its value.
\<close>

definition annotation_options ::
  "('a \<Rightarrow> string \<Rightarrow> 'o) \<Rightarrow> (string \<times> 'a) list \<Rightarrow> unstructured \<Rightarrow> 'o list" where
  "annotation_options mk annots obj =
     concat (map (\<lambda>(name, annot).
       (case u_annotations obj name of Some v \<Rightarrow> [mk annot v] | None \<Rightarrow> [])) annots)"

definition max_history_option :: "int \<Rightarrow> 'w upgrade_option" where
  "max_history_option n u = Inr (u\<lparr>ua_max_history := n\<rparr>)"

definition dry_run_option :: "'w upgrade_option" where
  "dry_run_option u = Inr (u\<lparr>ua_dry_run := True, ua_dry_run_option := ''server''\<rparr>)"

definition install_options :: "'w runtime \<Rightarrow> unstructured \<Rightarrow> 'w install_option list" where
  "install_options r obj = annotation_options inst_InstallOption (rt_installAnnotations r) obj"

definition upgrade_options :: "'w runtime \<Rightarrow> unstructured \<Rightarrow> 'w upgrade_option list" where
  "upgrade_options r obj =
     (if rt_maxReleaseHistory r > 0 then [max_history_option (rt_maxReleaseHistory r)] else [])
     @ annotation_options up_UpgradeOption (rt_upgradeAnnotations r) obj"

definition uninstall_options :: "'w runtime \<Rightarrow> unstructured \<Rightarrow> uninstall_option list" where
  "uninstall_options r obj =
     annotation_options un_UninstallOption (rt_uninstallAnnotations r) obj"

section \<open>The steps of the loop\<close>

definition ensureDeployedRelease :: "release \<Rightarrow> UpdateStatusFunc list" where
  "ensureDeployedRelease rel =
     (let (reason, m) = (if rel_version rel > 1
            then (ReasonUpgradeSuccessful, ''release was successfully upgraded'')
            else (ReasonInstallSuccessful, ''release was successfully installed''));
          m' = (case rel_info rel of
                  Some info \<Rightarrow> if length (ri_notes info) > 0 then ri_notes info else m
                | None \<Rightarrow> m)
      in [EnsureCondition (Deployed ConditionTrue reason (MStr m')),
          EnsureDeployedRelease (Some rel)])"

text \<open>
  Right after the action client is there, the status is updated with the release that the
  cluster has; errors other than a missing release are ignored here.
\<close>

definition observe_release :: "'w action_interface \<Rightarrow> 'w frame \<Rightarrow> unit exit \<times> 'w frame" where
  "observe_release A f =
     (let ((rel, err), f1) = fcall EvGetRelease (ai_Get A (u_name (f_obj f)) []) f;
          initialized = collect [EnsureCondition (Initialized ConditionTrue [] (MStr []))]
      in if opt_Is err ErrReleaseNotFound
         then (Ret (), initialized
                 (collect [EnsureCondition (Deployed ConditionFalse [] (MStr []))] f1))
         else if err = None
         then (case rel of
                 None \<Rightarrow> (nil_deref, f1)
               | Some r \<Rightarrow> (Ret (), initialized (collect (ensureDeployedRelease r) f1)))
         else (Ret (), initialized f1))"

definition getValues :: "'w runtime \<Rightarrow> 'w env \<Rightarrow> 'w frame \<Rightarrow> (go_error + vals) \<times> 'w frame" where
  "getValues r E f =
     (case ApplyOverrides (e_values E) (rt_overrideValues r) (f_obj f) of
        (Some e, obj1) \<Rightarrow> (Inl e, f\<lparr>f_obj := obj1\<rparr>)
      | (None, obj1) \<Rightarrow>
          let ((res, obj2), f1) = fcall EvTranslate (rt_valueTranslator r obj1) (f\<lparr>f_obj := obj1\<rparr>);
              f2 = f1\<lparr>f_obj := obj2\<rparr>
          in (case res of
                Inl e \<Rightarrow> (Inl e, f2)
              | Inr vals0 \<Rightarrow> (e_CoalesceValues E (rt_chrt r) (rt_valueMapper r vals0), f2)))"

definition getReleaseState ::
  "'w runtime \<Rightarrow> 'w action_interface \<Rightarrow> vals \<Rightarrow> 'w frame
     \<Rightarrow> (release option \<times> helmReleaseState \<times> go_error option) exit \<times> 'w frame" where
  "getReleaseState r A vals0 f =
     (let obj = f_obj f;
          ((currentRelease, err), f1) = fcall EvGetRelease (ai_Get A (u_name obj) []) f
      in if err \<noteq> None \<and> \<not> opt_Is err ErrReleaseNotFound then (Ret (None, StateError, err), f1)
         else if opt_Is err ErrReleaseNotFound then (Ret (None, StateNeedsInstall, None), f1)
         else
           let ((specRelease, err2), f2) =
                 fcall EvDryRunUpgrade
                   (ai_Upgrade A (u_name obj) (u_namespace obj) (rt_chrt r) vals0
                      (upgrade_options r obj @ [dry_run_option])) f1
           in (case err2 of
                 Some e \<Rightarrow> (Ret (currentRelease, StateError, Some e), f2)
               | None \<Rightarrow>
                   (case (specRelease, currentRelease) of
                      (Some sr, Some cr) \<Rightarrow>
                        if rel_manifest sr \<noteq> rel_manifest cr
                        then (Ret (Some cr, StateNeedsUpgrade, None), f2)
                        else (case rel_info cr of
                                None \<Rightarrow> (nil_deref, f2)
                              | Some info \<Rightarrow>
                                  if ri_status info = StatusFailed \<or> ri_status info = StatusSuperseded
                                  then (Ret (Some cr, StateNeedsUpgrade, None), f2)
                                  else (Ret (Some cr, StateUnchanged, None), f2))
                    | _ \<Rightarrow> (nil_deref, f2))))"

fun reportOverrideEvents_loop :: "'w runtime \<Rightarrow> (string \<times> string) list \<Rightarrow> 'w frame \<Rightarrow> 'w frame" where
  "reportOverrideEvents_loop r [] f = f"
| "reportOverrideEvents_loop r ((k, v) # kvs) f =
     reportOverrideEvents_loop r kvs
       (snd (fcall (EvRecordEvent k v)
          (\<lambda>w. ((), rt_eventRecorder r (f_obj f) ''Warning'' ''ValueOverridden''
             (''Chart value '' @ quoted k @ '' overridden to '' @ quoted v @ '' by operator'') w)) f))"

definition reportOverrideEvents :: "'w runtime \<Rightarrow> 'w frame \<Rightarrow> 'w frame" where
  "reportOverrideEvents r f = reportOverrideEvents_loop r (rt_overrideValues r) f"

text \<open>The conditions that a failed Helm operation leaves.\<close>

definition release_failed :: "string \<Rightarrow> go_error \<Rightarrow> UpdateStatusFunc list" where
  "release_failed reason e =
     [EnsureCondition (Irreconcilable ConditionTrue ReasonReconcileError (MErr e)),
      EnsureCondition (ReleaseFailed ConditionTrue reason (MErr e))]"

definition doInstall ::
  "'w runtime \<Rightarrow> 'w action_interface \<Rightarrow> vals \<Rightarrow> 'w frame \<Rightarrow> (go_error + release) exit \<times> 'w frame" where
  "doInstall r A vals0 f =
     (let obj = f_obj f;
          ((rel, err), f1) = fcall EvInstall
             (ai_Install A (u_name obj) (u_namespace obj) (rt_chrt r) vals0 (install_options r obj)) f
      in (case err of
            Some e \<Rightarrow> (Ret (Inl e), collect (release_failed ReasonInstallError e) f1)
          | None \<Rightarrow>
              let f2 = reportOverrideEvents r f1
              in (case rel of None \<Rightarrow> (nil_deref, f2) | Some rl \<Rightarrow> (Ret (Inr rl), f2))))"

definition doUpgrade ::
  "'w runtime \<Rightarrow> 'w action_interface \<Rightarrow> vals \<Rightarrow> 'w frame \<Rightarrow> (go_error + release) exit \<times> 'w frame" where
  "doUpgrade r A vals0 f =
     (let obj = f_obj f;
          ((curRel, err), f1) = fcall EvGetRelease (ai_Get A (u_name obj) []) f
      in (case err of
            Some e \<Rightarrow> (Ret (Inl (ErrWrap ''could not get the current Helm Release: '' e)), f1)
          | None \<Rightarrow>
              let ((rel, err2), f2) = fcall EvUpgrade
                     (ai_Upgrade A (u_name obj) (u_namespace obj) (rt_chrt r) vals0 (upgrade_options r obj)) f1
              in (case err2 of
                    Some e \<Rightarrow> (Ret (Inl e), collect (release_failed ReasonUpgradeError e) f2)
                  | None \<Rightarrow>
                      let f3 = reportOverrideEvents r f2
                      in (case rel of None \<Rightarrow> (nil_deref, f3) | Some rl \<Rightarrow> (Ret (Inr rl), f3)))))"

definition doReconcile ::
  "'w action_interface \<Rightarrow> release \<Rightarrow> 'w frame \<Rightarrow> go_error option \<times> 'w frame" where
  "doReconcile A rel f =
     (let f1 = collect [EnsureCondition (ReleaseFailed ConditionFalse [] (MStr []))] f;
          (err, f2) = fcall EvReconcileRelease (ai_Reconcile A rel) f1
      in (case err of
            Some e \<Rightarrow> (Some e, collect
                [EnsureCondition (Irreconcilable ConditionTrue ReasonReconcileError (MErr e))] f2)
          | None \<Rightarrow> (None, f2)))"

section \<open>Deletion\<close>

definition uninstalled :: "'w kube_lib \<Rightarrow> 'w frame \<Rightarrow> 'w frame" where
  "uninstalled L f =
     collect [EnsureCondition (ReleaseFailed ConditionFalse [] (MStr [])),
              EnsureCondition (Deployed ConditionFalse ReasonUninstallSuccessful (MStr [])),
              RemoveDeployedRelease]
       (f\<lparr>f_u := Update [RemoveFinalizer L uninstallFinalizer] (f_u f)\<rparr>)"

definition doUninstall ::
  "'w runtime \<Rightarrow> 'w kube_lib \<Rightarrow> 'w action_interface \<Rightarrow> 'w frame \<Rightarrow> go_error option exit \<times> 'w frame" where
  "doUninstall r L A f =
     (let obj = f_obj f;
          ((resp, err), f1) = fcall EvUninstall (ai_Uninstall A (u_name obj) (uninstall_options r obj)) f
      in if opt_Is err ErrReleaseNotFound then (Ret None, uninstalled L f1)
         else (case err of
                 Some e \<Rightarrow> (Ret (Some e), collect (release_failed ReasonUninstallError e) f1)
               | None \<Rightarrow>
                   (case resp of
                      None \<Rightarrow> (nil_deref, f1)
                    | Some rs \<Rightarrow>
                        (case ur_release rs of
                           None \<Rightarrow> (nil_deref, f1)
                         | Some _ \<Rightarrow> (Ret None, uninstalled L f1)))))"

definition wait_deletion :: "'w runtime \<Rightarrow> 'w kube_lib \<Rightarrow> 'w frame \<Rightarrow> go_error option exit \<times> 'w frame" where
  "wait_deletion r L f =
     (let ((err, obj'), f1) = fcall EvWaitForDeletion
            (\<lambda>w. let (err, obj', w') = WaitForDeletion (rt_client r) L (rt_waitForDeletionTimeout r) (f_obj f, w)
                 in ((err, obj'), w')) f
      in (Ret err, f1\<lparr>f_obj := obj'\<rparr>))"

text \<open>
  The uninstall has an updater of its own, which is applied before the wait; the error of
  the uninstall goes before the error of its \<open>Apply\<close>.
\<close>

definition handleDeletion ::
  "'w runtime \<Rightarrow> 'w kube_lib \<Rightarrow> 'w action_interface \<Rightarrow> 'w frame \<Rightarrow> go_error option exit \<times> 'w frame" where
  "handleDeletion r L A f =
     (if ContainsFinalizer (f_obj f) uninstallFinalizer
      then
        let (out, g) = doUninstall r L A (f\<lparr>f_u := New_updater\<rparr>);
            ((applyErr, obj'), s') = Apply (rt_client r) L (f_u g) (f_obj g) (f_sys g);
            f1 = f\<lparr>f_obj := obj', f_sys := s'\<rparr>
        in (case out of
              Panic m \<Rightarrow> (Panic m, f1)
            | Ret err \<Rightarrow>
                (case (if err = None then applyErr else err) of
                   Some e \<Rightarrow> (Ret (Some e), f1)
                 | None \<Rightarrow> wait_deletion r L f1))
      else wait_deletion r L f)"

section \<open>The loop\<close>

text \<open>Hook errors are logged and otherwise ignored.\<close>

fun run_pre_hooks :: "'w pre_hook list \<Rightarrow> vals \<Rightarrow> 'w frame \<Rightarrow> vals \<times> 'w frame" where
  "run_pre_hooks [] vals0 f = (vals0, f)"
| "run_pre_hooks (h # hs) vals0 f =
     (let ((err, obj', vals'), f1) = fcall EvPreHook (h (f_obj f) vals0) f
      in run_pre_hooks hs vals' (f1\<lparr>f_obj := obj'\<rparr>))"

fun run_post_hooks :: "'w post_hook list \<Rightarrow> release \<Rightarrow> 'w frame \<Rightarrow> 'w frame" where
  "run_post_hooks [] rel f = f"
| "run_post_hooks (h # hs) rel f =
     (let ((err, obj'), f1) = fcall EvPostHook (h (f_obj f) rel) f
      in run_post_hooks hs rel (f1\<lparr>f_obj := obj'\<rparr>))"

type_synonym outcome = "(ctrl_result \<times> go_error option) exit"

definition fail_with :: "go_error \<Rightarrow> outcome" where
  "fail_with e = Ret (no_result, Some e)"

definition finish_release :: "'w runtime \<Rightarrow> release \<Rightarrow> 'w frame \<Rightarrow> outcome \<times> 'w frame" where
  "finish_release r rel f =
     (let f1 = run_post_hooks (rt_postHooks r) rel f
      in (Ret (\<lparr>requeue_after = rt_reconcilePeriod r\<rparr>, None),
          collect [EnsureCondition (ReleaseFailed ConditionFalse [] (MStr [])),
                   EnsureCondition (Irreconcilable ConditionFalse [] (MStr []))]
            (collect (ensureDeployedRelease rel) f1)))"

text \<open>The switch on the release state, and what follows it.\<close>

definition perform_state ::
  "'w runtime \<Rightarrow> 'w action_interface \<Rightarrow> vals \<Rightarrow> release option \<Rightarrow> helmReleaseState \<Rightarrow> 'w frame
     \<Rightarrow> outcome \<times> 'w frame" where
  "perform_state r A vals0 rel state f =
     (case state of
        StateNeedsInstall \<Rightarrow>
          (case doInstall r A vals0 f of
             (Panic m, f1) \<Rightarrow> (Panic m, f1)
           | (Ret (Inl e), f1) \<Rightarrow> (fail_with e, f1)
           | (Ret (Inr rl), f1) \<Rightarrow> finish_release r rl f1)
      | StateNeedsUpgrade \<Rightarrow>
          (case doUpgrade r A vals0 f of
             (Panic m, f1) \<Rightarrow> (Panic m, f1)
           | (Ret (Inl e), f1) \<Rightarrow> (fail_with e, f1)
           | (Ret (Inr rl), f1) \<Rightarrow> finish_release r rl f1)
      | StateUnchanged \<Rightarrow>
          (case rel of
             None \<Rightarrow> (nil_deref, f)
           | Some rl \<Rightarrow>
               (case doReconcile A rl f of
                  (Some e, f1) \<Rightarrow> (fail_with e, f1)
                | (None, f1) \<Rightarrow> finish_release r rl f1))
      | StateError \<Rightarrow> (fail_with (ErrMsg (''unexpected release state: '' @ state_text StateError)), f))"

definition reconcile_release ::
  "'w runtime \<Rightarrow> 'w env \<Rightarrow> 'w action_interface \<Rightarrow> 'w frame \<Rightarrow> outcome \<times> 'w frame" where
  "reconcile_release r E A f =
     (case getValues r E f of
        (Inl e, f1) \<Rightarrow>
          (fail_with e, collect
             [EnsureCondition (Irreconcilable ConditionTrue ReasonErrorGettingValues (MErr e)),
              EnsureConditionUnknown TypeReleaseFailed] f1)
      | (Inr vals0, f1) \<Rightarrow>
          (case getReleaseState r A vals0 f1 of
             (Panic m, f2) \<Rightarrow> (Panic m, f2)
           | (Ret (rel, state, Some e), f2) \<Rightarrow>
               (fail_with e, collect
                  [EnsureCondition (Irreconcilable ConditionTrue ReasonErrorGettingReleaseState (MErr e)),
                   EnsureConditionUnknown TypeReleaseFailed,
                   EnsureConditionUnknown TypeDeployed,
                   EnsureDeployedRelease None] f2)
           | (Ret (rel, state, None), f2) \<Rightarrow>
               let f3 = collect [EnsureCondition (Irreconcilable ConditionFalse [] (MStr []))] f2;
                   (vals1, f4) = run_pre_hooks (rt_preHooks r) vals0 f3
               in perform_state r A vals1 rel state f4))"

text \<open>The body from the point where the resource is known not to be paused.\<close>

definition reconcile_unpaused :: "'w runtime \<Rightarrow> 'w env \<Rightarrow> 'w frame \<Rightarrow> outcome \<times> 'w frame" where
  "reconcile_unpaused r E f0 =
     (let f = collect [EnsureCondition (Paused ConditionFalse [] (MStr []))] f0
      in (case fcall EvActionClientFor (rt_actionClientGetter r (f_obj f)) f of
            (Inl e, f1) \<Rightarrow>
              (fail_with e, collect
                 [EnsureCondition (Irreconcilable ConditionTrue ReasonErrorGettingClient (MErr e)),
                  EnsureConditionUnknown TypeDeployed,
                  EnsureConditionUnknown TypeInitialized,
                  EnsureConditionUnknown TypeReleaseFailed,
                  EnsureDeployedRelease None] f1)
          | (Inr A, f1) \<Rightarrow>
              (case observe_release A f1 of
                 (Panic m, f2) \<Rightarrow> (Panic m, f2)
               | (Ret _, f2) \<Rightarrow>
                   if u_deletion_timestamp (f_obj f2) \<noteq> None
                   then (case handleDeletion r (e_lib E) A f2 of
                           (Panic m, f3) \<Rightarrow> (Panic m, f3)
                         | (Ret (Some e), f3) \<Rightarrow> (fail_with e, f3)
                         | (Ret None, f3) \<Rightarrow> (Ret (no_result, None), f3\<lparr>f_u := CancelUpdates (f_u f3)\<rparr>))
                   else reconcile_release r E A f2)))"

definition paused_status :: "UpdateStatusFunc list" where
  "paused_status =
     [EnsureCondition (Paused ConditionTrue ReasonPauseReconcileAnnotationTrue (MStr [])),
      EnsureConditionUnknown TypeIrreconcilable,
      EnsureConditionUnknown TypeDeployed,
      EnsureConditionUnknown TypeInitialized,
      EnsureConditionUnknown TypeReleaseFailed,
      EnsureDeployedRelease None]"

text \<open>An error of the pause handler is logged; its answer counts all the same.\<close>

definition reconcile_body :: "'w runtime \<Rightarrow> 'w env \<Rightarrow> 'w frame \<Rightarrow> outcome \<times> 'w frame" where
  "reconcile_body r E f =
     (case rt_pauseHandler r of
        None \<Rightarrow> reconcile_unpaused r E f
      | Some handler \<Rightarrow>
          let (((paused, herr), obj'), f1) = fcall EvPauseHandler (handler (f_obj f)) f;
              f2 = f1\<lparr>f_obj := obj'\<rparr>
          in if paused then (Ret (no_result, None), collect paused_status f2)
             else reconcile_unpaused r E f2)"

definition new_object :: "gvk \<Rightarrow> unstructured" where
  "new_object g =
     \<lparr>u_gvk = g, u_name = [], u_namespace = [], u_uid = [], u_annotations = Map.empty,
      u_finalizers = [], u_deletion_timestamp = None, u_resource_version = [], u_owner_refs = [],
      u_managed_fields = None, u_spec = None, u_status = StAbsent, u_body = []\<rparr>"

definition io_call ::
  "event \<Rightarrow> 'w io \<Rightarrow> unstructured \<Rightarrow> 'w sys \<Rightarrow> (go_error option \<times> unstructured) \<times> 'w sys" where
  "io_call ev g obj s = call ev (\<lambda>w. let (err, obj', w') = g (obj, w) in ((err, obj'), w')) s"

definition needs_finalizer :: "unstructured \<Rightarrow> bool" where
  "needs_finalizer obj \<longleftrightarrow>
     u_deletion_timestamp obj = None \<and> \<not> ContainsFinalizer obj uninstallFinalizer"

definition add_finalizer :: "unstructured \<Rightarrow> unstructured" where
  "add_finalizer obj = obj\<lparr>u_finalizers := u_finalizers obj @ [uninstallFinalizer]\<rparr>"

text \<open>The body with its deferred \<open>Apply\<close>.\<close>

definition reconcile_deferred ::
  "'w runtime \<Rightarrow> 'w env \<Rightarrow> unstructured \<Rightarrow> 'w sys \<Rightarrow> outcome \<times> 'w sys" where
  "reconcile_deferred r E obj s =
     (let (out, f) = reconcile_body r E \<lparr>f_obj = obj, f_u = New_updater, f_sys = s\<rparr>;
          ((applyErr, obj'), s') = Apply (rt_client r) (e_lib E) (f_u f) (f_obj f) (f_sys f)
      in (case out of
            Panic m \<Rightarrow> (Panic m, s')
          | Ret (res, err) \<Rightarrow>
              (Ret (res, if err = None \<and> \<not> (case applyErr of None \<Rightarrow> False | Some e \<Rightarrow> IsNotFound e)
                         then applyErr else err), s')))"

definition Reconcile ::
  "'w runtime \<Rightarrow> 'w env \<Rightarrow> namespaced_name \<Rightarrow> 'w sys \<Rightarrow> outcome \<times> 'w sys" where
  "Reconcile r E req s =
     (case io_call EvGetCR (kc_get (rt_client r) req) (new_object (rt_gvk r)) s of
        ((Some e, _), s1) \<Rightarrow> if IsNotFound e then (Ret (no_result, None), s1) else (fail_with e, s1)
      | ((None, obj), s1) \<Rightarrow>
          if needs_finalizer obj
          then (case io_call EvAddFinalizer (kc_update (rt_client r)) (add_finalizer obj) s1 of
                  ((Some e, _), s2) \<Rightarrow>
                    (fail_with (ErrWrap (''failed to add uninstall finalizer to '' @ fst req @ ''/''
                       @ snd req @ '': '') e), s2)
                | ((None, obj1), s2) \<Rightarrow> reconcile_deferred r E obj1 s2)
          else reconcile_deferred r E obj s1)"

end
