(* ===== verification/ReconcileFacts.thy ===== *)
theory ReconcileFacts
  imports Reconcile
begin

text \<open>
  Lemmas about the reconcile loop: for every step, the calls it can make and the status
  changes it collects; then the facts about whole runs that the properties state.
\<close>

named_theorems step_facts "every step of the loop is a frame step with the given events"

section \<open>Frame steps\<close>

lemma fcall_eqD:
  assumes "fcall ev g f = (r, f')"
  shows "f_obj f' = f_obj f" and "f_u f' = f_u f"
    and "calls (f_sys f') = calls (f_sys f) @ [ev]"
    and "g (world (f_sys f)) = (r, world (f_sys f'))"
  using assms by (auto simp: fcall_def dest: call_eqD split: prod.splits)

lemma collect_fields [simp]:
  "f_obj (collect fs f) = f_obj f" "f_sys (collect fs f) = f_sys f"
  "f_u (collect fs f) = UpdateStatus fs (f_u f)"
  by (simp_all add: collect_def)

text \<open>
  Once the release has been observed, the loop only writes the three conditions about the
  release and the deployed release itself.
\<close>

fun release_write :: "status_write \<Rightarrow> bool" where
  "release_write (WCond c) \<longleftrightarrow> cond_type c \<in> {TypeDeployed, TypeReleaseFailed, TypeIrreconcilable}"
| "release_write (WRel _) \<longleftrightarrow> True"

definition are_writes :: "UpdateStatusFunc list \<Rightarrow> bool" where
  "are_writes fs \<longleftrightarrow> (\<forall>f \<in> set fs. \<exists>w. f = write_func w \<and> release_write w)"

lemma are_writes_map: "are_writes fs \<longleftrightarrow> (\<exists>ws. fs = map write_func ws \<and> (\<forall>w \<in> set ws. release_write w))"
proof (induction fs)
  case Nil
  then show ?case by (simp add: are_writes_def)
next
  case (Cons f fs)
  show ?case
  proof
    assume l: "are_writes (f # fs)"
    then obtain w where w: "f = write_func w" "release_write w" by (auto simp: are_writes_def)
    from l have "are_writes fs" by (simp add: are_writes_def)
    with Cons obtain ws where "fs = map write_func ws" "\<forall>w \<in> set ws. release_write w" by blast
    with w show "\<exists>ws. f # fs = map write_func ws \<and> (\<forall>w \<in> set ws. release_write w)"
      by (intro exI [of _ "w # ws"]) simp
  next
    assume "\<exists>ws. f # fs = map write_func ws \<and> (\<forall>w \<in> set ws. release_write w)"
    then show "are_writes (f # fs)" unfolding are_writes_def by fastforce
  qed
qed

lemma condition_ctor_types [simp]:
  "cond_type (Initialized s r m) = TypeInitialized" "cond_type (Deployed s r m) = TypeDeployed"
  "cond_type (ReleaseFailed s r m) = TypeReleaseFailed"
  "cond_type (Irreconcilable s r m) = TypeIrreconcilable" "cond_type (Paused s r m) = TypePaused"
  by (simp_all add: condition_ctor_defs)

lemma condition_ctor_fields [simp]:
  "cond_status (Initialized s r m) = s" "cond_status (Deployed s r m) = s"
  "cond_status (ReleaseFailed s r m) = s" "cond_status (Irreconcilable s r m) = s"
  "cond_status (Paused s r m) = s"
  "cond_message (Irreconcilable s r m) = sprint_message m"
  "cond_reason (Irreconcilable s r m) = r"
  by (simp_all add: condition_ctor_defs)

lemma is_release_write:
  "cond_type c \<in> {TypeDeployed, TypeReleaseFailed, TypeIrreconcilable} \<Longrightarrow>
     \<exists>w. EnsureCondition c = write_func w \<and> release_write w"
  "t \<in> {TypeDeployed, TypeReleaseFailed, TypeIrreconcilable} \<Longrightarrow>
     \<exists>w. EnsureConditionUnknown t = write_func w \<and> release_write w"
  "\<exists>w. EnsureDeployedRelease r = write_func w \<and> release_write w"
  by (rule exI [of _ "WCond c"], simp)
     (rule exI [of _ "WCond (unknown_condition t)"],
      simp add: EnsureConditionUnknown_write unknown_condition_def,
      rule exI [of _ "WRel r"], simp)

lemma are_writes_simps [simp]:
  "are_writes []"
  "cond_type c \<in> {TypeDeployed, TypeReleaseFailed, TypeIrreconcilable} \<Longrightarrow>
     are_writes (EnsureCondition c # fs) \<longleftrightarrow> are_writes fs"
  "t \<in> {TypeDeployed, TypeReleaseFailed, TypeIrreconcilable} \<Longrightarrow>
     are_writes (EnsureConditionUnknown t # fs) \<longleftrightarrow> are_writes fs"
  "are_writes (EnsureDeployedRelease r # fs) \<longleftrightarrow> are_writes fs"
  "are_writes (fs @ gs) \<longleftrightarrow> are_writes fs \<and> are_writes gs"
  unfolding are_writes_def using is_release_write by auto

text \<open>
  A step adds events of a given set, collects status writes, and leaves the object
  functions and the cancellation of the updater alone.
\<close>

definition frame_step :: "event set \<Rightarrow> 'w frame \<Rightarrow> 'w frame \<Rightarrow> bool" where
  "frame_step A f f' \<longleftrightarrow> adds A (f_sys f) (f_sys f')
     \<and> (\<exists>fs. updateStatusFuncs (f_u f') = updateStatusFuncs (f_u f) @ fs \<and> are_writes fs)
     \<and> updateFuncs (f_u f') = updateFuncs (f_u f) \<and> isCanceled (f_u f') = isCanceled (f_u f)"

text \<open>The same without a claim on the status.\<close>

definition frame_ok :: "event set \<Rightarrow> 'w frame \<Rightarrow> 'w frame \<Rightarrow> bool" where
  "frame_ok A f f' \<longleftrightarrow> adds A (f_sys f) (f_sys f') \<and> updateFuncs (f_u f') = updateFuncs (f_u f)"

lemma frame_ok_step: "frame_step A f g \<Longrightarrow> frame_ok A f g"
  by (simp add: frame_step_def frame_ok_def)

lemma frame_ok_chain:
  assumes "frame_ok A f g" and "frame_ok B g h" and "A \<subseteq> C" and "B \<subseteq> C"
  shows "frame_ok C f h"
  using assms adds_trans [of C "f_sys f" "f_sys g" "f_sys h"]
  by (auto simp: frame_ok_def dest: adds_mono)

lemma frame_ok_collect: "frame_ok A f g \<Longrightarrow> frame_ok A f (collect fs g)"
  by (simp add: frame_ok_def)

lemma frame_step_refl [simp, intro]: "frame_step A f f"
  by (auto simp: frame_step_def)

lemma frame_step_trans [trans]:
  assumes "frame_step A f g" and "frame_step A g h"
  shows "frame_step A f h"
  using assms adds_trans [of A "f_sys f" "f_sys g" "f_sys h"]
  unfolding frame_step_def by force

lemma frame_step_mono: "frame_step A f g \<Longrightarrow> A \<subseteq> B \<Longrightarrow> frame_step B f g"
  by (auto simp: frame_step_def intro: adds_mono)

lemma frame_step_chain:
  assumes "frame_step A f g" and "frame_step B g h" and "A \<subseteq> C" and "B \<subseteq> C"
  shows "frame_step C f h"
  using frame_step_trans [OF frame_step_mono [OF assms(1,3)] frame_step_mono [OF assms(2,4)]] .

lemma fcall_step: "fcall ev g f = (r, f') \<Longrightarrow> frame_step {ev} f f'"
  by (auto simp: frame_step_def adds_def dest: fcall_eqD)

lemma frame_step_obj: "frame_step A f g \<Longrightarrow> frame_step A f (g\<lparr>f_obj := obj\<rparr>)"
  by (simp add: frame_step_def)

lemma frame_step_obj_left: "frame_step A (f\<lparr>f_obj := obj\<rparr>) g \<Longrightarrow> frame_step A f g"
  by (simp add: frame_step_def)

lemma collect_step: "are_writes fs \<Longrightarrow> frame_step A f (collect fs f)"
  by (simp add: frame_step_def)

lemma frame_step_collect: "frame_step A f g \<Longrightarrow> are_writes fs \<Longrightarrow> frame_step A f (collect fs g)"
  by (blast intro: frame_step_trans collect_step)

lemma ensureDeployedRelease_writes [simp]: "are_writes (ensureDeployedRelease rel)"
  by (simp add: ensureDeployedRelease_def Let_def split: prod.splits)

lemma release_failed_writes [simp]: "are_writes (release_failed reason e)"
  by (simp add: release_failed_def)

section \<open>The events of each step\<close>

definition override_events :: "event set" where
  "override_events = range (\<lambda>(k, v). EvRecordEvent k v)"

lemma observe_release_step:
  assumes "observe_release A f = (out, f')"
  shows "frame_ok {EvGetRelease} f f'" and "f_obj f' = f_obj f"
    and "isCanceled (f_u f') = isCanceled (f_u f)"
    and "out = Ret () \<Longrightarrow> \<exists>fs. are_writes fs \<and>
       updateStatusFuncs (f_u f') = updateStatusFuncs (f_u f) @ fs
         @ [EnsureCondition (Initialized ConditionTrue [] (MStr []))]"
proof -
  obtain rel err f1 where c: "fcall EvGetRelease (ai_Get A (u_name (f_obj f)) []) f = ((rel, err), f1)"
    by (metis surj_pair)
  have s: "frame_ok {EvGetRelease} f f1" by (rule frame_ok_step [OF fcall_step [OF c]])
  have o1: "f_obj f1 = f_obj f" "f_u f1 = f_u f" using fcall_eqD(1,2) [OF c] by simp_all
  let ?init = "[EnsureCondition (Initialized ConditionTrue [] (MStr []))]"
  have "f' = f1 \<and> out \<noteq> Ret () \<or> (\<exists>fs. are_writes fs \<and> f' = collect ?init (collect fs f1))
      \<or> f' = collect ?init f1"
  proof (cases "opt_Is err ErrReleaseNotFound")
    case True
    with assms have "f' = collect ?init (collect [EnsureCondition (Deployed ConditionFalse [] (MStr []))] f1)"
      by (simp add: observe_release_def c Let_def)
    moreover have "are_writes [EnsureCondition (Deployed ConditionFalse [] (MStr []))]" by simp
    ultimately show ?thesis by blast
  next
    case False
    show ?thesis
    proof (cases "err = None \<and> rel \<noteq> None")
      case True
      with False assms have "f' = collect ?init (collect (ensureDeployedRelease (the rel)) f1)"
        by (auto simp: observe_release_def c Let_def)
      with ensureDeployedRelease_writes show ?thesis by blast
    next
      case none: False
      with False assms show ?thesis
        by (auto simp: observe_release_def c Let_def split: if_splits)
    qed
  qed
  then consider "f' = f1" "out \<noteq> Ret ()" | fs where "are_writes fs" "f' = collect ?init (collect fs f1)"
    | "f' = collect ?init f1" by blast
  then have "frame_ok {EvGetRelease} f f' \<and> f_obj f' = f_obj f \<and> isCanceled (f_u f') = isCanceled (f_u f)
    \<and> (out = Ret () \<longrightarrow> (\<exists>fs. are_writes fs \<and> updateStatusFuncs (f_u f') = updateStatusFuncs (f_u f) @ fs @ ?init))"
    using s o1 are_writes_simps(1) by cases (auto intro!: frame_ok_collect)
  then show "frame_ok {EvGetRelease} f f'" and "f_obj f' = f_obj f"
    and "isCanceled (f_u f') = isCanceled (f_u f)"
    and "out = Ret () \<Longrightarrow> \<exists>fs. are_writes fs \<and>
       updateStatusFuncs (f_u f') = updateStatusFuncs (f_u f) @ fs @ ?init"
    by blast+
qed

lemma getValues_step [step_facts]:
  assumes "getValues r E f = (out, f')"
  shows "frame_step {EvTranslate} f f'"
proof -
  obtain err obj1 where o: "ApplyOverrides (e_values E) (rt_overrideValues r) (f_obj f) = (err, obj1)"
    by fastforce
  obtain res obj2 f1 where
    c: "fcall EvTranslate (rt_valueTranslator r obj1) (f\<lparr>f_obj := obj1\<rparr>) = ((res, obj2), f1)"
    by (metis surj_pair)
  from fcall_step [OF c] have s: "frame_step {EvTranslate} f f1" by (rule frame_step_obj_left)
  show ?thesis
    using assms s
    by (cases err; cases res) (auto simp: getValues_def o c intro!: frame_step_obj)
qed

lemma getReleaseState_step [step_facts]:
  assumes "getReleaseState r A vals0 f = (out, f')"
  shows "frame_step {EvGetRelease, EvDryRunUpgrade} f f'" and "f_obj f' = f_obj f"
    and "f_u f' = f_u f"
proof -
  obtain cur err f1 where c: "fcall EvGetRelease (ai_Get A (u_name (f_obj f)) []) f = ((cur, err), f1)"
    by (metis surj_pair)
  obtain spec err2 f2 where d: "fcall EvDryRunUpgrade
      (ai_Upgrade A (u_name (f_obj f)) (u_namespace (f_obj f)) (rt_chrt r) vals0
         (upgrade_options r (f_obj f) @ [dry_run_option])) f1 = ((spec, err2), f2)"
    by (metis surj_pair)
  have f': "f' = f1 \<or> f' = f2"
    using assms
    by (auto simp: getReleaseState_def c d Let_def split: if_splits option.splits)
  have s1: "frame_step {EvGetRelease, EvDryRunUpgrade} f f1"
    by (rule frame_step_mono [OF fcall_step [OF c]]) simp
  have s2: "frame_step {EvGetRelease, EvDryRunUpgrade} f f2"
    by (rule frame_step_chain [OF fcall_step [OF c] fcall_step [OF d]]) simp_all
  show "frame_step {EvGetRelease, EvDryRunUpgrade} f f'" using f' s1 s2 by auto
  show "f_obj f' = f_obj f" "f_u f' = f_u f"
    using f' fcall_eqD(1,2) [OF c] fcall_eqD(1,2) [OF d] by auto
qed

lemma reportOverrideEvents_loop_step:
  "frame_step override_events f (reportOverrideEvents_loop r kvs f)
     \<and> f_obj (reportOverrideEvents_loop r kvs f) = f_obj f
     \<and> f_u (reportOverrideEvents_loop r kvs f) = f_u f"
proof (induction r kvs f rule: reportOverrideEvents_loop.induct)
  case (1 r f)
  then show ?case by simp
next
  case (2 r k v kvs f)
  let ?g = "\<lambda>w. ((), rt_eventRecorder r (f_obj f) ''Warning'' ''ValueOverridden''
             (''Chart value '' @ quoted k @ '' overridden to '' @ quoted v @ '' by operator'') w)"
  let ?f1 = "snd (fcall (EvRecordEvent k v) ?g f)"
  have c: "fcall (EvRecordEvent k v) ?g f = ((), ?f1)" by (rule prod_eqI) simp_all
  have s1: "frame_step override_events f ?f1"
    by (rule frame_step_mono [OF fcall_step [OF c]]) (auto simp: override_events_def)
  have eq: "reportOverrideEvents_loop r ((k, v) # kvs) f = reportOverrideEvents_loop r kvs ?f1"
    by simp
  from 2 have ih: "frame_step override_events ?f1 (reportOverrideEvents_loop r kvs ?f1)"
    "f_obj (reportOverrideEvents_loop r kvs ?f1) = f_obj ?f1"
    "f_u (reportOverrideEvents_loop r kvs ?f1) = f_u ?f1"
    by blast+
  show ?case
    unfolding eq ih(2,3) fcall_eqD(1,2) [OF c]
    by (intro conjI refl frame_step_trans [OF s1 ih(1)])
qed

lemma reportOverrideEvents_step:
  "frame_step override_events f (reportOverrideEvents r f)"
  "f_obj (reportOverrideEvents r f) = f_obj f" "f_u (reportOverrideEvents r f) = f_u f"
  using reportOverrideEvents_loop_step [of f r "rt_overrideValues r"]
  by (simp_all add: reportOverrideEvents_def)

lemma doInstall_step [step_facts]:
  assumes "doInstall r A vals0 f = (out, f')"
  shows "frame_step ({EvInstall} \<union> override_events) f f'"
proof -
  obtain rel err f1 where c: "fcall EvInstall (ai_Install A (u_name (f_obj f)) (u_namespace (f_obj f))
      (rt_chrt r) vals0 (install_options r (f_obj f))) f = ((rel, err), f1)"
    by (metis surj_pair)
  have s1: "frame_step ({EvInstall} \<union> override_events) f f1"
    by (rule frame_step_mono [OF fcall_step [OF c]]) simp
  have s2: "frame_step ({EvInstall} \<union> override_events) f (reportOverrideEvents r f1)"
    by (rule frame_step_chain [OF s1 reportOverrideEvents_step(1)]) auto
  have "f' = collect (release_failed ReasonInstallError (the err)) f1 \<or> f' = reportOverrideEvents r f1"
    using assms by (auto simp: doInstall_def c Let_def split: option.splits)
  then show ?thesis using frame_step_collect [OF s1] s2 by auto
qed

lemma doUpgrade_step [step_facts]:
  assumes "doUpgrade r A vals0 f = (out, f')"
  shows "frame_step ({EvGetRelease, EvUpgrade} \<union> override_events) f f'"
proof -
  let ?A = "{EvGetRelease, EvUpgrade} \<union> override_events"
  obtain cur err f1 where c: "fcall EvGetRelease (ai_Get A (u_name (f_obj f)) []) f = ((cur, err), f1)"
    by (metis surj_pair)
  obtain rel err2 f2 where d: "fcall EvUpgrade (ai_Upgrade A (u_name (f_obj f)) (u_namespace (f_obj f))
      (rt_chrt r) vals0 (upgrade_options r (f_obj f))) f1 = ((rel, err2), f2)"
    by (metis surj_pair)
  have s1: "frame_step ?A f f1"
    by (rule frame_step_mono [OF fcall_step [OF c]]) simp
  have s2: "frame_step ?A f f2"
    by (rule frame_step_chain [OF s1 fcall_step [OF d]]) simp_all
  have s3: "frame_step ?A f (reportOverrideEvents r f2)"
    by (rule frame_step_chain [OF s2 reportOverrideEvents_step(1)]) auto
  have "f' = f1 \<or> f' = collect (release_failed ReasonUpgradeError (the err2)) f2
      \<or> f' = reportOverrideEvents r f2"
    using assms by (auto simp: doUpgrade_def c d Let_def split: option.splits)
  then show ?thesis using frame_step_collect [OF s2] s1 s3 by auto
qed

lemma doReconcile_step [step_facts]:
  assumes "doReconcile A rel f = (err, f')"
  shows "frame_step {EvReconcileRelease} f f'"
proof -
  let ?f0 = "collect [EnsureCondition (ReleaseFailed ConditionFalse [] (MStr []))] f"
  obtain e f2 where c: "fcall EvReconcileRelease (ai_Reconcile A rel) ?f0 = (e, f2)"
    by (metis surj_pair)
  have "frame_step {EvReconcileRelease} f ?f0" by (rule collect_step) simp
  from frame_step_trans [OF this fcall_step [OF c]]
  show ?thesis
    using assms by (auto simp: doReconcile_def c intro!: frame_step_collect split: option.splits)
qed

lemma run_pre_hooks_step: "frame_step {EvPreHook} f (snd (run_pre_hooks hs vals0 f))"
proof (induction hs vals0 f rule: run_pre_hooks.induct)
  case (1 vals0 f)
  then show ?case by simp
next
  case (2 h hs vals0 f)
  obtain err obj' vals' f1 where c: "fcall EvPreHook (h (f_obj f) vals0) f = ((err, obj', vals'), f1)"
    by (metis surj_pair)
  from 2 [OF c [symmetric] refl refl] c
  show ?case
    by (auto intro: frame_step_trans [OF frame_step_obj [OF fcall_step [OF c]]])
qed

lemma run_post_hooks_step: "frame_step {EvPostHook} f (run_post_hooks hs rel f)"
proof (induction hs rel f rule: run_post_hooks.induct)
  case (1 rel f)
  then show ?case by simp
next
  case (2 h hs rel f)
  obtain err obj' f1 where c: "fcall EvPostHook (h (f_obj f) rel) f = ((err, obj'), f1)"
    by (metis surj_pair)
  from 2 [OF c [symmetric] refl] c
  show ?case
    by (auto intro: frame_step_trans [OF frame_step_obj [OF fcall_step [OF c]]])
qed

lemma finish_release_step [step_facts]:
  assumes "finish_release r rel f = (out, f')"
  shows "frame_step {EvPostHook} f f'"
  using assms
  by (auto simp: finish_release_def Let_def intro!: frame_step_collect run_post_hooks_step)

definition perform_events :: "event set" where
  "perform_events =
     {EvInstall, EvGetRelease, EvUpgrade, EvReconcileRelease, EvPostHook} \<union> override_events"

lemma finish_after:
  assumes "frame_step A f f1" and "A \<subseteq> perform_events" and "finish_release r rl f1 = (out, f')"
  shows "frame_step perform_events f f'"
  by (rule frame_step_chain [OF assms(1) finish_release_step [OF assms(3)] assms(2)])
     (simp add: perform_events_def)

lemma perform_state_step [step_facts]:
  assumes "perform_state r A vals0 rel state f = (out, f')"
  shows "frame_step perform_events f f'"
proof (cases state)
  case StateNeedsInstall
  obtain o1 f1 where i: "doInstall r A vals0 f = (o1, f1)" by (metis surj_pair)
  have sub: "{EvInstall} \<union> override_events \<subseteq> perform_events" by (auto simp: perform_events_def)
  note s1 = doInstall_step [OF i]
  have "f' = f1 \<or> (\<exists>rl. finish_release r rl f1 = (out, f'))"
    using assms i StateNeedsInstall
    by (simp add: perform_state_def split: exit.splits sum.splits) blast
  then show ?thesis using frame_step_mono [OF s1 sub] finish_after [OF s1 sub] by blast
next
  case StateNeedsUpgrade
  obtain o1 f1 where i: "doUpgrade r A vals0 f = (o1, f1)" by (metis surj_pair)
  have sub: "{EvGetRelease, EvUpgrade} \<union> override_events \<subseteq> perform_events"
    by (auto simp: perform_events_def)
  note s1 = doUpgrade_step [OF i]
  have "f' = f1 \<or> (\<exists>rl. finish_release r rl f1 = (out, f'))"
    using assms i StateNeedsUpgrade
    by (simp add: perform_state_def split: exit.splits sum.splits) blast
  then show ?thesis using frame_step_mono [OF s1 sub] finish_after [OF s1 sub] by blast
next
  case StateUnchanged
  show ?thesis
  proof (cases rel)
    case None
    with assms StateUnchanged show ?thesis by (simp add: perform_state_def)
  next
    case (Some rl)
    obtain e f1 where i: "doReconcile A rl f = (e, f1)" by (metis surj_pair)
    have sub: "{EvReconcileRelease} \<subseteq> perform_events" by (simp add: perform_events_def)
    note s1 = doReconcile_step [OF i]
    have "f' = f1 \<or> finish_release r rl f1 = (out, f')"
      using assms i StateUnchanged Some
      by (simp add: perform_state_def split: option.splits) 
    then show ?thesis using frame_step_mono [OF s1 sub] finish_after [OF s1 sub] by blast
  qed
next
  case StateError
  with assms show ?thesis by (simp add: perform_state_def)
qed

definition release_events :: "event set" where
  "release_events = {EvTranslate, EvDryRunUpgrade, EvPreHook} \<union> perform_events"

lemma reconcile_release_step [step_facts]:
  assumes "reconcile_release r E A f = (out, f')"
  shows "frame_step release_events f f'"
proof -
  obtain v f1 where v: "getValues r E f = (v, f1)" by (metis surj_pair)
  have s1: "frame_step release_events f f1"
    by (rule frame_step_mono [OF getValues_step [OF v]]) (simp add: release_events_def)
  show ?thesis
  proof (cases v)
    case (Inl e)
    with assms v have "f' = collect
        [EnsureCondition (Irreconcilable ConditionTrue ReasonErrorGettingValues (MErr e)),
         EnsureConditionUnknown TypeReleaseFailed] f1"
      by (simp add: reconcile_release_def)
    with frame_step_collect [OF s1] show ?thesis by simp
  next
    case (Inr vals0)
    obtain st f2 where st: "getReleaseState r A vals0 f1 = (st, f2)" by (metis surj_pair)
    have s2: "frame_step release_events f f2"
      by (rule frame_step_chain [OF s1 getReleaseState_step(1) [OF st]])
         (auto simp: release_events_def perform_events_def)
    show ?thesis
    proof (cases st)
      case (Panic m)
      with assms v Inr st s2 show ?thesis by (auto simp: reconcile_release_def)
    next
      case (Ret x)
      obtain rel state err where x: "x = (rel, state, err)" by (metis surj_pair)
      show ?thesis
      proof (cases err)
        case (Some e)
        with assms v Inr st Ret x have "f' = collect
            [EnsureCondition (Irreconcilable ConditionTrue ReasonErrorGettingReleaseState (MErr e)),
             EnsureConditionUnknown TypeReleaseFailed, EnsureConditionUnknown TypeDeployed,
             EnsureDeployedRelease None] f2"
          by (simp add: reconcile_release_def)
        with frame_step_collect [OF s2] show ?thesis by simp
      next
        case None
        let ?f3 = "collect [EnsureCondition (Irreconcilable ConditionFalse [] (MStr []))] f2"
        obtain vals1 f4 where h: "run_pre_hooks (rt_preHooks r) vals0 ?f3 = (vals1, f4)"
          by (metis surj_pair)
        have s3: "frame_step release_events f ?f3"
          by (rule frame_step_collect [OF s2]) simp
        have s4: "frame_step release_events f f4"
          using run_pre_hooks_step [of ?f3 "rt_preHooks r" vals0]
          by (intro frame_step_chain [OF s3, of "{EvPreHook}"]) (auto simp: h release_events_def)
        have "perform_state r A vals1 rel state f4 = (out, f')"
          using assms v Inr st Ret x None h by (simp add: reconcile_release_def)
        from perform_state_step [OF this] show ?thesis
          by (rule frame_step_chain [OF s4]) (auto simp: release_events_def)
      qed
    qed
  qed
qed

section \<open>Deletion\<close>

text \<open>What an uninstall collects, and when.\<close>

lemma doUninstall_cases:
  assumes "doUninstall r L A f = (out, f')"
  obtains (removed) resp err f1 where
      "fcall EvUninstall (ai_Uninstall A (u_name (f_obj f)) (uninstall_options r (f_obj f))) f
         = ((resp, err), f1)"
      "err = None \<or> opt_Is err ErrReleaseNotFound" "out = Ret None" "f' = uninstalled L f1"
  | (failed) resp e f1 where
      "fcall EvUninstall (ai_Uninstall A (u_name (f_obj f)) (uninstall_options r (f_obj f))) f
         = ((resp, Some e), f1)"
      "\<not> errors_Is e ErrReleaseNotFound" "out = Ret (Some e)"
      "f' = collect (release_failed ReasonUninstallError e) f1"
  | (panic) resp f1 where
      "fcall EvUninstall (ai_Uninstall A (u_name (f_obj f)) (uninstall_options r (f_obj f))) f
         = ((resp, None), f1)"
      "resp = None \<or> (\<exists>rs. resp = Some rs \<and> ur_release rs = None)"
      "out = nil_deref" "f' = f1"
proof -
  obtain resp err f1 where
    c: "fcall EvUninstall (ai_Uninstall A (u_name (f_obj f)) (uninstall_options r (f_obj f))) f
         = ((resp, err), f1)"
    by (metis surj_pair)
  show ?thesis
  proof (cases "opt_Is err ErrReleaseNotFound")
    case True
    with assms have "out = Ret None" "f' = uninstalled L f1"
      by (simp_all add: doUninstall_def c)
    with True removed [OF c] show ?thesis by simp
  next
    case nf: False
    show ?thesis
    proof (cases err)
      case (Some e)
      with assms nf have "out = Ret (Some e)" "f' = collect (release_failed ReasonUninstallError e) f1"
        by (simp_all add: doUninstall_def c)
      with nf Some failed [of resp e f1] c show ?thesis by simp
    next
      case None
      show ?thesis
      proof (cases "resp = None \<or> (\<exists>rs. resp = Some rs \<and> ur_release rs = None)")
        case True
        with assms None have "out = nil_deref" "f' = f1"
          by (auto simp: doUninstall_def c)
        with True None panic [of resp f1] c show ?thesis by simp
      next
        case False
        with assms None have "out = Ret None" "f' = uninstalled L f1"
          by (auto simp: doUninstall_def c split: option.splits)
        with None removed [OF c] show ?thesis by simp
      qed
    qed
  qed
qed

lemma doUninstall_log:
  assumes "doUninstall r L A f = (out, f')"
  shows "calls (f_sys f') = calls (f_sys f) @ [EvUninstall]" and "f_obj f' = f_obj f"
  using assms
  by (cases rule: doUninstall_cases; auto simp: uninstalled_def dest: fcall_eqD)+

lemma wait_deletion_log:
  assumes "wait_deletion r L f = (out, f')"
  shows "calls (f_sys f') = calls (f_sys f) @ [EvWaitForDeletion]" and "f_u f' = f_u f"
proof -
  obtain err obj' f1 where c: "fcall EvWaitForDeletion
      (\<lambda>w. let (err, obj', w') = WaitForDeletion (rt_client r) L (rt_waitForDeletionTimeout r) (f_obj f, w)
           in ((err, obj'), w')) f = ((err, obj'), f1)"
    by (metis surj_pair)
  show "calls (f_sys f') = calls (f_sys f) @ [EvWaitForDeletion]" and "f_u f' = f_u f"
    using assms fcall_eqD(2,3) [OF c] unfolding wait_deletion_def c by auto
qed

definition deletion_events :: "event set" where
  "deletion_events = {EvUninstall, EvStatusUpdate, EvUpdateCR, EvWaitForDeletion}"

lemma handleDeletion_step [step_facts]:
  assumes "handleDeletion r L A f = (out, f')"
  shows "frame_step deletion_events f f'"
proof -
  have wait: "frame_step deletion_events g f'" if "wait_deletion r L g = (out, f')" for g
    using wait_deletion_log [OF that] by (auto simp: frame_step_def adds_def deletion_events_def)
  show ?thesis
  proof (cases "ContainsFinalizer (f_obj f) uninstallFinalizer")
    case False
    with assms wait show ?thesis by (simp add: handleDeletion_def)
  next
    case True
    obtain o1 g where u: "doUninstall r L A (f\<lparr>f_u := New_updater\<rparr>) = (o1, g)"
      by (metis surj_pair)
    obtain aerr obj' s' where a: "Apply (rt_client r) L (f_u g) (f_obj g) (f_sys g) = ((aerr, obj'), s')"
      by (metis surj_pair)
    let ?f1 = "f\<lparr>f_obj := obj', f_sys := s'\<rparr>"
    have "adds deletion_events (f_sys f) (f_sys g)"
      using doUninstall_log(1) [OF u] by (auto simp: adds_def deletion_events_def)
    moreover have "adds deletion_events (f_sys g) s'"
      by (rule adds_mono [OF Apply_adds [OF a]]) (auto simp: deletion_events_def)
    ultimately have s1: "frame_step deletion_events f ?f1"
      by (auto simp: frame_step_def intro: adds_trans)
    have "f' = ?f1 \<or> wait_deletion r L ?f1 = (out, f')"
      using assms True
      by (auto simp: handleDeletion_def u a Let_def split: exit.splits option.splits if_splits)
    with s1 frame_step_trans [OF s1 wait] show ?thesis by auto
  qed
qed

text \<open>With the finalizer, a deletion is an uninstall, its \<open>Apply\<close>, and perhaps the wait.\<close>

lemma handleDeletion_finalizer:
  assumes "handleDeletion r L A f = (out, f')" and "ContainsFinalizer (f_obj f) uninstallFinalizer"
  shows "\<exists>o1 g aerr obj' s' post. doUninstall r L A (f\<lparr>f_u := New_updater\<rparr>) = (o1, g)
    \<and> Apply (rt_client r) L (f_u g) (f_obj g) (f_sys g) = ((aerr, obj'), s')
    \<and> calls (f_sys f') = calls s' @ post \<and> EvUpdateCR \<notin> set post"
proof -
  obtain o1 g where u: "doUninstall r L A (f\<lparr>f_u := New_updater\<rparr>) = (o1, g)"
    by (metis surj_pair)
  obtain aerr obj' s' where a: "Apply (rt_client r) L (f_u g) (f_obj g) (f_sys g) = ((aerr, obj'), s')"
    by (metis surj_pair)
  let ?f1 = "f\<lparr>f_obj := obj', f_sys := s'\<rparr>"
  have "f' = ?f1 \<or> wait_deletion r L ?f1 = (out, f')"
    using assms
    by (auto simp: handleDeletion_def u a Let_def split: exit.splits option.splits if_splits)
  then have "\<exists>post. calls (f_sys f') = calls s' @ post \<and> EvUpdateCR \<notin> set post"
    by (auto dest: wait_deletion_log(1))
  with u a show ?thesis by blast
qed

section \<open>The body\<close>

definition body_events :: "event set" where
  "body_events = {EvActionClientFor, EvGetRelease} \<union> release_events \<union> deletion_events"

text \<open>
  A resource that is being deleted takes the deletion branch and nothing else; one that is
  not never does.
\<close>

lemma reconcile_unpaused_step:
  assumes "reconcile_unpaused r E f0 = (out, f')"
  shows "adds ({EvActionClientFor, EvGetRelease}
       \<union> (if u_deletion_timestamp (f_obj f0) \<noteq> None then deletion_events else release_events))
     (f_sys f0) (f_sys f')"
    and "updateFuncs (f_u f') = updateFuncs (f_u f0)"
proof -
  let ?D = "u_deletion_timestamp (f_obj f0) \<noteq> None"
  let ?A = "{EvActionClientFor, EvGetRelease} \<union> (if ?D then deletion_events else release_events)"
  let ?f = "collect [EnsureCondition (Paused ConditionFalse [] (MStr []))] f0"
  have s0: "frame_ok ?A f0 ?f" by (simp add: frame_ok_def)
  obtain x f1 where c: "fcall EvActionClientFor (rt_actionClientGetter r (f_obj ?f)) ?f = (x, f1)"
    by (metis surj_pair)
  have s1: "frame_ok ?A f0 f1"
    by (rule frame_ok_chain [OF s0 frame_ok_step [OF fcall_step [OF c]]]) auto
  have o1: "f_obj f1 = f_obj f0" using fcall_eqD(1) [OF c] by simp
  have "adds ?A (f_sys f0) (f_sys f') \<and> updateFuncs (f_u f') = updateFuncs (f_u f0)"
  proof (cases x)
    case (Inl e)
    with assms c have "f' = collect
        [EnsureCondition (Irreconcilable ConditionTrue ReasonErrorGettingClient (MErr e)),
         EnsureConditionUnknown TypeDeployed, EnsureConditionUnknown TypeInitialized,
         EnsureConditionUnknown TypeReleaseFailed, EnsureDeployedRelease None] f1"
      by (simp add: reconcile_unpaused_def)
    with s1 show ?thesis by (auto simp: frame_ok_def)
  next
    case (Inr A)
    obtain o2 f2 where ob: "observe_release A f1 = (o2, f2)" by (metis surj_pair)
    have s2: "frame_ok ?A f0 f2"
      by (rule frame_ok_chain [OF s1 observe_release_step(1) [OF ob]]) auto
    have o2: "f_obj f2 = f_obj f0" using observe_release_step(2) [OF ob] o1 by simp
    show ?thesis
    proof (cases o2)
      case (Panic m)
      with assms c Inr ob s2 show ?thesis
        by (auto simp: reconcile_unpaused_def frame_ok_def)
    next
      case (Ret y)
      show ?thesis
      proof (cases ?D)
        case True
        obtain o3 f3 where h: "handleDeletion r (e_lib E) A f2 = (o3, f3)" by (metis surj_pair)
        have s3: "frame_ok ?A f0 f3"
          by (rule frame_ok_chain [OF s2 frame_ok_step [OF handleDeletion_step [OF h]]]) (use True in auto)
        have "f_sys f' = f_sys f3 \<and> updateFuncs (f_u f') = updateFuncs (f_u f3)"
          using assms c Inr ob Ret True o2
          by (auto simp: reconcile_unpaused_def h split: exit.splits option.splits)
        with s3 show ?thesis by (auto simp: frame_ok_def)
      next
        case False
        with assms c Inr ob Ret o2 have "reconcile_release r E A f2 = (out, f')"
          by (simp add: reconcile_unpaused_def)
        from frame_ok_step [OF reconcile_release_step [OF this]]
        have "frame_ok ?A f0 f'"
          by (rule frame_ok_chain [OF s2]) (use False in auto)
        then show ?thesis by (simp add: frame_ok_def)
      qed
    qed
  qed
  then show "adds ?A (f_sys f0) (f_sys f')" and "updateFuncs (f_u f') = updateFuncs (f_u f0)"
    by blast+
qed

section \<open>How the release part of the loop ends\<close>

text \<open>A tail of writes that reports an error as irreconcilable.\<close>

definition reports :: "go_error \<Rightarrow> UpdateStatusFunc list \<Rightarrow> bool" where
  "reports e fs \<longleftrightarrow> (\<exists>ws c. fs = map write_func ws \<and> last_cond TypeIrreconcilable ws = Some c
     \<and> IsTrue c \<and> cond_message c = error_text e)"

lemma reports_direct:
  assumes "last_cond TypeIrreconcilable ws = None"
  shows "reports e (EnsureCondition (Irreconcilable ConditionTrue reason (MErr e)) # map write_func ws)"
  unfolding reports_def
  by (intro exI [of _ "WCond (Irreconcilable ConditionTrue reason (MErr e)) # ws"]
            exI [of _ "Irreconcilable ConditionTrue reason (MErr e)"])
     (simp add: assms IsTrue_def)

lemma reports_known:
  "reports e [EnsureCondition (Irreconcilable ConditionTrue reason (MErr e))]"
  "reports e (release_failed reason e)"
  "reports e [EnsureCondition (Irreconcilable ConditionTrue reason (MErr e)),
              EnsureConditionUnknown TypeReleaseFailed]"
  "reports e [EnsureCondition (Irreconcilable ConditionTrue reason (MErr e)),
              EnsureConditionUnknown TypeReleaseFailed, EnsureConditionUnknown TypeDeployed,
              EnsureDeployedRelease None]"
  "reports e [EnsureCondition (Irreconcilable ConditionTrue reason (MErr e)),
              EnsureConditionUnknown TypeDeployed, EnsureConditionUnknown TypeInitialized,
              EnsureConditionUnknown TypeReleaseFailed, EnsureDeployedRelease None]"
proof -
  note d = reports_direct [where e = e]
  let ?U = "\<lambda>t. WCond (unknown_condition t)"
  note s = EnsureConditionUnknown_write unknown_condition_def release_failed_def
  show "reports e [EnsureCondition (Irreconcilable ConditionTrue reason (MErr e))]"
    using d [of "[]"] by simp
  show "reports e (release_failed reason e)"
    using d [of "[WCond (ReleaseFailed ConditionTrue reason (MErr e))]"] by (simp add: s)
  show "reports e [EnsureCondition (Irreconcilable ConditionTrue reason (MErr e)),
              EnsureConditionUnknown TypeReleaseFailed]"
    using d [of "[?U TypeReleaseFailed]"] by (simp add: s)
  show "reports e [EnsureCondition (Irreconcilable ConditionTrue reason (MErr e)),
              EnsureConditionUnknown TypeReleaseFailed, EnsureConditionUnknown TypeDeployed,
              EnsureDeployedRelease None]"
    using d [of "[?U TypeReleaseFailed, ?U TypeDeployed, WRel None]"] by (simp add: s)
  show "reports e [EnsureCondition (Irreconcilable ConditionTrue reason (MErr e)),
              EnsureConditionUnknown TypeDeployed, EnsureConditionUnknown TypeInitialized,
              EnsureConditionUnknown TypeReleaseFailed, EnsureDeployedRelease None]"
    using d [of "[?U TypeDeployed, ?U TypeInitialized, ?U TypeReleaseFailed, WRel None]"]
    by (simp add: s)
qed

text \<open>
  The three ways in which the part of the loop about the release can end: with the status
  of a success, with a reported error, and, when the second look at the release before an
  upgrade fails, with an error that no condition reports.
\<close>

definition success_tail :: "release \<Rightarrow> UpdateStatusFunc list" where
  "success_tail rel = ensureDeployedRelease rel
     @ [EnsureCondition (ReleaseFailed ConditionFalse [] (MStr [])),
        EnsureCondition (Irreconcilable ConditionFalse [] (MStr []))]"

abbreviation lost_release :: "go_error \<Rightarrow> go_error" where
  "lost_release e \<equiv> ErrWrap ''could not get the current Helm Release: '' e"

definition ends_as :: "'w runtime \<Rightarrow> 'w frame \<Rightarrow> outcome \<Rightarrow> 'w frame \<Rightarrow> bool" where
  "ends_as r f out f' \<longleftrightarrow> (\<exists>m. out = Panic m)
     \<or> (\<exists>fs rel. are_writes fs \<and> out = Ret (\<lparr>requeue_after = rt_reconcilePeriod r\<rparr>, None)
          \<and> updateStatusFuncs (f_u f') = updateStatusFuncs (f_u f) @ fs @ success_tail rel)
     \<or> (\<exists>fs e tail. are_writes fs \<and> out = fail_with e \<and> reports e tail
          \<and> updateStatusFuncs (f_u f') = updateStatusFuncs (f_u f) @ fs @ tail)
     \<or> (\<exists>fs e. are_writes fs \<and> out = fail_with (lost_release e)
          \<and> updateStatusFuncs (f_u f') = updateStatusFuncs (f_u f) @ fs)"

lemma frame_step_writes:
  "frame_step A f g \<Longrightarrow>
     \<exists>fs. are_writes fs \<and> updateStatusFuncs (f_u g) = updateStatusFuncs (f_u f) @ fs"
  by (auto simp: frame_step_def)

lemma ends_as_success:
  assumes "frame_step A f g" and "finish_release r rel g = (out, f')"
  shows "ends_as r f out f'"
proof -
  let ?h = "run_post_hooks (rt_postHooks r) rel g"
  obtain fs where fs: "are_writes fs" "updateStatusFuncs (f_u g) = updateStatusFuncs (f_u f) @ fs"
    using frame_step_writes [OF assms(1)] by blast
  obtain gs where gs: "are_writes gs" "updateStatusFuncs (f_u ?h) = updateStatusFuncs (f_u g) @ gs"
    using frame_step_writes [OF run_post_hooks_step] by blast
  have "out = Ret (\<lparr>requeue_after = rt_reconcilePeriod r\<rparr>, None)"
    "updateStatusFuncs (f_u f') = updateStatusFuncs (f_u f) @ (fs @ gs) @ success_tail rel"
    using assms(2) fs gs by (auto simp: finish_release_def success_tail_def Let_def)
  moreover from fs gs have "are_writes (fs @ gs)" by simp
  ultimately show ?thesis unfolding ends_as_def by blast
qed

lemma ends_as_reported:
  assumes "frame_step A f g" and "reports e tail"
  shows "ends_as r f (fail_with e) (collect tail g)"
  using assms(2) frame_step_writes [OF assms(1)] unfolding ends_as_def by (auto simp: fail_with_def)

lemma ends_as_panic [simp]: "ends_as r f (Panic m) f'"
  by (simp add: ends_as_def)

lemma ends_as_later:
  assumes "frame_step A f g" and "ends_as r g out f'"
  shows "ends_as r f out f'"
proof -
  obtain fs where fs: "are_writes fs" "updateStatusFuncs (f_u g) = updateStatusFuncs (f_u f) @ fs"
    using frame_step_writes [OF assms(1)] by blast
  have w: "are_writes (fs @ gs)" if "are_writes gs" for gs using that fs(1) by simp
  show ?thesis
    using assms(2) unfolding ends_as_def fs(2) append.assoc [symmetric]
    by (elim disjE exE conjE) (use w append.assoc in metis)+
qed

lemma doInstall_ends:
  assumes "doInstall r A vals0 f = (o1, f1)"
  shows "case o1 of Panic m \<Rightarrow> True | Ret (Inr rl) \<Rightarrow> True
     | Ret (Inl e) \<Rightarrow> \<exists>g. frame_step UNIV f g \<and> f1 = collect (release_failed ReasonInstallError e) g"
proof -
  obtain rel err g where c: "fcall EvInstall (ai_Install A (u_name (f_obj f)) (u_namespace (f_obj f))
      (rt_chrt r) vals0 (install_options r (f_obj f))) f = ((rel, err), g)"
    by (metis surj_pair)
  from frame_step_mono [OF fcall_step [OF c] subset_UNIV] assms show ?thesis
    by (auto simp: doInstall_def c Let_def split: option.splits)
qed

lemma doUpgrade_ends:
  assumes "doUpgrade r A vals0 f = (o1, f1)"
  shows "case o1 of Panic m \<Rightarrow> True | Ret (Inr rl) \<Rightarrow> True
     | Ret (Inl e) \<Rightarrow> (\<exists>g. frame_step UNIV f g \<and> f1 = collect (release_failed ReasonUpgradeError e) g)
                   \<or> (\<exists>e'. e = lost_release e') \<and> frame_step UNIV f f1"
proof -
  obtain cur err g where c: "fcall EvGetRelease (ai_Get A (u_name (f_obj f)) []) f = ((cur, err), g)"
    by (metis surj_pair)
  obtain rel err2 h where d: "fcall EvUpgrade (ai_Upgrade A (u_name (f_obj f)) (u_namespace (f_obj f))
      (rt_chrt r) vals0 (upgrade_options r (f_obj f))) g = ((rel, err2), h)"
    by (metis surj_pair)
  note s1 = frame_step_mono [OF fcall_step [OF c] subset_UNIV]
  note s2 = frame_step_trans [OF s1 frame_step_mono [OF fcall_step [OF d] subset_UNIV]]
  show ?thesis
  proof (cases err)
    case (Some e)
    with s1 assms show ?thesis by (auto simp: doUpgrade_def c)
  next
    case None
    with s2 assms show ?thesis
      by (auto simp: doUpgrade_def c d Let_def split: option.splits)
  qed
qed

lemma perform_state_ends:
  assumes p: "perform_state r A vals0 rel state f = (out, f')" and "state \<noteq> StateError"
  shows "ends_as r f out f'"
proof (cases state)
  case StateNeedsInstall
  obtain o1 f1 where i: "doInstall r A vals0 f = (o1, f1)" by (metis surj_pair)
  note s1 = doInstall_step [OF i] and e1 = doInstall_ends [OF i]
  consider m where "o1 = Panic m" | e where "o1 = Ret (Inl e)" | rl where "o1 = Ret (Inr rl)"
    by (metis exit.exhaust sum.exhaust)
  then show ?thesis
  proof cases
    case 1
    with p i StateNeedsInstall show ?thesis by (auto simp: perform_state_def)
  next
    case 2
    with e1 obtain g where "frame_step UNIV f g" "f1 = collect (release_failed ReasonInstallError e) g"
      by auto
    with p i StateNeedsInstall 2 show ?thesis
      by (auto simp: perform_state_def intro: ends_as_reported reports_known)
  next
    case 3
    with p i StateNeedsInstall have "finish_release r rl f1 = (out, f')" by (simp add: perform_state_def)
    with s1 show ?thesis by (rule ends_as_success)
  qed
next
  case StateNeedsUpgrade
  obtain o1 f1 where i: "doUpgrade r A vals0 f = (o1, f1)" by (metis surj_pair)
  note s1 = doUpgrade_step [OF i] and e1 = doUpgrade_ends [OF i]
  consider m where "o1 = Panic m" | e where "o1 = Ret (Inl e)" | rl where "o1 = Ret (Inr rl)"
    by (metis exit.exhaust sum.exhaust)
  then show ?thesis
  proof cases
    case 1
    with p i StateNeedsUpgrade show ?thesis by (auto simp: perform_state_def)
  next
    case 2
    with p i StateNeedsUpgrade have o: "out = fail_with e" "f' = f1"
      by (auto simp: perform_state_def)
    from e1 2 consider g where "frame_step UNIV f g" "f1 = collect (release_failed ReasonUpgradeError e) g"
      | e' where "e = lost_release e'" "frame_step UNIV f f1"
      by auto
    then show ?thesis
    proof cases
      case 1
      with o show ?thesis by (auto intro: ends_as_reported reports_known)
    next
      case 2
      with o frame_step_writes [OF 2(2)] show ?thesis unfolding ends_as_def by blast
    qed
  next
    case 3
    with p i StateNeedsUpgrade have "finish_release r rl f1 = (out, f')" by (simp add: perform_state_def)
    with s1 show ?thesis by (rule ends_as_success)
  qed
next
  case StateUnchanged
  show ?thesis
  proof (cases rel)
    case None
    with p StateUnchanged show ?thesis by (auto simp: perform_state_def)
  next
    case (Some rl)
    let ?f0 = "collect [EnsureCondition (ReleaseFailed ConditionFalse [] (MStr []))] f"
    obtain e g where c: "fcall EvReconcileRelease (ai_Reconcile A rl) ?f0 = (e, g)"
      by (metis surj_pair)
    have s: "frame_step {EvReconcileRelease} f g"
      by (rule frame_step_trans [OF collect_step fcall_step [OF c]]) simp
    show ?thesis
    proof (cases e)
      case None
      with p Some StateUnchanged c have "finish_release r rl g = (out, f')"
        by (simp add: perform_state_def doReconcile_def)
      with s show ?thesis by (rule ends_as_success)
    next
      case (Some err)
      with p \<open>rel = Some rl\<close> StateUnchanged c ends_as_reported [OF s reports_known(1)] show ?thesis
        by (auto simp: perform_state_def doReconcile_def)
    qed
  qed
next
  case StateError
  with assms show ?thesis by simp
qed

text \<open>
  \<open>getReleaseState\<close> reports the error state exactly with an error, so that the default
  branch of the switch is never reached.
\<close>

lemma getReleaseState_error:
  assumes "getReleaseState r A vals0 f = (Ret (rel, state, err), f')"
  shows "state = StateError \<longleftrightarrow> err \<noteq> None"
  using assms
  by (auto simp: getReleaseState_def Let_def
      split: prod.splits if_splits option.splits)

lemma reconcile_release_ends:
  assumes "reconcile_release r E A f = (out, f')"
  shows "ends_as r f out f'"
proof -
  obtain v f1 where v: "getValues r E f = (v, f1)" by (metis surj_pair)
  note s1 = frame_step_mono [OF getValues_step [OF v] subset_UNIV]
  show ?thesis
  proof (cases v)
    case (Inl e)
    with assms v ends_as_reported [OF s1 reports_known(3)] show ?thesis
      by (auto simp: reconcile_release_def)
  next
    case (Inr vals0)
    obtain st f2 where st: "getReleaseState r A vals0 f1 = (st, f2)" by (metis surj_pair)
    note s2 = frame_step_trans [OF s1 frame_step_mono [OF getReleaseState_step(1) [OF st] subset_UNIV]]
    show ?thesis
    proof (cases st)
      case (Panic m)
      with assms v Inr st show ?thesis by (auto simp: reconcile_release_def)
    next
      case (Ret x)
      obtain rel state err where x: "x = (rel, state, err)" by (metis surj_pair)
      show ?thesis
      proof (cases err)
        case (Some e)
        with assms v Inr st Ret x ends_as_reported [OF s2 reports_known(4)] show ?thesis
          by (auto simp: reconcile_release_def)
      next
        case None
        let ?f3 = "collect [EnsureCondition (Irreconcilable ConditionFalse [] (MStr []))] f2"
        obtain vals1 f4 where h: "run_pre_hooks (rt_preHooks r) vals0 ?f3 = (vals1, f4)"
          by (metis surj_pair)
        have "frame_step UNIV ?f3 f4"
          using frame_step_mono [OF run_pre_hooks_step subset_UNIV, of ?f3 "rt_preHooks r" vals0]
          by (simp add: h)
        moreover have "frame_step UNIV f ?f3" by (rule frame_step_collect [OF s2]) simp
        ultimately have s4: "frame_step UNIV f f4" by (rule frame_step_trans [rotated])
        have "perform_state r A vals1 rel state f4 = (out, f')"
          using assms v Inr st Ret x None h by (simp add: reconcile_release_def)
        moreover have "state \<noteq> StateError"
          using getReleaseState_error [of r A vals0 f1 rel state err f2] st Ret x None by simp
        ultimately have "ends_as r f4 out f'" by (rule perform_state_ends)
        with s4 show ?thesis by (rule ends_as_later)
      qed
    qed
  qed
qed

end
