(* ===== verification/ReconcileRuns.thy ===== *)
theory ReconcileRuns
  imports ReconcileFacts
begin

text \<open>
  Facts about complete runs of \<open>Reconcile\<close>: the prologue that fetches the resource and
  adds the finalizer, the deferred \<open>Apply\<close>, and what both say about the log of calls.
\<close>

section \<open>The prologue\<close>

text \<open>The resource that the body of the loop gets, if the prologue gets that far.\<close>

definition fetched :: "'w runtime \<Rightarrow> namespaced_name \<Rightarrow> 'w sys \<Rightarrow> unstructured option" where
  "fetched r req s =
     (case kc_get (rt_client r) req (new_object (rt_gvk r), world s) of
        (Some e, _, _) \<Rightarrow> None
      | (None, obj, w1) \<Rightarrow>
          if needs_finalizer obj
          then (case kc_update (rt_client r) (add_finalizer obj, w1) of
                  (Some e, _, _) \<Rightarrow> None
                | (None, obj1, _) \<Rightarrow> Some obj1)
          else Some obj)"

lemma io_call_eqD:
  assumes "io_call ev g obj s = ((err, obj'), s')"
  shows "g (obj, world s) = (err, obj', world s')" and "calls s' = calls s @ [ev]"
  using call_eqD [OF assms [unfolded io_call_def]] by (auto split: prod.splits)

lemma io_call_eq:
  "g (obj, world s) = (err, obj', w') \<Longrightarrow>
     io_call ev g obj s = ((err, obj'), s\<lparr>world := w', calls := calls s @ [ev]\<rparr>)"
  by (simp add: io_call_def call_def)

lemma Reconcile_cases:
  assumes "Reconcile r E req s = (out, s')"
  obtains (get_failed) e o1 where
      "io_call EvGetCR (kc_get (rt_client r) req) (new_object (rt_gvk r)) s = ((Some e, o1), s')"
      "out = (if IsNotFound e then Ret (no_result, None) else fail_with e)"
  | (finalizer_failed) obj s1 e o1 where
      "io_call EvGetCR (kc_get (rt_client r) req) (new_object (rt_gvk r)) s = ((None, obj), s1)"
      "needs_finalizer obj"
      "io_call EvAddFinalizer (kc_update (rt_client r)) (add_finalizer obj) s1 = ((Some e, o1), s')"
      "\<exists>m. out = fail_with (ErrWrap m e)"
  | (added) obj s1 obj1 s2 where
      "io_call EvGetCR (kc_get (rt_client r) req) (new_object (rt_gvk r)) s = ((None, obj), s1)"
      "needs_finalizer obj"
      "io_call EvAddFinalizer (kc_update (rt_client r)) (add_finalizer obj) s1 = ((None, obj1), s2)"
      "reconcile_deferred r E obj1 s2 = (out, s')"
  | (direct) obj s1 where
      "io_call EvGetCR (kc_get (rt_client r) req) (new_object (rt_gvk r)) s = ((None, obj), s1)"
      "\<not> needs_finalizer obj"
      "reconcile_deferred r E obj s1 = (out, s')"
proof -
  obtain err obj s1 where
    g: "io_call EvGetCR (kc_get (rt_client r) req) (new_object (rt_gvk r)) s = ((err, obj), s1)"
    by (metis surj_pair)
  show ?thesis
  proof (cases err)
    case (Some e)
    with assms g have "s1 = s'" "out = (if IsNotFound e then Ret (no_result, None) else fail_with e)"
      by (auto simp: Reconcile_def split: if_splits)
    with g Some get_failed show ?thesis by simp
  next
    case None
    show ?thesis
    proof (cases "needs_finalizer obj")
      case False
      with assms g None have "reconcile_deferred r E obj s1 = (out, s')" by (simp add: Reconcile_def)
      with direct g None False show ?thesis by simp
    next
      case True
      obtain uerr obj1 s2 where
        u: "io_call EvAddFinalizer (kc_update (rt_client r)) (add_finalizer obj) s1 = ((uerr, obj1), s2)"
        by (metis surj_pair)
      show ?thesis
      proof (cases uerr)
        case (Some e)
        with assms g None True u have "s2 = s'" "\<exists>m. out = fail_with (ErrWrap m e)"
          by (auto simp: Reconcile_def)
        with g None True u Some finalizer_failed [of obj s1 e obj1] show ?thesis by simp
      next
        case none: None
        with assms g None True u have "reconcile_deferred r E obj1 s2 = (out, s')"
          by (simp add: Reconcile_def)
        with g None True u none added [of obj s1 obj1 s2] show ?thesis by simp
      qed
    qed
  qed
qed

text \<open>A run with a fetched resource is the prologue and then the deferred body.\<close>

lemma Reconcile_fetched:
  assumes "Reconcile r E req s = (out, s')" and "fetched r req s = Some obj"
  obtains s2 where "reconcile_deferred r E obj s2 = (out, s')"
    and "calls s2 = calls s @ [EvGetCR] \<or> calls s2 = calls s @ [EvGetCR, EvAddFinalizer]"
  using assms(1)
proof (cases rule: Reconcile_cases)
  case (get_failed e o1)
  with assms(2) io_call_eqD(1) [OF get_failed(1)] show ?thesis by (simp add: fetched_def)
next
  case (finalizer_failed obj s1 e o1)
  with assms(2) io_call_eqD(1) [OF finalizer_failed(1)] io_call_eqD(1) [OF finalizer_failed(3)]
  show ?thesis by (simp add: fetched_def)
next
  case (added obj0 s1 obj1 s2)
  with assms(2) io_call_eqD(1) [OF added(1)] io_call_eqD(1) [OF added(3)] have "obj1 = obj"
    by (simp add: fetched_def)
  with added io_call_eqD(2) [OF added(1)] io_call_eqD(2) [OF added(3)] that [of s2]
  show ?thesis by simp
next
  case (direct obj0 s1)
  with assms(2) io_call_eqD(1) [OF direct(1)] have "obj0 = obj"
    by (simp add: fetched_def)
  with direct io_call_eqD(2) [OF direct(1)] that [of s1] show ?thesis by simp
qed

section \<open>The body and the deferred call\<close>

definition pause_keeps_deletion :: "'w runtime \<Rightarrow> bool" where
  "pause_keeps_deletion r \<longleftrightarrow>
     (case rt_pauseHandler r of
        None \<Rightarrow> True
      | Some h \<Rightarrow> \<forall>obj w. u_deletion_timestamp (snd (fst (h obj w))) = u_deletion_timestamp obj)"

definition branch_events :: "unstructured \<Rightarrow> event set" where
  "branch_events obj =
     (if u_deletion_timestamp obj \<noteq> None then deletion_events else release_events)"

lemma reconcile_body_adds:
  assumes "reconcile_body r E f = (out, f')" and "pause_keeps_deletion r"
  shows "adds ({EvPauseHandler, EvActionClientFor, EvGetRelease} \<union> branch_events (f_obj f))
           (f_sys f) (f_sys f')" and "updateFuncs (f_u f') = updateFuncs (f_u f)"
proof -
  let ?A = "{EvPauseHandler, EvActionClientFor, EvGetRelease} \<union> branch_events (f_obj f)"
  have "adds ?A (f_sys f) (f_sys f') \<and> updateFuncs (f_u f') = updateFuncs (f_u f)"
  proof (cases "rt_pauseHandler r")
    case None
    with assms have u: "reconcile_unpaused r E f = (out, f')" by (simp add: reconcile_body_def)
    have "adds ?A (f_sys f) (f_sys f')"
      by (rule adds_mono [OF reconcile_unpaused_step(1) [OF u]]) (auto simp: branch_events_def)
    with reconcile_unpaused_step(2) [OF u] show ?thesis by simp
  next
    case (Some h)
    obtain paused herr obj' f1 where
      c: "fcall EvPauseHandler (h (f_obj f)) f = (((paused, herr), obj'), f1)"
      by (metis surj_pair)
    have k: "u_deletion_timestamp obj' = u_deletion_timestamp (f_obj f)"
      using assms(2) arg_cong [OF fcall_eqD(4) [OF c], of "\<lambda>x. snd (fst x)"]
      by (auto simp: pause_keeps_deletion_def Some)
    have s1: "adds ?A (f_sys f) (f_sys f1)"
      using fcall_eqD(3) [OF c] by (auto simp: adds_def)
    show ?thesis
    proof (cases paused)
      case True
      with assms(1) Some c have "f' = collect paused_status (f1\<lparr>f_obj := obj'\<rparr>)"
        by (simp add: reconcile_body_def)
      with s1 fcall_eqD(2) [OF c] show ?thesis by simp
    next
      case False
      with assms(1) Some c have u: "reconcile_unpaused r E (f1\<lparr>f_obj := obj'\<rparr>) = (out, f')"
        by (simp add: reconcile_body_def)
      have "adds ?A (f_sys f1) (f_sys f')"
        by (rule adds_mono [OF reconcile_unpaused_step(1) [OF u, simplified]])
           (auto simp: branch_events_def k)
      with s1 adds_trans reconcile_unpaused_step(2) [OF u] fcall_eqD(2) [OF c]
      show ?thesis by fastforce
    qed
  qed
  then show "adds ?A (f_sys f) (f_sys f')" and "updateFuncs (f_u f') = updateFuncs (f_u f)" by blast+
qed

lemma reconcile_deferred_parts:
  assumes "reconcile_deferred r E obj s = (out, s')"
  obtains o1 f applyErr obj' where
    "reconcile_body r E \<lparr>f_obj = obj, f_u = New_updater, f_sys = s\<rparr> = (o1, f)"
    "Apply (rt_client r) (e_lib E) (f_u f) (f_obj f) (f_sys f) = ((applyErr, obj'), s')"
    "out = (case o1 of
        Panic m \<Rightarrow> Panic m
      | Ret (res, err) \<Rightarrow>
          Ret (res, if err = None \<and> \<not> (case applyErr of None \<Rightarrow> False | Some e \<Rightarrow> IsNotFound e)
                    then applyErr else err))"
proof -
  obtain o1 f where b: "reconcile_body r E \<lparr>f_obj = obj, f_u = New_updater, f_sys = s\<rparr> = (o1, f)"
    by (metis surj_pair)
  obtain applyErr obj' s1 where
    a: "Apply (rt_client r) (e_lib E) (f_u f) (f_obj f) (f_sys f) = ((applyErr, obj'), s1)"
    by (metis surj_pair)
  have "s1 = s'" and "out = (case o1 of
        Panic m \<Rightarrow> Panic m
      | Ret (res, err) \<Rightarrow>
          Ret (res, if err = None \<and> \<not> (case applyErr of None \<Rightarrow> False | Some e \<Rightarrow> IsNotFound e)
                    then applyErr else err))"
    using assms by (auto simp: reconcile_deferred_def b a split: exit.splits prod.splits)
  with that [OF b, of applyErr obj'] a show ?thesis by simp
qed

lemma reconcile_deferred_adds:
  assumes "reconcile_deferred r E obj s = (out, s')" and "pause_keeps_deletion r"
  shows "adds ({EvPauseHandler, EvActionClientFor, EvGetRelease, EvStatusUpdate}
           \<union> branch_events obj) s s'"
proof -
  let ?A = "{EvPauseHandler, EvActionClientFor, EvGetRelease, EvStatusUpdate} \<union> branch_events obj"
  from assms(1) obtain o1 f applyErr obj' where
    b: "reconcile_body r E \<lparr>f_obj = obj, f_u = New_updater, f_sys = s\<rparr> = (o1, f)" and
    a: "Apply (rt_client r) (e_lib E) (f_u f) (f_obj f) (f_sys f) = ((applyErr, obj'), s')"
    by (rule reconcile_deferred_parts)
  have "adds ?A s (f_sys f)"
    by (rule adds_mono [OF reconcile_body_adds(1) [OF b assms(2), simplified]]) auto
  moreover have "updateFuncs (f_u f) = []"
    using reconcile_body_adds(2) [OF b assms(2)] by simp
  from Apply_adds_status [OF this a] have "adds ?A (f_sys f) s'" by (rule adds_mono) simp
  ultimately show ?thesis by (rule adds_trans)
qed

lemma Reconcile_adds:
  assumes "Reconcile r E req s = (out, s')" and "fetched r req s = Some obj"
    and "pause_keeps_deletion r"
  shows "adds ({EvGetCR, EvAddFinalizer, EvPauseHandler, EvActionClientFor, EvGetRelease, EvStatusUpdate}
           \<union> branch_events obj) s s'"
proof -
  let ?A = "{EvGetCR, EvAddFinalizer, EvPauseHandler, EvActionClientFor, EvGetRelease, EvStatusUpdate}
           \<union> branch_events obj"
  from assms(1,2) obtain s2 where d: "reconcile_deferred r E obj s2 = (out, s')"
    and c: "calls s2 = calls s @ [EvGetCR] \<or> calls s2 = calls s @ [EvGetCR, EvAddFinalizer]"
    by (rule Reconcile_fetched)
  from c have "adds ?A s s2" by (auto simp: adds_def)
  moreover have "adds ?A s2 s'"
    by (rule adds_mono [OF reconcile_deferred_adds [OF d assms(3)]]) auto
  ultimately show ?thesis by (rule adds_trans)
qed

lemma adds_disjoint:
  assumes "adds A s s'" and "A \<inter> B = {}"
  shows "\<exists>es. calls s' = calls s @ es \<and> set es \<inter> B = {}"
  using assms by (fastforce simp: adds_def)

section \<open>The status that a run computes\<close>

text \<open>The functions that the live branch has collected before the release part starts.\<close>

lemma reconcile_unpaused_live:
  assumes u: "reconcile_unpaused r E f0 = (out, f')" and "u_deletion_timestamp (f_obj f0) = None"
  obtains (panic) m where "out = Panic m"
  | (client) e tail where "out = fail_with e" "reports e tail"
      "updateStatusFuncs (f_u f') = updateStatusFuncs (f_u f0)
         @ EnsureCondition (Paused ConditionFalse [] (MStr [])) # tail"
  | (release) A g fs where "reconcile_release r E A g = (out, f')" "are_writes fs"
      "updateStatusFuncs (f_u g) = updateStatusFuncs (f_u f0)
         @ EnsureCondition (Paused ConditionFalse [] (MStr [])) # fs
         @ [EnsureCondition (Initialized ConditionTrue [] (MStr []))]"
proof -
  let ?p = "EnsureCondition (Paused ConditionFalse [] (MStr []))"
  let ?f = "collect [?p] f0"
  obtain x f1 where c: "fcall EvActionClientFor (rt_actionClientGetter r (f_obj ?f)) ?f = (x, f1)"
    by (metis surj_pair)
  have u1: "updateStatusFuncs (f_u f1) = updateStatusFuncs (f_u f0) @ [?p]"
    using fcall_eqD(2) [OF c] by simp
  show ?thesis
  proof (cases x)
    case (Inl e)
    let ?t = "[EnsureCondition (Irreconcilable ConditionTrue ReasonErrorGettingClient (MErr e)),
         EnsureConditionUnknown TypeDeployed, EnsureConditionUnknown TypeInitialized,
         EnsureConditionUnknown TypeReleaseFailed, EnsureDeployedRelease None]"
    from u c Inl have "out = fail_with e" "f' = collect ?t f1"
      by (simp_all add: reconcile_unpaused_def)
    with u1 client [of e ?t] reports_known(5) show ?thesis by simp
  next
    case (Inr A)
    obtain o2 f2 where ob: "observe_release A f1 = (o2, f2)" by (metis surj_pair)
    show ?thesis
    proof (cases o2)
      case (Panic m)
      with u c Inr ob panic show ?thesis by (auto simp: reconcile_unpaused_def)
    next
      case (Ret y)
      with observe_release_step(4) [OF ob] obtain fs where "are_writes fs"
        "updateStatusFuncs (f_u f2) = updateStatusFuncs (f_u f1) @ fs
           @ [EnsureCondition (Initialized ConditionTrue [] (MStr []))]"
        by auto
      moreover have "f_obj f2 = f_obj f0"
        using observe_release_step(2) [OF ob] fcall_eqD(1) [OF c] by simp
      with u c Inr ob Ret assms(2) have "reconcile_release r E A f2 = (out, f')"
        by (simp add: reconcile_unpaused_def)
      ultimately show ?thesis using release [of A f2 fs] u1 by simp
    qed
  qed
qed

lemma release_writes_no_other:
  assumes "\<forall>w \<in> set ws. release_write w" and "t = TypeInitialized \<or> t = TypePaused"
  shows "last_cond t ws = None"
  using assms by (induction ws) (auto split: status_write.splits)

text \<open>The conditions after a run, read off the list of writes.\<close>

lemma applied_writes:
  assumes "updateStatusFuncs u = map write_func ws" and "last_cond t ws = Some c"
  shows "\<exists>d. GetCondition (has_conditions (snd (applied_status L u obj s))) t = Some d \<and> cond_agree c d"
  using run_writes_condition_Some [OF assms(2)] by (simp add: applied_status_def assms(1))

lemma applied_true:
  assumes "updateStatusFuncs u = map write_func ws" and "last_cond t ws = Some c"
    and "cond_status c = ConditionTrue"
  shows "IsTrueFor (has_conditions (snd (applied_status L u obj s))) t"
  using applied_writes [OF assms(1,2), of L obj s] assms(3)
  by (auto simp: status_queries_GetCondition cond_agree_def IsTrue_def)

lemma applied_false:
  assumes "updateStatusFuncs u = map write_func ws" and "last_cond t ws = Some c"
    and "cond_status c = ConditionFalse"
  shows "IsFalseFor (has_conditions (snd (applied_status L u obj s))) t"
  using applied_writes [OF assms(1,2), of L obj s] assms(3)
  by (auto simp: status_queries_GetCondition cond_agree_def IsFalse_def)

lemma applied_release:
  assumes "updateStatusFuncs u = map write_func ws" and "last_rel ws = Some r"
  shows "has_deployed_release (snd (applied_status L u obj s)) = helmAppReleaseFor r"
  using assms by (simp add: applied_status_def run_writes_release)

text \<open>The log only grows, with or without a pause handler that respects deletion.\<close>

lemma reconcile_body_grows:
  assumes "reconcile_body r E f = (out, f')"
  shows "adds UNIV (f_sys f) (f_sys f')"
proof (cases "rt_pauseHandler r")
  case None
  with assms have u: "reconcile_unpaused r E f = (out, f')" by (simp add: reconcile_body_def)
  show ?thesis by (rule adds_mono [OF reconcile_unpaused_step(1) [OF u]]) simp
next
  case (Some h)
  obtain paused herr obj' f1 where
    c: "fcall EvPauseHandler (h (f_obj f)) f = (((paused, herr), obj'), f1)"
    by (metis surj_pair)
  have s1: "adds UNIV (f_sys f) (f_sys f1)"
    using fcall_eqD(3) [OF c] by (auto simp: adds_def)
  show ?thesis
  proof (cases paused)
    case True
    with assms Some c have "f' = collect paused_status (f1\<lparr>f_obj := obj'\<rparr>)"
      by (simp add: reconcile_body_def)
    with s1 show ?thesis by simp
  next
    case False
    with assms Some c have u: "reconcile_unpaused r E (f1\<lparr>f_obj := obj'\<rparr>) = (out, f')"
      by (simp add: reconcile_body_def)
    have "adds UNIV (f_sys f1) (f_sys f')"
      by (rule adds_mono [OF reconcile_unpaused_step(1) [OF u, simplified]]) simp
    with s1 show ?thesis by (rule adds_trans)
  qed
qed

lemma log_grows:
  assumes "reconcile_deferred r E obj s = (out, s')"
  shows "\<exists>es. calls s' = calls s @ es"
proof -
  from assms obtain o1 f applyErr obj' where
    b: "reconcile_body r E \<lparr>f_obj = obj, f_u = New_updater, f_sys = s\<rparr> = (o1, f)" and
    a: "Apply (rt_client r) (e_lib E) (f_u f) (f_obj f) (f_sys f) = ((applyErr, obj'), s')"
    by (rule reconcile_deferred_parts)
  from adds_trans [OF reconcile_body_grows [OF b] adds_mono [OF Apply_adds [OF a] subset_UNIV]]
  show ?thesis by (auto simp: adds_def)
qed

lemma reconcile_body_paused:
  assumes "reconcile_body r E f = (out, f')" and "rt_pauseHandler r = Some h"
    and "fst (fst (fst (h (f_obj f) (world (f_sys f)))))"
  shows "out = Ret (no_result, None)" and "updateFuncs (f_u f') = updateFuncs (f_u f)"
    and "calls (f_sys f') = calls (f_sys f) @ [EvPauseHandler]"
    and "updateStatusFuncs (f_u f') = updateStatusFuncs (f_u f) @ paused_status"
proof -
  obtain paused herr obj' f1 where
    c: "fcall EvPauseHandler (h (f_obj f)) f = (((paused, herr), obj'), f1)"
    by (metis surj_pair)
  have "paused" using arg_cong [OF fcall_eqD(4) [OF c], of "\<lambda>x. fst (fst (fst x))"] assms(3) by simp
  with assms(1,2) c have "out = Ret (no_result, None)" "f' = collect paused_status (f1\<lparr>f_obj := obj'\<rparr>)"
    by (simp_all add: reconcile_body_def)
  with fcall_eqD(2,3) [OF c] show "out = Ret (no_result, None)"
    and "updateFuncs (f_u f') = updateFuncs (f_u f)"
    and "calls (f_sys f') = calls (f_sys f) @ [EvPauseHandler]"
    and "updateStatusFuncs (f_u f') = updateStatusFuncs (f_u f) @ paused_status"
    by simp_all
qed

section \<open>Successful deletions\<close>

lemma wait_deletion_nil:
  assumes "wait_deletion r L f = (Ret None, f')"
  shows "\<exists>w'. WaitForDeletion (rt_client r) L (rt_waitForDeletionTimeout r) (f_obj f, world (f_sys f))
           = (None, f_obj f', w')"
proof -
  obtain err obj' f1 where c: "fcall EvWaitForDeletion
      (\<lambda>w. let (err, obj', w') = WaitForDeletion (rt_client r) L (rt_waitForDeletionTimeout r) (f_obj f, w)
           in ((err, obj'), w')) f = ((err, obj'), f1)"
    by (metis surj_pair)
  have "err = None" "f_obj f' = obj'"
    using assms unfolding wait_deletion_def c by auto
  with fcall_eqD(4) [OF c] show ?thesis by (auto split: prod.splits)
qed

text \<open>A deletion that succeeds ends with a wait that succeeded, and cancels what it collected.\<close>

lemma handleDeletion_nil:
  assumes "handleDeletion r L A f = (Ret None, f')"
  shows "\<exists>g es. wait_deletion r L g = (Ret None, f') \<and> calls (f_sys g) = calls (f_sys f) @ es"
proof (cases "ContainsFinalizer (f_obj f) uninstallFinalizer")
  case False
  with assms have "wait_deletion r L f = (Ret None, f')" by (simp add: handleDeletion_def)
  then show ?thesis by blast
next
  case True
  obtain o1 g where u: "doUninstall r L A (f\<lparr>f_u := New_updater\<rparr>) = (o1, g)"
    by (metis surj_pair)
  obtain aerr obj' s' where a: "Apply (rt_client r) L (f_u g) (f_obj g) (f_sys g) = ((aerr, obj'), s')"
    by (metis surj_pair)
  let ?f1 = "f\<lparr>f_obj := obj', f_sys := s'\<rparr>"
  have w: "wait_deletion r L ?f1 = (Ret None, f')"
    using assms True
    by (auto simp: handleDeletion_def u a Let_def split: exit.splits option.splits if_splits)
  have "\<exists>es. calls s' = calls (f_sys f) @ es"
    using doUninstall_log(1) [OF u] Apply_calls [OF a] by auto
  with w show ?thesis by (metis frame.select_convs(3) frame.surjective frame.update_convs(3))
qed

lemma reconcile_unpaused_deleted:
  assumes "reconcile_unpaused r E f0 = (Ret (res, None), f')"
    and "u_deletion_timestamp (f_obj f0) \<noteq> None"
  shows "isCanceled (f_u f') \<and> res = no_result
    \<and> (\<exists>g. wait_deletion r (e_lib E) g = (Ret None, f'\<lparr>f_u := f_u g\<rparr>)
         \<and> (\<exists>es. calls (f_sys g) = calls (f_sys f0) @ es))"
proof -
  let ?f = "collect [EnsureCondition (Paused ConditionFalse [] (MStr []))] f0"
  obtain x f1 where c: "fcall EvActionClientFor (rt_actionClientGetter r (f_obj ?f)) ?f = (x, f1)"
    by (metis surj_pair)
  from assms(1) c obtain A where x: "x = Inr A"
    by (cases x) (auto simp: reconcile_unpaused_def fail_with_def)
  obtain o2 f2 where ob: "observe_release A f1 = (o2, f2)" by (metis surj_pair)
  from assms(1) c x ob have o2: "o2 = Ret ()"
    by (cases o2) (auto simp: reconcile_unpaused_def)
  have d: "u_deletion_timestamp (f_obj f2) \<noteq> None"
    using observe_release_step(2) [OF ob] fcall_eqD(1) [OF c] assms(2) by simp
  obtain o3 f3 where h: "handleDeletion r (e_lib E) A f2 = (o3, f3)" by (metis surj_pair)
  have o3: "o3 = Ret None" and f': "f' = f3\<lparr>f_u := CancelUpdates (f_u f3)\<rparr>" and res: "res = no_result"
    using assms(1) c x ob o2 d h
    by (auto simp: reconcile_unpaused_def fail_with_def split: exit.splits option.splits)
  obtain g es where w: "wait_deletion r (e_lib E) g = (Ret None, f3)"
    and g: "calls (f_sys g) = calls (f_sys f2) @ es"
    using handleDeletion_nil [OF h [unfolded o3]] by blast
  have "f'\<lparr>f_u := f_u g\<rparr> = f3"
    using wait_deletion_log(2) [OF w] f' by simp
  moreover have "\<exists>es. calls (f_sys g) = calls (f_sys f0) @ es"
    using g fcall_eqD(3) [OF c] observe_release_step(1) [OF ob] by (auto simp: frame_ok_def adds_def)
  ultimately have "wait_deletion r (e_lib E) g = (Ret None, f'\<lparr>f_u := f_u g\<rparr>)
      \<and> (\<exists>es. calls (f_sys g) = calls (f_sys f0) @ es)"
    using w by simp
  with f' res show ?thesis by auto
qed

section \<open>The status of a success and of an error\<close>

lemma success_tail_writes:
  "\<exists>reason m. success_tail rel = map write_func
     [WCond (Deployed ConditionTrue reason (MStr m)), WRel (Some rel),
      WCond (ReleaseFailed ConditionFalse [] (MStr [])), WCond (Irreconcilable ConditionFalse [] (MStr []))]"
  by (auto simp: success_tail_def ensureDeployedRelease_def Let_def)

lemma success_conditions:
  assumes "updateStatusFuncs u = EnsureCondition (Paused ConditionFalse [] (MStr [])) # fs
      @ EnsureCondition (Initialized ConditionTrue [] (MStr [])) # gs @ success_tail rel"
    and "are_writes fs" and "are_writes gs"
    and "st = snd (applied_status L u obj s)"
  shows "IsTrueFor (has_conditions st) TypeDeployed \<and> IsTrueFor (has_conditions st) TypeInitialized
      \<and> IsFalseFor (has_conditions st) TypeReleaseFailed
      \<and> IsFalseFor (has_conditions st) TypeIrreconcilable
      \<and> IsFalseFor (has_conditions st) TypePaused
      \<and> has_deployed_release st = helmAppReleaseFor (Some rel)"
proof -
  obtain reason m where t: "success_tail rel = map write_func
     [WCond (Deployed ConditionTrue reason (MStr m)), WRel (Some rel),
      WCond (ReleaseFailed ConditionFalse [] (MStr [])), WCond (Irreconcilable ConditionFalse [] (MStr []))]"
    (is "_ = map write_func ?t")
    using success_tail_writes by blast
  obtain vs where vs: "fs = map write_func vs" "\<forall>w \<in> set vs. release_write w"
    using assms(2) by (auto simp: are_writes_map)
  obtain ws where ws: "gs = map write_func ws" "\<forall>w \<in> set ws. release_write w"
    using assms(3) by (auto simp: are_writes_map)
  let ?W = "WCond (Paused ConditionFalse [] (MStr [])) # vs
      @ WCond (Initialized ConditionTrue [] (MStr [])) # ws @ ?t"
  have W: "updateStatusFuncs u = map write_func ?W"
    by (simp add: assms(1) vs(1) ws(1) t)
  note n = release_writes_no_other [OF vs(2)] release_writes_no_other [OF ws(2)]
  have l: "last_cond TypeDeployed ?W = Some (Deployed ConditionTrue reason (MStr m))"
    "last_cond TypeReleaseFailed ?W = Some (ReleaseFailed ConditionFalse [] (MStr []))"
    "last_cond TypeIrreconcilable ?W = Some (Irreconcilable ConditionFalse [] (MStr []))"
    "last_cond TypeInitialized ?W = Some (Initialized ConditionTrue [] (MStr []))"
    "last_cond TypePaused ?W = Some (Paused ConditionFalse [] (MStr []))"
    "last_rel ?W = Some (Some rel)"
    by (simp_all add: last_cond_append last_rel_append n)
  show ?thesis
    unfolding assms(4)
    by (intro conjI applied_true [OF W l(1)] applied_true [OF W l(4)] applied_false [OF W l(2)]
        applied_false [OF W l(3)] applied_false [OF W l(5)] applied_release [OF W l(6)]) simp_all
qed

lemma reported_condition:
  assumes "updateStatusFuncs u = map write_func vs @ tail" and "reports e tail"
  shows "\<exists>d. GetCondition (has_conditions (snd (applied_status L u obj s))) TypeIrreconcilable = Some d
    \<and> IsTrue d \<and> cond_message d = error_text e"
proof -
  obtain ws c where ws: "tail = map write_func ws" "last_cond TypeIrreconcilable ws = Some c"
    "IsTrue c" "cond_message c = error_text e"
    using assms(2) by (auto simp: reports_def)
  have "updateStatusFuncs u = map write_func (vs @ ws)" by (simp add: assms(1) ws(1))
  moreover have "last_cond TypeIrreconcilable (vs @ ws) = Some c" by (simp add: last_cond_append ws(2))
  ultimately obtain d where
    "GetCondition (has_conditions (snd (applied_status L u obj s))) TypeIrreconcilable = Some d"
    "cond_agree c d"
    using applied_writes by blast
  with ws(3,4) show ?thesis by (auto simp: cond_agree_def IsTrue_def)
qed

text \<open>
  What a live run without a pause handler has collected when it returns: the writes of a
  success, the writes of a reported error, or the one error that nothing reports.
\<close>

lemma reconcile_body_live:
  assumes "reconcile_body r E \<lparr>f_obj = obj, f_u = New_updater, f_sys = s\<rparr> = (Ret (res, err), f')"
    and "rt_pauseHandler r = None" and "u_deletion_timestamp obj = None"
  obtains (success) fs gs rel where "err = None" "requeue_after res = rt_reconcilePeriod r"
      "are_writes fs" "are_writes gs"
      "updateStatusFuncs (f_u f') = EnsureCondition (Paused ConditionFalse [] (MStr [])) # fs
         @ EnsureCondition (Initialized ConditionTrue [] (MStr [])) # gs @ success_tail rel"
  | (reported) vs e tail where "err = Some e" "res = no_result" "reports e tail"
      "updateStatusFuncs (f_u f') = map write_func vs @ tail"
  | (lost) e where "err = Some (lost_release e)" "res = no_result"
proof -
  let ?f = "\<lparr>f_obj = obj, f_u = New_updater, f_sys = s\<rparr>"
  let ?P = "EnsureCondition (Paused ConditionFalse [] (MStr []))"
  let ?I = "EnsureCondition (Initialized ConditionTrue [] (MStr []))"
  have u: "reconcile_unpaused r E ?f = (Ret (res, err), f')"
    using assms(1,2) by (simp add: reconcile_body_def)
  have d: "u_deletion_timestamp (f_obj ?f) = None" using assms(3) by simp
  from u d show ?thesis
  proof (cases rule: reconcile_unpaused_live)
    case (panic m)
    then show ?thesis by simp
  next
    case (client e tail)
    then show ?thesis
      by (intro reported [of e tail "[WCond (Paused ConditionFalse [] (MStr []))]"])
         (simp_all add: fail_with_def)
  next
    case (release A g fs)
    obtain vs where vs: "fs = map write_func vs" using release(2) by (auto simp: are_writes_map)
    have g: "updateStatusFuncs (f_u g) = ?P # fs @ [?I]" using release(3) by simp
    from reconcile_release_ends [OF release(1)] consider
      gs rel where "are_writes gs" "err = None" "requeue_after res = rt_reconcilePeriod r"
        "updateStatusFuncs (f_u f') = updateStatusFuncs (f_u g) @ gs @ success_tail rel"
      | gs e tail where "are_writes gs" "err = Some e" "res = no_result" "reports e tail"
        "updateStatusFuncs (f_u f') = updateStatusFuncs (f_u g) @ gs @ tail"
      | e where "err = Some (lost_release e)" "res = no_result"
      by (auto simp: ends_as_def fail_with_def)
    then show ?thesis
    proof cases
      case 1
      with g show ?thesis by (intro success [of fs gs rel]) (simp_all add: release(2))
    next
      case 2
      obtain ws where "gs = map write_func ws" using 2(1) by (auto simp: are_writes_map)
      with 2 g vs show ?thesis
        by (intro reported [of e tail "WCond (Paused ConditionFalse [] (MStr [])) # vs
              @ WCond (Initialized ConditionTrue [] (MStr [])) # ws"]) simp_all
    next
      case 3
      then show ?thesis by (rule lost)
    qed
  qed
qed

section \<open>Runs that find nothing to do\<close>

definition quiet :: "helm_app_status \<Rightarrow> UpdateStatusFunc \<Rightarrow> bool" where
  "quiet st f \<longleftrightarrow> (\<forall>now. f now st = (False, st))"

lemma run_quiet: "(\<And>f. f \<in> set fs \<Longrightarrow> quiet st f) \<Longrightarrow> run_status_funcs clk fs b st = (b, st)"
proof (induction fs arbitrary: clk b)
  case Nil
  then show ?case by simp
next
  case (Cons f fs)
  have "quiet st f" by (rule Cons.prems) simp
  then have "f (clk 0) st = (False, st)" by (simp add: quiet_def)
  moreover have "run_status_funcs (\<lambda>k. clk (Suc k)) fs b st = (b, st)"
    by (rule Cons.IH) (rule Cons.prems, simp)
  ultimately show ?case by simp
qed

lemma Apply_quiet:
  assumes "\<not> isCanceled u" and "updateFuncs u = []"
    and "\<And>f. f \<in> set (updateStatusFuncs u) \<Longrightarrow> quiet (statusFor L obj) f"
  shows "Apply C L u obj s = ((None, obj), s)"
proof -
  have "applied_status L u obj s = (False, statusFor L obj)"
    unfolding applied_status_def by (rule run_quiet) (rule assms(3))
  with assms(1,2) show ?thesis by (simp add: Apply_no_status_change apply_object_def)
qed

text \<open>
  The steady state of a resource: the stored status already says everything that a
  successful run over the release would say.
\<close>

definition settled :: "'w kube_lib \<Rightarrow> unstructured \<Rightarrow> release \<Rightarrow> bool" where
  "settled L obj rel \<longleftrightarrow>
     (\<forall>f \<in> set (EnsureCondition (Paused ConditionFalse [] (MStr []))
               # EnsureCondition (Initialized ConditionTrue [] (MStr [])) # success_tail rel).
        quiet (statusFor L obj) f)"

text \<open>
  The Helm client answers from an unchanging cluster that has the given release of the given
  values, and a dry run of the upgrade would change nothing.
\<close>

definition up_to_date ::
  "'w runtime \<Rightarrow> 'w action_interface \<Rightarrow> unstructured \<Rightarrow> vals \<Rightarrow> release \<Rightarrow> bool" where
  "up_to_date r A obj v rel \<longleftrightarrow>
     (\<forall>w. ai_Get A (u_name obj) [] w = ((Some rel, None), w))
     \<and> (\<forall>w. \<exists>spec. ai_Upgrade A (u_name obj) (u_namespace obj) (rt_chrt r) v
              (upgrade_options r obj @ [dry_run_option]) w = ((Some spec, None), w)
            \<and> rel_manifest spec = rel_manifest rel)
     \<and> (\<forall>w. ai_Reconcile A rel w = (None, w))
     \<and> (\<exists>info. rel_info rel = Some info \<and> ri_status info \<notin> {StatusFailed, StatusSuperseded})"

lemma perform_unchanged:
  assumes "up_to_date r A (f_obj f) v rel" and "rt_postHooks r = []"
  shows "\<exists>f'. perform_state r A v (Some rel) StateUnchanged f
      = (Ret (\<lparr>requeue_after = rt_reconcilePeriod r\<rparr>, None), f')
    \<and> f_obj f' = f_obj f \<and> updateFuncs (f_u f') = updateFuncs (f_u f)
    \<and> isCanceled (f_u f') = isCanceled (f_u f)
    \<and> calls (f_sys f') = calls (f_sys f) @ [EvReconcileRelease]
    \<and> (\<exists>gs. updateStatusFuncs (f_u f') = updateStatusFuncs (f_u f) @ gs \<and> set gs \<subseteq> set (success_tail rel))"
  using assms
  by (auto simp: perform_state_def doReconcile_def fcall_def call_def up_to_date_def finish_release_def
      success_tail_def)

lemma observe_up_to_date:
  assumes "up_to_date r A (f_obj f) v rel"
  shows "\<exists>f'. observe_release A f = (Ret (), f')
    \<and> f_obj f' = f_obj f \<and> updateFuncs (f_u f') = updateFuncs (f_u f)
    \<and> isCanceled (f_u f') = isCanceled (f_u f)
    \<and> calls (f_sys f') = calls (f_sys f) @ [EvGetRelease]
    \<and> (\<exists>gs. updateStatusFuncs (f_u f') = updateStatusFuncs (f_u f) @ gs
        \<and> set gs \<subseteq> insert (EnsureCondition (Initialized ConditionTrue [] (MStr []))) (set (success_tail rel)))"
  using assms
  by (auto simp: observe_release_def fcall_def call_def up_to_date_def success_tail_def)

lemma state_up_to_date:
  assumes "up_to_date r A (f_obj f) v rel"
  shows "\<exists>f'. getReleaseState r A v f = (Ret (Some rel, StateUnchanged, None), f')
    \<and> f_obj f' = f_obj f \<and> f_u f' = f_u f
    \<and> calls (f_sys f') = calls (f_sys f) @ [EvGetRelease, EvDryRunUpgrade]"
proof -
  from assms obtain spec info where
    g: "\<And>w. ai_Get A (u_name (f_obj f)) [] w = ((Some rel, None), w)" and
    u: "ai_Upgrade A (u_name (f_obj f)) (u_namespace (f_obj f)) (rt_chrt r) v
          (upgrade_options r (f_obj f) @ [dry_run_option]) (world (f_sys f))
        = ((Some spec, None), world (f_sys f))" and
    m: "rel_manifest spec = rel_manifest rel" and
    i: "rel_info rel = Some info" "ri_status info \<noteq> StatusFailed" "ri_status info \<noteq> StatusSuperseded"
    unfolding up_to_date_def by fastforce
  show ?thesis
    by (simp add: getReleaseState_def fcall_def call_def g u m i)
qed

lemma reconcile_up_to_date:
  assumes "up_to_date r A (f_obj f) v rel" and "getValues r E f = (Inr v, f1)"
    and "f_obj f1 = f_obj f" and "rt_preHooks r = []" and "rt_postHooks r = []"
  shows "\<exists>f'. reconcile_release r E A f = (Ret (\<lparr>requeue_after = rt_reconcilePeriod r\<rparr>, None), f')
    \<and> f_obj f' = f_obj f \<and> updateFuncs (f_u f') = updateFuncs (f_u f1)
    \<and> isCanceled (f_u f') = isCanceled (f_u f1)
    \<and> calls (f_sys f') = calls (f_sys f1) @ [EvGetRelease, EvDryRunUpgrade, EvReconcileRelease]
    \<and> (\<exists>gs. updateStatusFuncs (f_u f') = updateStatusFuncs (f_u f1) @ gs
        \<and> set gs \<subseteq> set (success_tail rel))"
proof -
  have up: "up_to_date r A (f_obj f1) v rel" using assms(1,3) by simp
  obtain f2 where s: "getReleaseState r A v f1 = (Ret (Some rel, StateUnchanged, None), f2)"
    "f_obj f2 = f_obj f1" "f_u f2 = f_u f1"
    "calls (f_sys f2) = calls (f_sys f1) @ [EvGetRelease, EvDryRunUpgrade]"
    using state_up_to_date [OF up] by blast
  let ?f3 = "collect [EnsureCondition (Irreconcilable ConditionFalse [] (MStr []))] f2"
  have "up_to_date r A (f_obj ?f3) v rel" using up s(2) by simp
  from perform_unchanged [OF this assms(5)] obtain f' gs where
    p: "perform_state r A v (Some rel) StateUnchanged ?f3
          = (Ret (\<lparr>requeue_after = rt_reconcilePeriod r\<rparr>, None), f')"
      "f_obj f' = f_obj f2" "updateFuncs (f_u f') = updateFuncs (f_u f2)"
      "isCanceled (f_u f') = isCanceled (f_u f2)"
      "calls (f_sys f') = calls (f_sys f2) @ [EvReconcileRelease]" and
    gs: "updateStatusFuncs (f_u f') = updateStatusFuncs (f_u ?f3) @ gs" "set gs \<subseteq> set (success_tail rel)"
    by auto
  have "reconcile_release r E A f = (Ret (\<lparr>requeue_after = rt_reconcilePeriod r\<rparr>, None), f')"
    using assms(2,4) s(1) p(1) by (simp add: reconcile_release_def)
  moreover have "updateStatusFuncs (f_u f') = updateStatusFuncs (f_u f1)
      @ (EnsureCondition (Irreconcilable ConditionFalse [] (MStr [])) # gs)"
    using gs(1) s(3) by simp
  moreover have "set (EnsureCondition (Irreconcilable ConditionFalse [] (MStr [])) # gs)
      \<subseteq> set (success_tail rel)"
    using gs(2) by (simp add: success_tail_def)
  ultimately show ?thesis using p s assms(3) by auto
qed

end
