(* ===== verification/Samples.thy ===== *)
theory Samples
  imports ReconcileRuns
begin

text \<open>
  A small concrete cluster on which the witnesses run the model: it stores one custom
  resource and one release, and its client, libraries and Helm client do what the
  documentation of the real ones says. Everything here computes.
\<close>

section \<open>The cluster\<close>

record cluster =
  cl_object :: "unstructured option"
  cl_release :: "release option"

text \<open>
  The API server: an update keeps the stored status, a status update keeps the rest, and an
  object under deletion goes away with its last finalizer.
\<close>

definition sample_get :: "namespaced_name \<Rightarrow> cluster io" where
  "sample_get key s =
     (case cl_object (snd s) of
        None \<Rightarrow> (Some (ErrApi NotFound ''not found''), s)
      | Some stored \<Rightarrow> (None, stored, snd s))"

definition sample_update :: "cluster io" where
  "sample_update s =
     (let (obj, w) = s
      in if u_deletion_timestamp obj \<noteq> None \<and> u_finalizers obj = []
         then (None, obj, w\<lparr>cl_object := None\<rparr>)
         else (None, obj, w\<lparr>cl_object := Some (obj\<lparr>u_status :=
                 (case cl_object w of None \<Rightarrow> StAbsent | Some st \<Rightarrow> u_status st)\<rparr>)\<rparr>))"

definition sample_status_update :: "cluster io" where
  "sample_status_update s =
     (let (obj, w) = s
      in (None, obj, w\<lparr>cl_object :=
            (case cl_object w of None \<Rightarrow> None | Some st \<Rightarrow> Some (st\<lparr>u_status := u_status obj\<rparr>))\<rparr>))"

definition sample_client :: "cluster kube_client" where
  "sample_client = \<lparr>kc_get = sample_get, kc_update = sample_update, kc_status_update = sample_status_update\<rparr>"

section \<open>The libraries\<close>

definition condition_json :: "condition \<Rightarrow> json" where
  "condition_json c = JObj [(''type'', JStr (cond_type c)), (''status'', JStr (cond_status c)),
     (''reason'', JStr (cond_reason c)), (''message'', JStr (cond_message c)),
     (''lastTransitionTime'', JNum (cond_last_transition c))]"

fun json_condition :: "json \<Rightarrow> condition" where
  "json_condition (JObj [(_, JStr t), (_, JStr s), (_, JStr r), (_, JStr m), (_, JNum n)]) =
     \<lparr>cond_type = t, cond_status = s, cond_reason = r, cond_message = m, cond_last_transition = n\<rparr>"
| "json_condition _ = unknown_condition []"

definition status_json :: "helm_app_status \<Rightarrow> json_map" where
  "status_json st =
     (''conditions'', JArr (map condition_json (has_conditions st)))
     # (case has_deployed_release st of
          None \<Rightarrow> []
        | Some r \<Rightarrow> [(''deployedRelease'',
              JObj [(''name'', JStr (har_name r)), (''manifest'', JStr (har_manifest r))])])"

fun json_release :: "json_map \<Rightarrow> helm_app_release option" where
  "json_release [(_, JObj [(_, JStr n), (_, JStr m)])] = Some \<lparr>har_name = n, har_manifest = m\<rparr>"
| "json_release _ = None"

fun json_status :: "json_map \<Rightarrow> helm_app_status" where
  "json_status ((_, JArr cs) # rest) =
     \<lparr>has_conditions = map json_condition cs, has_deployed_release = json_release rest\<rparr>"
| "json_status _ = empty_status"

definition sample_poll ::
  "int \<Rightarrow> (unstructured \<times> 'w \<Rightarrow> (go_error + bool) \<times> unstructured \<times> 'w) \<Rightarrow> 'w io" where
  "sample_poll t c s =
     (case c s of
        (Inl e, s') \<Rightarrow> (Some e, s')
      | (Inr b, s') \<Rightarrow> if b then (None, s') else (Some (ErrMsg ''timed out''), s'))"

definition sample_lib :: "'w kube_lib" where
  "sample_lib =
     \<lparr>lib_retry_OnError = (\<lambda>p f. f), lib_poll = sample_poll,
      lib_RemoveFinalizer = (\<lambda>f fs. filter (\<lambda>x. x \<noteq> f) fs),
      lib_ToUnstructured = (\<lambda>st. Inr (status_json st)), lib_FromUnstructured = json_status,
      lib_clock = (\<lambda>w k. 7)\<rparr>"

lemma json_condition_json: "json_condition (condition_json c) = c"
  by (simp add: condition_json_def)

lemma json_status_json: "json_status (status_json st) = st"
proof -
  have "map (json_condition \<circ> condition_json) cs = cs" for cs
    by (induction cs) (simp_all add: json_condition_json)
  then show ?thesis by (cases "has_deployed_release st") (simp_all add: status_json_def)
qed

lemma sample_lib_ok [simp]: "lib_ok sample_lib"
proof -
  have "retry_ok (\<lambda>p f. f)" unfolding retry_ok_def by (auto intro: exI [of _ 0])
  moreover have "poll_ok sample_poll"
    by (auto simp: poll_ok_def sample_poll_def split: prod.splits sum.splits if_splits)
  ultimately show ?thesis
    by (auto simp: lib_ok_def sample_lib_def json_status_json)
qed

section \<open>The Helm client and the operator\<close>

definition sample_release :: "string \<Rightarrow> string \<Rightarrow> chart \<Rightarrow> int \<Rightarrow> release" where
  "sample_release name namespace chrt version =
     \<lparr>rel_name = name, rel_namespace = namespace, rel_version = version,
      rel_manifest = ''manifest of '' @ ch_name chrt,
      rel_info = Some \<lparr>ri_status = ''deployed'', ri_notes = []\<rparr>, rel_labels = Map.empty, rel_rest = JNull\<rparr>"

definition sample_upgrade_action :: "'w upgrade_action" where
  "sample_upgrade_action =
     \<lparr>ua_namespace = [], ua_disable_hooks = False, ua_force = False, ua_description = [],
      ua_max_history = 0, ua_dry_run = False, ua_dry_run_option = [], ua_post_renderer = None\<rparr>"

definition sample_action :: "cluster action_interface" where
  "sample_action =
     \<lparr>ai_Get = (\<lambda>name opts w. case cl_release w of
          None \<Rightarrow> ((None, Some ErrReleaseNotFound), w) | Some r \<Rightarrow> ((Some r, None), w)),
      ai_History = (\<lambda>name opts w. (([], None), w)),
      ai_Install = (\<lambda>name namespace chrt vals opts w.
          let r = sample_release name namespace chrt 1 in ((Some r, None), w\<lparr>cl_release := Some r\<rparr>)),
      ai_Upgrade = (\<lambda>name namespace chrt vals opts w.
          case run_options opts sample_upgrade_action of
            Inl e \<Rightarrow> ((None, Some e), w)
          | Inr u \<Rightarrow> let r = sample_release name namespace chrt 2
                     in ((Some r, None), if ua_dry_run u then w else w\<lparr>cl_release := Some r\<rparr>)),
      ai_Uninstall = (\<lambda>name opts w. case cl_release w of
          None \<Rightarrow> ((None, Some ErrReleaseNotFound), w)
        | Some r \<Rightarrow> ((Some \<lparr>ur_release = Some r, ur_info = []\<rparr>, None), w\<lparr>cl_release := None\<rparr>)),
      ai_Reconcile = (\<lambda>rel w. (None, w))\<rparr>"

text \<open>A Helm client whose uninstall, and one whose install fails.\<close>

definition broken_action :: "cluster action_interface" where
  "broken_action = sample_action
     \<lparr>ai_Uninstall := (\<lambda>name opts w. ((None, Some (ErrMsg ''boom'')), w)),
      ai_Install := (\<lambda>name namespace chrt vals opts w. ((None, Some (ErrMsg ''boom'')), w))\<rparr>"

text \<open>A Helm client that cannot read releases.\<close>

definition flaky_action :: "cluster action_interface" where
  "flaky_action = sample_action\<lparr>ai_Get := (\<lambda>name opts w. ((None, Some (ErrMsg ''timeout'')), w))\<rparr>"

definition sample_runtime :: "cluster action_interface \<Rightarrow> cluster runtime" where
  "sample_runtime A =
     \<lparr>rt_client = sample_client, rt_actionClientGetter = (\<lambda>obj w. (Inr A, w)),
      rt_valueTranslator = (\<lambda>obj w. ((DefaultTranslator obj, obj), w)),
      rt_valueMapper = DefaultMapper, rt_eventRecorder = (\<lambda>obj t reason m w. w),
      rt_preHooks = [], rt_postHooks = [],
      rt_gvk = \<lparr>gvk_group = ''apps'', gvk_version = ''v1'', gvk_kind = ''Nginx''\<rparr>,
      rt_chrt = \<lparr>ch_name = ''nginx'', ch_content = JNull\<rparr>,
      rt_overrideValues = [], rt_reconcilePeriod = 60, rt_waitForDeletionTimeout = 30,
      rt_maxReleaseHistory = 10, rt_pauseHandler = None, rt_installAnnotations = [],
      rt_upgradeAnnotations = [], rt_uninstallAnnotations = []\<rparr>"

definition sample_env :: "cluster env" where
  "sample_env =
     \<lparr>e_lib = sample_lib,
      e_values = \<lparr>vl_getenv = (\<lambda>x. []), vl_ParseInto = (\<lambda>line m. (None, m))\<rparr>,
      e_CoalesceValues = (\<lambda>chrt v. Inr v)\<rparr>"

definition sample_object :: unstructured where
  "sample_object = (new_object (rt_gvk (sample_runtime sample_action)))
     \<lparr>u_name := ''web'', u_namespace := ''prod'', u_spec := Some (JObj [])\<rparr>"

definition protected_object :: unstructured where
  "protected_object = sample_object\<lparr>u_finalizers := [uninstallFinalizer]\<rparr>"

definition deleted_object :: unstructured where
  "deleted_object = protected_object\<lparr>u_deletion_timestamp := Some 5\<rparr>"

definition start :: "unstructured \<Rightarrow> release option \<Rightarrow> cluster sys" where
  "start obj rel = \<lparr>world = \<lparr>cl_object = Some obj, cl_release = rel\<rparr>, calls = []\<rparr>"

text \<open>A Helm client of a cluster that never changes, and a resource whose status already describes the installed release.\<close>

definition installed :: release where
  "installed = sample_release ''web'' ''prod'' \<lparr>ch_name = ''nginx'', ch_content = JNull\<rparr> 1"

definition steady_action :: "cluster action_interface" where
  "steady_action = sample_action\<lparr>ai_Get := (\<lambda>name opts w. ((Some installed, None), w))\<rparr>"

definition settled_status :: helm_app_status where
  "settled_status =
     \<lparr>has_conditions =
        [Paused ConditionFalse [] (MStr []),
         Deployed ConditionTrue ReasonInstallSuccessful (MStr ''release was successfully installed''),
         Initialized ConditionTrue [] (MStr []), Irreconcilable ConditionFalse [] (MStr []),
         ReleaseFailed ConditionFalse [] (MStr [])],
      has_deployed_release = helmAppReleaseFor (Some installed)\<rparr>"

definition settled_object :: unstructured where
  "settled_object = protected_object\<lparr>u_status := StStruct settled_status\<rparr>"

abbreviation sample_request :: namespaced_name where
  "sample_request \<equiv> (''prod'', ''web'')"

text \<open>The life of a resource: created, unchanged, deleted.\<close>

lemma sample_install_run:
  "calls (snd (Reconcile (sample_runtime sample_action) sample_env sample_request
     (start sample_object None))) =
     [EvGetCR, EvAddFinalizer, EvActionClientFor, EvGetRelease, EvTranslate, EvGetRelease,
      EvInstall, EvStatusUpdate]"
  by code_simp

lemma sample_unchanged_run:
  "calls (snd (Reconcile (sample_runtime sample_action) sample_env sample_request
     (start protected_object (Some installed)))) =
     [EvGetCR, EvActionClientFor, EvGetRelease, EvTranslate, EvGetRelease, EvDryRunUpgrade,
      EvReconcileRelease, EvStatusUpdate]"
  by code_simp

lemma sample_delete_run:
  "calls (snd (Reconcile (sample_runtime sample_action) sample_env sample_request
     (start deleted_object (Some installed)))) =
     [EvGetCR, EvActionClientFor, EvGetRelease, EvUninstall, EvStatusUpdate, EvUpdateCR,
      EvWaitForDeletion]"
  by code_simp

section \<open>The hypotheses of the properties on the samples\<close>

lemmas sample_defs =
  sample_get_def sample_update_def sample_status_update_def sample_client_def sample_runtime_def
  sample_env_def sample_object_def protected_object_def deleted_object_def start_def

lemma sample_objects [simp]:
  "u_deletion_timestamp sample_object = None" "u_finalizers sample_object = []"
  "u_deletion_timestamp protected_object = None"
  "u_finalizers protected_object = [uninstallFinalizer]"
  "u_deletion_timestamp deleted_object = Some 5" "u_finalizers deleted_object = [uninstallFinalizer]"
  "u_name protected_object = ''web''" "u_name deleted_object = ''web''"
  by (simp_all add: sample_defs new_object_def)

lemma sample_fetched:
  "fetched (sample_runtime A) sample_request (start protected_object rel) = Some protected_object"
  "fetched (sample_runtime A) sample_request (start deleted_object rel) = Some deleted_object"
  by (simp_all add: fetched_def needs_finalizer_def sample_runtime_def sample_client_def
      sample_get_def start_def)

lemma sample_pause [simp]:
  "rt_pauseHandler (sample_runtime A) = None" "pause_keeps_deletion (sample_runtime A)"
  "e_lib sample_env = sample_lib" "rt_client (sample_runtime A) = sample_client"
  by (simp_all add: sample_runtime_def pause_keeps_deletion_def sample_env_def)

lemma sample_up_to_date: "up_to_date (sample_runtime steady_action) steady_action settled_object [] installed"
  by (simp add: up_to_date_def steady_action_def sample_action_def sample_runtime_def installed_def sample_release_def
      upgrade_options_def annotation_options_def max_history_option_def dry_run_option_def
      sample_upgrade_action_def settled_object_def protected_object_def)

lemma sample_settled: "settled sample_lib settled_object installed"
  by (simp add: settled_def quiet_def settled_object_def statusFor_def settled_status_def
      success_tail_def ensureDeployedRelease_def installed_def sample_release_def
      EnsureCondition_def SetCondition_def condition_ctor_defs EnsureDeployedRelease_def
      helmAppReleaseFor_def)

lemma settled_object_fields [simp]:
  "u_deletion_timestamp settled_object = None" "u_finalizers settled_object = [uninstallFinalizer]"
  "u_spec settled_object = Some (JObj [])"
  by (simp_all add: settled_object_def sample_defs new_object_def)

lemma sample_runtime_fields [simp]:
  "rt_preHooks (sample_runtime A) = []" "rt_postHooks (sample_runtime A) = []"
  "rt_overrideValues (sample_runtime A) = []"
  "rt_actionClientGetter (sample_runtime A) obj w = (Inr A, w)"
  "rt_valueTranslator (sample_runtime A) obj w = ((DefaultTranslator obj, obj), w)"
  "rt_valueMapper (sample_runtime A) v = v" "e_CoalesceValues sample_env c v = Inr v"
  by (simp_all add: sample_runtime_def sample_env_def DefaultMapper_def)

end
