(* ===== verification/ReconcileProps.thy ===== *)
theory ReconcileProps
  imports Samples
begin

text \<open>
  The properties of the reconcile loop, stated over complete runs of \<open>Reconcile\<close> or over
  the function that decides them.
\<close>

text \<open>C3. Uninstall protection comes first: for a resource that is not being deleted and
  does not carry the uninstall finalizer, the run gets the resource, asks the API server to add
  the finalizer, and does anything else (any call of Helm, hook or status update) only if
  that update succeeded; if it failed, the run ends there with its error.\<close>

theorem finalizer_before_everything:
  assumes "Reconcile r E req s = (out, s')"
    and "kc_get (rt_client r) req (new_object (rt_gvk r), world s) = (None, obj, w1)"
    and "u_deletion_timestamp obj = None" and "uninstallFinalizer \<notin> set (u_finalizers obj)"
    and "kc_update (rt_client r) (add_finalizer obj, w1) = (err, obj2, w2)"
  shows "uninstallFinalizer \<in> set (u_finalizers (add_finalizer obj))
    \<and> (\<exists>es. calls s' = calls s @ EvGetCR # EvAddFinalizer # es
        \<and> (\<forall>e. err = Some e \<longrightarrow> es = [] \<and> world s' = w2 \<and> (\<exists>m. out = fail_with (ErrWrap m e))))"
proof -
  obtain s1 where g: "io_call EvGetCR (kc_get (rt_client r) req) (new_object (rt_gvk r)) s = ((None, obj), s1)"
    and s1: "world s1 = w1" "calls s1 = calls s @ [EvGetCR]"
    using io_call_eq [of "kc_get (rt_client r) req" "new_object (rt_gvk r)" s] assms(2) by fastforce
  obtain s2 where u: "io_call EvAddFinalizer (kc_update (rt_client r)) (add_finalizer obj) s1 = ((err, obj2), s2)"
    and s2: "world s2 = w2" "calls s2 = calls s @ [EvGetCR, EvAddFinalizer]"
    using io_call_eq [of "kc_update (rt_client r)" "add_finalizer obj" s1] assms(5) s1 by fastforce
  have n: "needs_finalizer obj" using assms(3,4) by (simp add: needs_finalizer_def)
  have fin: "uninstallFinalizer \<in> set (u_finalizers (add_finalizer obj))" by (simp add: add_finalizer_def)
  show ?thesis
  proof (cases err)
    case (Some e)
    with assms(1) g n u have "s' = s2" "\<exists>m. out = fail_with (ErrWrap m e)"
      by (auto simp: Reconcile_def)
    with s2 Some fin show ?thesis by auto
  next
    case None
    with assms(1) g n u have d: "reconcile_deferred r E obj2 s2 = (out, s')"
      by (simp add: Reconcile_def)
    from log_grows [OF d] s2 None fin show ?thesis by auto
  qed
qed

theorem finalizer_before_everything_witness:
  "\<exists>es. calls (snd (Reconcile (sample_runtime sample_action) sample_env sample_request
     (start sample_object None))) = EvGetCR # EvAddFinalizer # es"
proof -
  obtain out s' where run: "Reconcile (sample_runtime sample_action) sample_env sample_request
      (start sample_object None) = (out, s')" by fastforce
  have "kc_get (rt_client (sample_runtime sample_action)) sample_request
      (new_object (rt_gvk (sample_runtime sample_action)), world (start sample_object None))
      = (None, sample_object, world (start sample_object None))"
    by (simp add: sample_client_def sample_get_def start_def)
  moreover obtain err obj2 w2 where
    "kc_update (rt_client (sample_runtime sample_action))
       (add_finalizer sample_object, world (start sample_object None)) = (err, obj2, w2)"
    by (metis surj_pair)
  ultimately show ?thesis
    using finalizer_before_everything [OF run _ sample_objects(1)] run by (fastforce simp: start_def)
qed





text \<open>C6. The finalizer is removed, which is the only write of the resource itself during a
  deletion, only by a resource that carries it and only after Helm's uninstall of its release
  has returned without error or has found no release.\<close>

theorem finalizer_removed_after_uninstall:
  assumes "handleDeletion r L A f = (out, f')"
    and "calls (f_sys f') = calls (f_sys f) @ es" and "EvUpdateCR \<in> set es"
  shows "uninstallFinalizer \<in> set (u_finalizers (f_obj f))
    \<and> (\<exists>resp err w1. ai_Uninstall A (u_name (f_obj f)) (uninstall_options r (f_obj f)) (world (f_sys f))
           = ((resp, err), w1) \<and> (err = None \<or> opt_Is err ErrReleaseNotFound))
    \<and> (\<exists>post. es = EvUninstall # post)"
proof -
  have fin: "ContainsFinalizer (f_obj f) uninstallFinalizer"
  proof (rule ccontr)
    assume "\<not> ?thesis"
    with assms(1) have "wait_deletion r L f = (out, f')" by (simp add: handleDeletion_def)
    from wait_deletion_log(1) [OF this] assms(2,3) show False by simp
  qed
  from handleDeletion_finalizer [OF assms(1) fin] obtain o1 g aerr obj' s' post where
    u: "doUninstall r L A (f\<lparr>f_u := New_updater\<rparr>) = (o1, g)" and
    a: "Apply (rt_client r) L (f_u g) (f_obj g) (f_sys g) = ((aerr, obj'), s')" and
    log: "calls (f_sys f') = calls s' @ post" "EvUpdateCR \<notin> set post"
    by blast
  from assms(2) log(1) doUninstall_log(1) [OF u] Apply_calls [OF a]
  obtain mid where es: "es = EvUninstall # mid @ post" and mid: "calls s' = calls (f_sys g) @ mid"
    by auto
  with assms(3) log(2) have upd: "EvUpdateCR \<in> set mid" by auto
  from u show ?thesis
  proof (cases rule: doUninstall_cases)
    case (removed resp err f1)
    with fcall_eqD(4) [OF removed(1)] es fin show ?thesis by auto
  next
    case (failed resp e f1)
    then have "updateFuncs (f_u g) = []" using fcall_eqD(2) [OF failed(1)] by simp
    from Apply_adds_status [OF this a] mid upd show ?thesis by (auto simp: adds_def)
  next
    case (panic resp f1)
    then have "updateFuncs (f_u g) = []" using fcall_eqD(2) [OF panic(1)] by simp
    from Apply_adds_status [OF this a] mid upd show ?thesis by (auto simp: adds_def)
  qed
qed

theorem finalizer_removed_after_uninstall_witness:
  "\<exists>out f'. handleDeletion (sample_runtime sample_action) sample_lib sample_action
       \<lparr>f_obj = deleted_object, f_u = New_updater, f_sys = start deleted_object (Some installed)\<rparr> = (out, f')
     \<and> EvUpdateCR \<in> set (calls (f_sys f')) \<and> hd (calls (f_sys f')) = EvUninstall"
proof -
  let ?f = "\<lparr>f_obj = deleted_object, f_u = New_updater, f_sys = start deleted_object (Some installed)\<rparr>"
  obtain out f' where run: "handleDeletion (sample_runtime sample_action) sample_lib sample_action ?f
      = (out, f')" by fastforce
  have "calls (f_sys (snd (handleDeletion (sample_runtime sample_action) sample_lib sample_action ?f)))
      = [EvUninstall, EvStatusUpdate, EvUpdateCR, EvWaitForDeletion]" by code_simp
  then have "calls (f_sys f') = calls (f_sys ?f) @ calls (f_sys f')"
    and upd: "EvUpdateCR \<in> set (calls (f_sys f'))"
    using run by (simp_all add: start_def)
  from finalizer_removed_after_uninstall [OF run this] run upd show ?thesis by auto
qed

text \<open>C7. When Helm's uninstall fails (other than with a missing release), the deletion returns
  that error, the only thing written is the status, computed from the two conditions of the
  failure, the finalizer stays, and the run does not wait for the resource to go away.\<close>

theorem uninstall_failure_keeps_finalizer:
  assumes "handleDeletion r L A f = (out, f')"
    and "uninstallFinalizer \<in> set (u_finalizers (f_obj f))"
    and "ai_Uninstall A (u_name (f_obj f)) (uninstall_options r (f_obj f)) (world (f_sys f))
           = ((resp, Some e), w1)"
    and "\<not> errors_Is e ErrReleaseNotFound"
  shows "out = Ret (Some e)
    \<and> (\<exists>s1 aerr. calls s1 = calls (f_sys f) @ [EvUninstall] \<and> world s1 = w1
        \<and> Apply (rt_client r) L (UpdateStatus (release_failed ReasonUninstallError e) New_updater)
             (f_obj f) s1 = ((aerr, f_obj f'), f_sys f'))
    \<and> (calls (f_sys f') = calls (f_sys f) @ [EvUninstall]
        \<or> calls (f_sys f') = calls (f_sys f) @ [EvUninstall, EvStatusUpdate])"
proof -
  let ?f0 = "f\<lparr>f_u := New_updater\<rparr>"
  obtain f1 where c: "fcall EvUninstall (ai_Uninstall A (u_name (f_obj f)) (uninstall_options r (f_obj f))) ?f0
      = ((resp, Some e), f1)"
    using assms(3) by (auto simp: fcall_def call_def)
  note c1 = fcall_eqD [OF c]
  let ?g = "collect (release_failed ReasonUninstallError e) f1"
  have u: "doUninstall r L A ?f0 = (Ret (Some e), ?g)"
    using c assms(4) by (simp add: doUninstall_def)
  obtain aerr obj' s' where a: "Apply (rt_client r) L (f_u ?g) (f_obj ?g) (f_sys ?g) = ((aerr, obj'), s')"
    by (metis surj_pair)
  have f': "out = Ret (Some e)" "f' = f\<lparr>f_obj := obj', f_sys := s'\<rparr>"
    using assms(1,2) by (simp_all add: handleDeletion_def u a [simplified])
  have "updateFuncs (f_u ?g) = []" using c1(2) by simp
  from Apply_adds_status [OF this a] Apply_calls [OF a]
  have "calls s' = calls (f_sys f1) \<or> calls s' = calls (f_sys f1) @ [EvStatusUpdate]"
    by (auto simp: adds_def)
  moreover have "world (f_sys f1) = w1" using c1(4) assms(3) by simp
  ultimately show ?thesis using a c1(1-3) f' by auto
qed

theorem uninstall_failure_keeps_finalizer_witness:
  "fst (handleDeletion (sample_runtime broken_action) sample_lib broken_action
      \<lparr>f_obj = deleted_object, f_u = New_updater, f_sys = start deleted_object (Some installed)\<rparr>)
     = Ret (Some (ErrMsg ''boom''))"
proof -
  let ?f = "\<lparr>f_obj = deleted_object, f_u = New_updater, f_sys = start deleted_object (Some installed)\<rparr>"
  obtain out f' where run: "handleDeletion (sample_runtime broken_action) sample_lib broken_action ?f
      = (out, f')" by fastforce
  have "ai_Uninstall broken_action (u_name (f_obj ?f))
      (uninstall_options (sample_runtime broken_action) (f_obj ?f)) (world (f_sys ?f))
      = ((None, Some (ErrMsg ''boom'')), world (f_sys ?f))"
    by (simp add: broken_action_def sample_action_def)
  from uninstall_failure_keeps_finalizer [OF run _ this] run show ?thesis by simp
qed









text \<open>C12. The state of a release is unchanged exactly when Helm knows the release, a dry run
  of the upgrade succeeds with the same manifest, and the release is neither failed nor
  superseded.\<close>

theorem unchanged_iff:
  "fst (getReleaseState r A vals0 f) = Ret (rel, StateUnchanged, None) \<longleftrightarrow>
     (\<exists>cur spec info w1 w2. rel = Some cur
        \<and> ai_Get A (u_name (f_obj f)) [] (world (f_sys f)) = ((Some cur, None), w1)
        \<and> ai_Upgrade A (u_name (f_obj f)) (u_namespace (f_obj f)) (rt_chrt r) vals0
            (upgrade_options r (f_obj f) @ [dry_run_option]) w1 = ((Some spec, None), w2)
        \<and> rel_manifest spec = rel_manifest cur
        \<and> rel_info cur = Some info \<and> ri_status info \<notin> {StatusFailed, StatusSuperseded})"
proof -
  obtain cur err w1 where g: "ai_Get A (u_name (f_obj f)) [] (world (f_sys f)) = ((cur, err), w1)"
    by (metis surj_pair)
  obtain spec err2 w2 where u: "ai_Upgrade A (u_name (f_obj f)) (u_namespace (f_obj f)) (rt_chrt r) vals0
      (upgrade_options r (f_obj f) @ [dry_run_option]) w1 = ((spec, err2), w2)"
    by (metis surj_pair)
  show ?thesis
    by (cases err; cases err2; cases cur; cases spec)
       (auto simp: getReleaseState_def Let_def fcall_def call_def g u split: option.splits if_splits)
qed

text \<open>The upgrade that looks for differences is a dry run whatever the default options,
  the annotations of the resource and the history limit are: replacing what Helm does in
  every upgrade that is not a server-side dry run changes nothing about the outcome.\<close>

theorem release_state_dry_run_only:
  "getReleaseState r (action_interface_of PL c) vals0 f =
     getReleaseState r (action_interface_of PL (c\<lparr>conf := (conf c)\<lparr>helm_Upgrade :=
        (\<lambda>u. if ua_dry_run u \<and> ua_dry_run_option u = ''server'' then helm_Upgrade (conf c) u
             else other u)\<rparr>\<rparr>)) vals0 f"
proof -
  let ?h = "(conf c)\<lparr>helm_Upgrade :=
        (\<lambda>u. if ua_dry_run u \<and> ua_dry_run_option u = ''server'' then helm_Upgrade (conf c) u
             else other u)\<rparr>"
  let ?c = "c\<lparr>conf := ?h\<rparr>"
  have get: "client_Get ?c = client_Get c"
    by (simp add: client_Get_def fun_eq_iff split: sum.splits)
  have roll: "client_rollback ?c = client_rollback c"
    by (simp add: client_rollback_def fun_eq_iff split: sum.splits)
  have up: "client_Upgrade ?c name ns chrt v (opts @ [dry_run_option]) w =
      client_Upgrade c name ns chrt v (opts @ [dry_run_option]) w" for name ns chrt v opts w
  proof (cases "run_options (defaultUpgradeOpts c @ opts) (helm_NewUpgrade (conf c))")
    case (Inl e)
    then have "run_options (concat_opts (defaultUpgradeOpts c) (opts @ [dry_run_option]))
        (helm_NewUpgrade (conf c)) = Inl e"
      unfolding concat_opts_def append.assoc [symmetric] run_options_snoc by simp
    then show ?thesis by (simp add: client_Upgrade_def)
  next
    case (Inr u)
    then have "run_options (concat_opts (defaultUpgradeOpts c) (opts @ [dry_run_option]))
        (helm_NewUpgrade (conf c)) = Inr (u\<lparr>ua_dry_run := True, ua_dry_run_option := ''server''\<rparr>)"
      unfolding concat_opts_def append.assoc [symmetric] run_options_snoc
      by (simp add: dry_run_option_def)
    then show ?thesis by (auto simp: client_Upgrade_def Let_def roll split: prod.split option.split)
  qed
  have get': "ai_Get (action_interface_of PL ?c) = ai_Get (action_interface_of PL c)"
    by (simp add: action_interface_of_def get)
  have up': "ai_Upgrade (action_interface_of PL ?c) name ns chrt v (opts @ [dry_run_option]) =
      ai_Upgrade (action_interface_of PL c) name ns chrt v (opts @ [dry_run_option])"
    for name ns chrt v opts
    by (simp add: action_interface_of_def up fun_eq_iff)
  show ?thesis unfolding getReleaseState_def get' up' ..
qed

text \<open>C16. When the release cannot be read again right before an upgrade, the run fails but
  collects nothing more: the status still says reconcilable, as it did after the release state
  had been found.\<close>

theorem lost_release_unreported:
  assumes "ai_Get A (u_name (f_obj f)) [] (world (f_sys f)) = ((cur, Some e), w1)"
    and "updateStatusFuncs (f_u f) = map write_func ws @ [EnsureCondition (Irreconcilable ConditionFalse [] (MStr []))]"
  shows "\<exists>f'. perform_state r A vals0 rel StateNeedsUpgrade f =
        (fail_with (ErrWrap ''could not get the current Helm Release: '' e), f')
     \<and> IsFalseFor (has_conditions (snd (applied_status L (f_u f') obj s))) TypeIrreconcilable"
proof -
  obtain f1 where c: "fcall EvGetRelease (ai_Get A (u_name (f_obj f)) []) f = ((cur, Some e), f1)"
    using assms(1) by (auto simp: fcall_def call_def)
  have "perform_state r A vals0 rel StateNeedsUpgrade f = (fail_with (lost_release e), f1)"
    by (simp add: perform_state_def doUpgrade_def c)
  moreover have W: "updateStatusFuncs (f_u f1) =
      map write_func (ws @ [WCond (Irreconcilable ConditionFalse [] (MStr []))])"
    using fcall_eqD(2) [OF c] assms(2) by simp
  have l: "last_cond TypeIrreconcilable (ws @ [WCond (Irreconcilable ConditionFalse [] (MStr []))])
      = Some (Irreconcilable ConditionFalse [] (MStr []))"
    by (simp add: last_cond_append)
  have "IsFalseFor (has_conditions (snd (applied_status L (f_u f1) obj s))) TypeIrreconcilable"
    by (rule applied_false [OF W l condition_ctor_fields(4)])
  ultimately show ?thesis by blast
qed

theorem lost_release_unreported_witness:
  "\<exists>f'. perform_state (sample_runtime flaky_action) flaky_action [] (Some installed) StateNeedsUpgrade
       (collect [EnsureCondition (Irreconcilable ConditionFalse [] (MStr []))]
         \<lparr>f_obj = protected_object, f_u = New_updater, f_sys = start protected_object (Some installed)\<rparr>)
     = (fail_with (ErrWrap ''could not get the current Helm Release: '' (ErrMsg ''timeout'')), f')
     \<and> IsFalseFor (has_conditions (snd (applied_status sample_lib (f_u f') protected_object
           (start protected_object (Some installed))))) TypeIrreconcilable"
  by (rule lost_release_unreported [where ws = "[]" and cur = None])
     (simp_all add: flaky_action_def)

text \<open>A run that has found the release state and then fails to install always needs a
  status update, even when the stored status already reports that very failure: the condition
  is first collected as false and then as true, so its stored value flips within one
  \<open>Apply\<close>.\<close>

theorem failing_install_always_writes:
  assumes "doInstall r A vals0 (collect [EnsureCondition (Irreconcilable ConditionFalse [] (MStr []))] f)
      = (Ret (Inl e), f')"
    and "updateStatusFuncs (f_u f) = map write_func ws"
  shows "fst (applied_status L (f_u f') obj s)"
proof -
  let ?f0 = "collect [EnsureCondition (Irreconcilable ConditionFalse [] (MStr []))] f"
  obtain rel err g where c: "fcall EvInstall (ai_Install A (u_name (f_obj ?f0)) (u_namespace (f_obj ?f0))
      (rt_chrt r) vals0 (install_options r (f_obj ?f0))) ?f0 = ((rel, err), g)"
    by (metis surj_pair)
  from assms(1) c have "f' = collect (release_failed ReasonInstallError e) g"
    by (auto simp: doInstall_def Let_def split: option.splits)
  then have W: "updateStatusFuncs (f_u f') = map write_func (ws @
      [WCond (Irreconcilable ConditionFalse [] (MStr [])),
       WCond (Irreconcilable ConditionTrue ReasonReconcileError (MErr e)),
       WCond (ReleaseFailed ConditionTrue ReasonInstallError (MErr e))])"
    (is "_ = map write_func ?ws")
    using fcall_eqD(2) [OF c] assms(2) by (simp add: release_failed_def)
  have "\<not> (\<forall>w \<in> set ?ws. agrees (statusFor L obj) w)"
    by (auto simp: cond_agree_def)
  then show ?thesis
    unfolding applied_status_def W
    using run_writes_unneeded [of "lib_clock L (world s)" ?ws False "statusFor L obj"] by blast
qed

theorem failing_install_always_writes_witness:
  "\<exists>f'. doInstall (sample_runtime broken_action) broken_action []
       (collect [EnsureCondition (Irreconcilable ConditionFalse [] (MStr []))]
         \<lparr>f_obj = protected_object, f_u = New_updater, f_sys = start protected_object None\<rparr>)
     = (Ret (Inl (ErrMsg ''boom'')), f')
     \<and> fst (applied_status sample_lib (f_u f') protected_object (start protected_object None))"
proof -
  let ?run = "doInstall (sample_runtime broken_action) broken_action []
       (collect [EnsureCondition (Irreconcilable ConditionFalse [] (MStr []))]
         \<lparr>f_obj = protected_object, f_u = New_updater, f_sys = start protected_object None\<rparr>)"
  have "fst ?run = Ret (Inl (ErrMsg ''boom''))"
    by (simp add: doInstall_def broken_action_def fcall_def call_def)
  then have run: "?run = (Ret (Inl (ErrMsg ''boom'')), snd ?run)" by (metis prod.collapse)
  from failing_install_always_writes [OF run, of "[]"] run show ?thesis
    by (intro exI [of _ "snd ?run"]) simp
qed

text \<open>A reconcile that finds nothing to do writes nothing: when the release is up to date,
  no hook, override or pause handler is configured and the stored status already says what a
  success says, the run only reads (and lets Helm repair the release's objects), makes no
  status update and no update of the resource, and asks to be requeued after the period.\<close>

theorem steady_state_writes_nothing:
  assumes "fetched r req s = Some obj" and "Reconcile r E req s = (out, s')"
    and "u_deletion_timestamp obj = None" and "uninstallFinalizer \<in> set (u_finalizers obj)"
    and "rt_pauseHandler r = None" and "rt_preHooks r = []" and "rt_postHooks r = []"
    and "rt_overrideValues r = []" and "u_spec obj = Some (JObj m)"
    and "\<And>w. rt_actionClientGetter r obj w = (Inr A, w)"
    and "\<And>w. rt_valueTranslator r obj w = ((Inr v0, obj), w)"
    and "e_CoalesceValues E (rt_chrt r) (rt_valueMapper r v0) = Inr v"
    and "up_to_date r A obj v rel" and "settled (e_lib E) obj rel"
  shows "out = Ret (\<lparr>requeue_after = rt_reconcilePeriod r\<rparr>, None)
    \<and> (\<exists>es. calls s' = calls s @ es \<and> EvStatusUpdate \<notin> set es \<and> EvUpdateCR \<notin> set es)"
proof -
  from assms(2,1) obtain s2 where d: "reconcile_deferred r E obj s2 = (out, s')"
    and c: "calls s2 = calls s @ [EvGetCR] \<or> calls s2 = calls s @ [EvGetCR, EvAddFinalizer]"
    by (rule Reconcile_fetched)
  let ?P = "EnsureCondition (Paused ConditionFalse [] (MStr []))"
  let ?f = "collect [?P] \<lparr>f_obj = obj, f_u = New_updater, f_sys = s2\<rparr>"
  obtain f1 where a: "fcall EvActionClientFor (rt_actionClientGetter r obj) ?f = (Inr A, f1)"
    using assms(10) by (simp add: fcall_def call_def)
  note a' = fcall_eqD(1-3) [OF a]
  have "up_to_date r A (f_obj f1) v rel" using assms(13) a'(1) by simp
  from observe_up_to_date [OF this] obtain f2 gs2 where
    ob: "observe_release A f1 = (Ret (), f2)" "f_obj f2 = obj" "updateFuncs (f_u f2) = []"
      "\<not> isCanceled (f_u f2)" "calls (f_sys f2) = calls s2 @ [EvActionClientFor, EvGetRelease]"
      "updateStatusFuncs (f_u f2) = ?P # gs2"
      "set gs2 \<subseteq> insert (EnsureCondition (Initialized ConditionTrue [] (MStr []))) (set (success_tail rel))"
    using a' by auto
  have ov: "ApplyOverrides (e_values E) (rt_overrideValues r) obj = (None, obj)"
    unfolding assms(8) by (rule ApplyOverrides_none [of obj m]) (simp add: getSpecMap_Inr assms(9))
  have o2: "f2\<lparr>f_obj := obj\<rparr> = f2" using ob(2) by (cases f2) simp
  obtain f3 where v: "getValues r E f2 = (Inr v, f3)" and v': "f_obj f3 = f_obj f2" "f_u f3 = f_u f2"
      "calls (f_sys f3) = calls (f_sys f2) @ [EvTranslate]"
    using assms(11,12) ob(2)
    by (simp add: getValues_def ov o2 fcall_def call_def)
  have "up_to_date r A (f_obj f2) v rel" using assms(13) ob(2) by simp
  from reconcile_up_to_date [OF this v v'(1) assms(6,7)] obtain f4 gs4 where
    r4: "reconcile_release r E A f2 = (Ret (\<lparr>requeue_after = rt_reconcilePeriod r\<rparr>, None), f4)"
      "f_obj f4 = obj" "updateFuncs (f_u f4) = []" "\<not> isCanceled (f_u f4)"
      "calls (f_sys f4) = calls (f_sys f3) @ [EvGetRelease, EvDryRunUpgrade, EvReconcileRelease]"
      "updateStatusFuncs (f_u f4) = ?P # gs2 @ gs4" "set gs4 \<subseteq> set (success_tail rel)"
    using ob v' by auto
  have body: "reconcile_body r E \<lparr>f_obj = obj, f_u = New_updater, f_sys = s2\<rparr>
      = (Ret (\<lparr>requeue_after = rt_reconcilePeriod r\<rparr>, None), f4)"
    using assms(3,5) a ob(1,2) r4(1) by (simp add: reconcile_body_def reconcile_unpaused_def)
  have "quiet (statusFor (e_lib E) (f_obj f4)) f" if "f \<in> set (updateStatusFuncs (f_u f4))" for f
    using assms(14) that ob(7) r4(2,6,7) by (auto simp: settled_def)
  with r4(3,4) have "Apply (rt_client r) (e_lib E) (f_u f4) (f_obj f4) (f_sys f4)
      = ((None, f_obj f4), f_sys f4)"
    by (intro Apply_quiet)
  with d body have "out = Ret (\<lparr>requeue_after = rt_reconcilePeriod r\<rparr>, None)" "s' = f_sys f4"
    by (simp_all add: reconcile_deferred_def)
  with c r4(5) v'(3) ob(5) show ?thesis by auto
qed

theorem steady_state_writes_nothing_witness:
  "EvStatusUpdate \<notin> set (calls (snd (Reconcile (sample_runtime steady_action) sample_env sample_request
     (start settled_object (Some installed)))))"
proof -
  let ?r = "sample_runtime steady_action"
  obtain out s' where run: "Reconcile ?r sample_env sample_request (start settled_object (Some installed))
      = (out, s')" by fastforce
  have f: "fetched ?r sample_request (start settled_object (Some installed)) = Some settled_object"
    by (simp add: fetched_def needs_finalizer_def sample_client_def sample_get_def start_def)
  have "DefaultTranslator settled_object = Inr []"
    by (simp add: DefaultTranslator_def getSpecMap_def)
  with steady_state_writes_nothing [OF f run, of "[]" steady_action "[]" "[]" installed]
  show ?thesis
    using run sample_up_to_date sample_settled by (auto simp: start_def)
qed

end
