(* ===== verification/Lifecycle.thy ===== *)
theory Lifecycle
  imports ReconcileRuns
begin

text \<open>
  The invariant for which the uninstall finalizer exists: every release that the operator has
  made belongs to a resource that is stored with the finalizer, so that the resource cannot
  disappear before its release. What a world holds is read through two views, \<open>released\<close>
  and \<open>guarded\<close>, which say of a name whether it has a release and whether its resource is
  stored with the finalizer. The locale collects what the API server, Helm and the user's hooks
  must not do; the loop itself is the one of \<open>Reconcile\<close>. Worlds may change for other names
  in any way that keeps the invariant, so that reconciles of other resources may interleave.
\<close>

section \<open>Changes of the world\<close>

type_synonym 'w view = "'w \<Rightarrow> namespaced_name \<Rightarrow> bool"

definition no_orphan :: "'w view \<Rightarrow> 'w view \<Rightarrow> 'w \<Rightarrow> bool" where
  "no_orphan released guarded w \<longleftrightarrow> (\<forall>m. released w m \<longrightarrow> guarded w m)"

definition id_of :: "unstructured \<Rightarrow> namespaced_name" where
  "id_of obj = (u_namespace obj, u_name obj)"

definition others_kept :: "'w view \<Rightarrow> 'w view \<Rightarrow> namespaced_name \<Rightarrow> 'w \<Rightarrow> 'w \<Rightarrow> bool" where
  "others_kept released guarded k w w' \<longleftrightarrow>
     (\<forall>m. m \<noteq> k \<longrightarrow> (released w m \<longrightarrow> guarded w m) \<longrightarrow> released w' m \<longrightarrow> guarded w' m)"

text \<open>The change makes no release of \<open>k\<close>; it does not take the finalizer of \<open>k\<close> away; both.\<close>

definition no_release :: "'w view \<Rightarrow> 'w view \<Rightarrow> namespaced_name \<Rightarrow> 'w \<Rightarrow> 'w \<Rightarrow> bool" where
  "no_release released guarded k w w' \<longleftrightarrow>
     others_kept released guarded k w w' \<and> (released w' k \<longrightarrow> released w k)"

definition keeps_guard :: "'w view \<Rightarrow> 'w view \<Rightarrow> namespaced_name \<Rightarrow> 'w \<Rightarrow> 'w \<Rightarrow> bool" where
  "keeps_guard released guarded k w w' \<longleftrightarrow>
     others_kept released guarded k w w' \<and> (guarded w k \<longrightarrow> guarded w' k)"

definition calm :: "'w view \<Rightarrow> 'w view \<Rightarrow> namespaced_name \<Rightarrow> 'w \<Rightarrow> 'w \<Rightarrow> bool" where
  "calm released guarded k w w' \<longleftrightarrow>
     no_release released guarded k w w' \<and> keeps_guard released guarded k w w'"

lemmas change_defs = others_kept_def no_release_def keeps_guard_def calm_def

named_theorems change_intros "changes are reflexive, compose, and weaken"

lemma change_refl [change_intros]:
  "no_release R G k w w" "keeps_guard R G k w w" "calm R G k w w"
  by (simp_all add: change_defs)

lemma no_release_trans:
  "no_release R G k w1 w2 \<Longrightarrow> no_release R G k w2 w3 \<Longrightarrow> no_release R G k w1 w3"
  by (simp add: change_defs)

lemma keeps_guard_trans:
  "keeps_guard R G k w1 w2 \<Longrightarrow> keeps_guard R G k w2 w3 \<Longrightarrow> keeps_guard R G k w1 w3"
  by (simp add: change_defs)

lemma calm_trans: "calm R G k w1 w2 \<Longrightarrow> calm R G k w2 w3 \<Longrightarrow> calm R G k w1 w3"
  unfolding calm_def using no_release_trans keeps_guard_trans by metis

lemma calmD:
  assumes "calm R G k w w'"
  shows "no_release R G k w w'" and "keeps_guard R G k w w'"
  using assms by (simp_all add: calm_def)

lemma no_orphan_after:
  assumes "no_orphan R G w"
  shows "calm R G k w w' \<Longrightarrow> no_orphan R G w'"
    and "keeps_guard R G k w w' \<Longrightarrow> G w k \<Longrightarrow> no_orphan R G w'"
    and "no_release R G k w w' \<Longrightarrow> \<not> R w k \<Longrightarrow> no_orphan R G w'"
  using assms unfolding no_orphan_def change_defs by metis+

section \<open>What the surroundings promise\<close>

text \<open>
  The Helm client of a resource works on the release of its name only, and only an install or
  an upgrade can make one. An uninstall that succeeds, or finds no release, leaves none; an option
  that fails with the error of a missing release would be taken for such an answer, so this is
  asked for the other options only.
\<close>

definition honest_opts :: "('a \<Rightarrow> go_error + 'a) list \<Rightarrow> bool" where
  "honest_opts os \<longleftrightarrow> (\<forall>opt \<in> set os. \<forall>a e. opt a = Inl e \<longrightarrow> \<not> errors_Is e ErrReleaseNotFound)"

definition helm_ok :: "'w view \<Rightarrow> 'w view \<Rightarrow> namespaced_name \<Rightarrow> 'w action_interface \<Rightarrow> bool" where
  "helm_ok R G k A \<longleftrightarrow>
     (\<forall>n os w. calm R G k w (snd (ai_Get A n os w)))
     \<and> (\<forall>rel w. calm R G k w (snd (ai_Reconcile A rel w)))
     \<and> (\<forall>ch vs os w. keeps_guard R G k w (snd (ai_Install A (snd k) (fst k) ch vs os w)))
     \<and> (\<forall>ch vs os w. keeps_guard R G k w (snd (ai_Upgrade A (snd k) (fst k) ch vs os w)))
     \<and> (\<forall>os w resp err w'. ai_Uninstall A (snd k) os w = ((resp, err), w') \<longrightarrow>
          calm R G k w w' \<and> (honest_opts os \<longrightarrow> err = None \<or> opt_Is err ErrReleaseNotFound \<longrightarrow> \<not> R w' k))"

definition hook_ok :: "'w view \<Rightarrow> 'w view \<Rightarrow> unstructured \<Rightarrow> unstructured \<Rightarrow> 'w \<Rightarrow> 'w \<Rightarrow> bool" where
  "hook_ok R G obj obj' w w' \<longleftrightarrow> id_of obj' = id_of obj \<and> (\<forall>k. calm R G k w w')"

lemma helm_okD:
  assumes "helm_ok R G k A"
  shows "calm R G k w (snd (ai_Get A n os w))" and "calm R G k w (snd (ai_Reconcile A rel w))"
    and "keeps_guard R G k w (snd (ai_Install A (snd k) (fst k) ch vs iopts w))"
    and "keeps_guard R G k w (snd (ai_Upgrade A (snd k) (fst k) ch vs uopts w))"
    and "ai_Uninstall A (snd k) dopts w = ((resp, err), w') \<Longrightarrow> calm R G k w w'"
    and "ai_Uninstall A (snd k) dopts w = ((resp, err), w') \<Longrightarrow> honest_opts dopts \<Longrightarrow>
           err = None \<or> opt_Is err ErrReleaseNotFound \<Longrightarrow> \<not> R w' k"
  using assms unfolding helm_ok_def by blast+

lemma hook_okD:
  assumes "hook_ok R G obj obj' w w'"
  shows "id_of obj' = id_of obj" and "calm R G k w w'"
  using assms unfolding hook_ok_def by blast+

lemma hook_ok_refl: "hook_ok R G obj obj w w"
  by (simp add: hook_ok_def change_refl)

lemma hook_ok_trans:
  "hook_ok R G o1 o2 w1 w2 \<Longrightarrow> hook_ok R G o2 o3 w2 w3 \<Longrightarrow> hook_ok R G o1 o3 w1 w3"
  unfolding hook_ok_def using calm_trans by metis

abbreviation wd :: "'w frame \<Rightarrow> 'w" where "wd f \<equiv> world (f_sys f)"

lemma fcall_change:
  assumes "fcall ev g f = (x, f')" and "Q (wd f) (snd (g (wd f)))"
  shows "Q (wd f) (wd f')"
  using assms fcall_eqD(4) [OF assms(1)] by simp

text \<open>What every run of an operation keeps, retries and polls of it keep.\<close>

lemma attempts_keep:
  assumes "attempts n p f s = (err, s')" and "\<And>s err s'. f s = (err, s') \<Longrightarrow> Q s s'"
    and "\<And>s1 s2 s3. Q s1 s2 \<Longrightarrow> Q s2 s3 \<Longrightarrow> Q s1 s3"
  shows "Q s s'"
  using assms(1)
proof (induction n arbitrary: s)
  case 0
  then show ?case by (auto intro: assms(2))
next
  case (Suc n)
  obtain e s1 where f: "f s = (e, s1)" by (metis surj_pair)
  from assms(2) [OF f] Suc assms(3) f show ?case by (auto split: option.splits if_splits)
qed

lemma retry_keep:
  assumes "lib_ok L" and "retryOnRetryableUpdateError L f s = (err, s')"
    and "\<And>s err s'. f s = (err, s') \<Longrightarrow> Q s s'"
    and "\<And>s1 s2 s3. Q s1 s2 \<Longrightarrow> Q s2 s3 \<Longrightarrow> Q s1 s3"
  shows "Q s s'"
proof -
  from lib_okD(1) [OF assms(1)] assms(2) obtain n where "attempts n isRetryableUpdateError f s = (err, s')"
    unfolding retry_ok_def retryOnRetryableUpdateError_def by metis
  from attempts_keep [OF this, of Q] assms(3,4) show ?thesis by blast
qed

lemma funpow_keep:
  assumes "\<And>s. Q s (c s)" and "\<And>s. Q s s" and "\<And>s1 s2 s3. Q s1 s2 \<Longrightarrow> Q s2 s3 \<Longrightarrow> Q s1 s3"
  shows "Q s ((c ^^ n) s)"
proof (induction n)
  case 0
  with assms(2) show ?case by simp
next
  case (Suc n)
  with assms(1) [of "(c ^^ n) s"] assms(3) show ?case by auto
qed

text \<open>Changes to the object that keep its name.\<close>

definition same_id :: "UpdateFunc list \<Rightarrow> bool" where
  "same_id fs \<longleftrightarrow> (\<forall>g \<in> set fs. \<forall>obj. id_of (snd (g obj)) = id_of obj)"

lemma run_update_funcs_id: "same_id fs \<Longrightarrow> id_of (snd (run_update_funcs fs b obj)) = id_of obj"
proof (induction fs arbitrary: b obj)
  case Nil
  then show ?case by simp
next
  case (Cons g fs)
  obtain c o1 where g: "g obj = (c, o1)" by fastforce
  with Cons.prems have "id_of o1 = id_of obj" by (auto simp: same_id_def dest: spec [of _ obj])
  moreover have "same_id fs" using Cons.prems by (simp add: same_id_def)
  ultimately show ?case using Cons.IH by (simp add: g)
qed

lemma RemoveFinalizer_id: "same_id [RemoveFinalizer L fin]"
  by (simp add: same_id_def RemoveFinalizer_def id_of_def)

locale guarded_loop =
  fixes r :: "'w runtime" and E :: "'w env" and R :: "'w view" and G :: "'w view"
  assumes lib: "lib_ok (e_lib E)"
    and poll: "\<exists>n. snd (lib_poll (e_lib E) t c s) = ((\<lambda>s. snd (c s)) ^^ n) s"
    and get: "kc_get (rt_client r) key (obj, w) = (err, obj', w') \<Longrightarrow>
        (\<forall>k. calm R G k w w') \<and> (err = None \<longrightarrow> id_of obj' = key
           \<and> (uninstallFinalizer \<in> set (u_finalizers obj') \<longrightarrow> G w' key))"
    and status: "kc_status_update (rt_client r) (obj, w) = (err, obj', w') \<Longrightarrow> hook_ok R G obj obj' w w'"
    and update: "kc_update (rt_client r) (obj, w) = (err, obj', w') \<Longrightarrow>
        id_of obj' = id_of obj \<and> no_release R G (id_of obj) w w'
        \<and> (uninstallFinalizer \<in> set (u_finalizers obj) \<longrightarrow>
             keeps_guard R G (id_of obj) w w' \<and> (err = None \<longrightarrow> G w' (id_of obj)))"
    and helm: "rt_actionClientGetter r obj w = (res, w') \<Longrightarrow>
        (\<forall>k. calm R G k w w') \<and> (\<forall>A. res = Inr A \<longrightarrow> helm_ok R G (id_of obj) A)"
    and uninstall_honest: "honest_opts (uninstall_options r obj)"
    and pause: "rt_pauseHandler r = Some ph \<Longrightarrow> ph obj w = ((ans, obj'), w') \<Longrightarrow>
        hook_ok R G obj obj' w w' \<and> u_deletion_timestamp obj' = u_deletion_timestamp obj"
    and translate: "rt_valueTranslator r obj w = ((vals, obj'), w') \<Longrightarrow> hook_ok R G obj obj' w w'"
    and pre: "h \<in> set (rt_preHooks r) \<Longrightarrow> h obj vs w = ((err, obj', vs'), w') \<Longrightarrow> hook_ok R G obj obj' w w'"
    and post: "g \<in> set (rt_postHooks r) \<Longrightarrow> g obj rel w = ((err, obj'), w') \<Longrightarrow> \<forall>k. calm R G k w w'"
    and recorder: "calm R G k w (rt_eventRecorder r obj ty reason m w)"
begin

abbreviation quietly :: "namespaced_name \<Rightarrow> 'w frame \<Rightarrow> 'w frame \<Rightarrow> bool" where
  "quietly k f f' \<equiv> calm R G k (wd f) (wd f')"

abbreviation guarding :: "namespaced_name \<Rightarrow> 'w frame \<Rightarrow> 'w frame \<Rightarrow> bool" where
  "guarding k f f' \<equiv> keeps_guard R G k (wd f) (wd f')"

lemma observe_quiet:
  assumes "observe_release A f = (out, f')" and "helm_ok R G k A"
  shows "quietly k f f'"
proof -
  obtain rel err f1 where c: "fcall EvGetRelease (ai_Get A (u_name (f_obj f)) []) f = ((rel, err), f1)"
    by (metis surj_pair)
  have "quietly k f f1" by (rule fcall_change [OF c]) (rule helm_okD(1) [OF assms(2)])
  moreover have "f_sys f' = f_sys f1"
    using assms(1) by (auto simp: observe_release_def c Let_def split: if_splits option.splits)
  ultimately show ?thesis by simp
qed

lemma getValues_hook:
  assumes "getValues r E f = (out, f')"
  shows "hook_ok R G (f_obj f) (f_obj f') (wd f) (wd f')"
proof -
  obtain err obj1 where o: "ApplyOverrides (e_values E) (rt_overrideValues r) (f_obj f) = (err, obj1)"
    by fastforce
  obtain res obj2 f1 where
    c: "fcall EvTranslate (rt_valueTranslator r obj1) (f\<lparr>f_obj := obj1\<rparr>) = ((res, obj2), f1)"
    by (metis surj_pair)
  from ApplyOverrides_frame [OF o] have "id_of obj1 = id_of (f_obj f)" by (auto simp: id_of_def)
  then have 1: "hook_ok R G (f_obj f) obj1 (wd f) (wd f)" by (simp add: hook_ok_def change_refl)
  from translate [OF fcall_eqD(4) [OF c]] have "hook_ok R G obj1 obj2 (wd f) (wd f1)" by simp
  from 1 hook_ok_trans [OF 1 this] assms show ?thesis
    by (cases err; cases res) (auto simp: getValues_def o c)
qed

lemma getReleaseState_guarding:
  assumes "getReleaseState r A vals0 f = (out, f')" and "helm_ok R G (id_of (f_obj f)) A"
  shows "guarding (id_of (f_obj f)) f f'"
proof -
  let ?k = "id_of (f_obj f)"
  obtain cur err f1 where c: "fcall EvGetRelease (ai_Get A (u_name (f_obj f)) []) f = ((cur, err), f1)"
    by (metis surj_pair)
  obtain spec err2 f2 where d: "fcall EvDryRunUpgrade
      (ai_Upgrade A (u_name (f_obj f)) (u_namespace (f_obj f)) (rt_chrt r) vals0
         (upgrade_options r (f_obj f) @ [dry_run_option])) f1 = ((spec, err2), f2)"
    by (metis surj_pair)
  have "quietly ?k f f1" by (rule fcall_change [OF c]) (rule helm_okD(1) [OF assms(2)])
  then have 1: "guarding ?k f f1" by (rule calmD)
  have "guarding ?k f1 f2"
    by (rule fcall_change [OF d]) (use helm_okD(4) [OF assms(2)] in \<open>simp add: id_of_def\<close>)
  with 1 have 2: "guarding ?k f f2" by (rule keeps_guard_trans)
  have "f' = f1 \<or> f' = f2"
    using assms(1) by (auto simp: getReleaseState_def c d Let_def split: if_splits option.splits)
  with 1 2 show ?thesis by blast
qed

lemma events_quiet: "quietly k f (reportOverrideEvents_loop r kvs f)"
proof (induction kvs arbitrary: f)
  case Nil
  show ?case by (simp add: change_refl)
next
  case (Cons kv kvs)
  obtain a b where kv: "kv = (a, b)" by fastforce
  let ?f1 = "snd (fcall (EvRecordEvent a b)
          (\<lambda>w. ((), rt_eventRecorder r (f_obj f) ''Warning'' ''ValueOverridden''
             (''Chart value '' @ quoted a @ '' overridden to '' @ quoted b @ '' by operator'') w)) f)"
  have "quietly k f ?f1"
    by (rule fcall_change [OF prod.collapse [symmetric]]) (simp add: recorder)
  from calm_trans [OF this Cons.IH] show ?case by (simp add: kv)
qed

lemma reported_guarding: "guarding k f f1 \<Longrightarrow> guarding k f (reportOverrideEvents r f1)"
  using keeps_guard_trans calmD(2) [OF events_quiet] by (fastforce simp: reportOverrideEvents_def)

lemma doInstall_guarding:
  assumes "doInstall r A vals0 f = (out, f')" and "helm_ok R G (id_of (f_obj f)) A"
  shows "guarding (id_of (f_obj f)) f f'"
proof -
  obtain rel err f1 where c: "fcall EvInstall (ai_Install A (u_name (f_obj f)) (u_namespace (f_obj f))
      (rt_chrt r) vals0 (install_options r (f_obj f))) f = ((rel, err), f1)"
    by (metis surj_pair)
  have 1: "guarding (id_of (f_obj f)) f f1"
    by (rule fcall_change [OF c]) (use helm_okD(3) [OF assms(2)] in \<open>simp add: id_of_def\<close>)
  have "f' = collect (release_failed ReasonInstallError (the err)) f1 \<or> f' = reportOverrideEvents r f1"
    using assms by (auto simp: doInstall_def c Let_def split: option.splits)
  with 1 reported_guarding [OF 1] show ?thesis by auto
qed

lemma doUpgrade_guarding:
  assumes "doUpgrade r A vals0 f = (out, f')" and "helm_ok R G (id_of (f_obj f)) A"
  shows "guarding (id_of (f_obj f)) f f'"
proof -
  let ?k = "id_of (f_obj f)"
  obtain cur err f1 where c: "fcall EvGetRelease (ai_Get A (u_name (f_obj f)) []) f = ((cur, err), f1)"
    by (metis surj_pair)
  obtain rel err2 f2 where d: "fcall EvUpgrade (ai_Upgrade A (u_name (f_obj f)) (u_namespace (f_obj f))
      (rt_chrt r) vals0 (upgrade_options r (f_obj f))) f1 = ((rel, err2), f2)"
    by (metis surj_pair)
  have "quietly ?k f f1" by (rule fcall_change [OF c]) (rule helm_okD(1) [OF assms(2)])
  then have 1: "guarding ?k f f1" by (rule calmD)
  have "guarding ?k f1 f2"
    by (rule fcall_change [OF d]) (use helm_okD(4) [OF assms(2)] in \<open>simp add: id_of_def\<close>)
  with 1 have 2: "guarding ?k f f2" by (rule keeps_guard_trans)
  have "f' = f1 \<or> f' = collect (release_failed ReasonUpgradeError (the err2)) f2
      \<or> f' = reportOverrideEvents r f2"
    using assms by (auto simp: doUpgrade_def c d Let_def split: option.splits)
  with 1 2 reported_guarding [OF 2] show ?thesis by auto
qed

lemma doReconcile_guarding:
  assumes "doReconcile A rel f = (err, f')" and "helm_ok R G k A"
  shows "guarding k f f'"
proof -
  let ?f0 = "collect [EnsureCondition (ReleaseFailed ConditionFalse [] (MStr []))] f"
  obtain e f2 where c: "fcall EvReconcileRelease (ai_Reconcile A rel) ?f0 = (e, f2)"
    by (metis surj_pair)
  have "quietly k ?f0 f2" by (rule fcall_change [OF c]) (rule helm_okD(2) [OF assms(2)])
  then have "guarding k f f2" using calmD(2) by fastforce
  with assms(1) show ?thesis by (auto simp: doReconcile_def c split: option.splits)
qed

lemma pre_hooks_hook:
  assumes "run_pre_hooks hs vals0 f = (vals1, f')" and "set hs \<subseteq> set (rt_preHooks r)"
  shows "hook_ok R G (f_obj f) (f_obj f') (wd f) (wd f')"
  using assms
proof (induction hs arbitrary: vals0 f)
  case Nil
  then show ?case by (simp add: hook_ok_refl)
next
  case (Cons h hs)
  obtain err obj1 vs1 f1 where c: "fcall EvPreHook (h (f_obj f) vals0) f = ((err, obj1, vs1), f1)"
    by (metis surj_pair)
  have 1: "hook_ok R G (f_obj f) obj1 (wd f) (wd f1)"
    using Cons.prems(2) by (intro pre [where h = h, OF _ fcall_eqD(4) [OF c]]) simp
  have "hook_ok R G obj1 (f_obj f') (wd f1) (wd f')"
    using Cons.IH [of vs1 "f1\<lparr>f_obj := obj1\<rparr>"] Cons.prems c by simp
  with 1 show ?case by (rule hook_ok_trans)
qed

lemma post_hooks_quiet:
  assumes "set hs \<subseteq> set (rt_postHooks r)"
  shows "quietly k f (run_post_hooks hs rel f)"
  using assms
proof (induction hs arbitrary: f)
  case Nil
  show ?case by (simp add: change_refl)
next
  case (Cons h hs)
  obtain err obj1 f1 where c: "fcall EvPostHook (h (f_obj f) rel) f = ((err, obj1), f1)"
    by (metis surj_pair)
  have "h \<in> set (rt_postHooks r)" using Cons.prems by simp
  from post [OF this fcall_eqD(4) [OF c]] have 1: "quietly k f f1" by blast
  have "quietly k (f1\<lparr>f_obj := obj1\<rparr>) (run_post_hooks hs rel (f1\<lparr>f_obj := obj1\<rparr>))"
    using Cons.prems by (intro Cons.IH) simp
  with 1 have "quietly k f (run_post_hooks hs rel (f1\<lparr>f_obj := obj1\<rparr>))"
    by (auto elim: calm_trans)
  with c show ?case by simp
qed

lemma finish_guarding:
  assumes "guarding k f f1" and "finish_release r rl f1 = (out, f')"
  shows "guarding k f f'"
proof -
  have "guarding k f1 (run_post_hooks (rt_postHooks r) rl f1)"
    by (rule calmD(2) [OF post_hooks_quiet]) simp
  with assms keeps_guard_trans show ?thesis by (fastforce simp: finish_release_def Let_def)
qed

lemma perform_guarding:
  assumes "perform_state r A vals0 rel state f = (out, f')" and "helm_ok R G (id_of (f_obj f)) A"
  shows "guarding (id_of (f_obj f)) f f'"
proof (cases state)
  case StateNeedsInstall
  obtain x f1 where i: "doInstall r A vals0 f = (x, f1)" by (metis surj_pair)
  note g = doInstall_guarding [OF i assms(2)]
  show ?thesis
    using assms(1) g finish_guarding [OF g] StateNeedsInstall i
    by (auto simp: perform_state_def split: exit.splits sum.splits)
next
  case StateNeedsUpgrade
  obtain x f1 where i: "doUpgrade r A vals0 f = (x, f1)" by (metis surj_pair)
  note g = doUpgrade_guarding [OF i assms(2)]
  show ?thesis
    using assms(1) g finish_guarding [OF g] StateNeedsUpgrade i
    by (auto simp: perform_state_def split: exit.splits sum.splits)
next
  case StateUnchanged
  show ?thesis
  proof (cases rel)
    case None
    with assms(1) StateUnchanged show ?thesis by (auto simp: perform_state_def change_refl)
  next
    case (Some rl)
    obtain x f1 where i: "doReconcile A rl f = (x, f1)" by (metis surj_pair)
    note g = doReconcile_guarding [OF i assms(2)]
    show ?thesis
      using assms(1) g finish_guarding [OF g] StateUnchanged i Some
      by (auto simp: perform_state_def split: option.splits)
  qed
next
  case StateError
  with assms(1) show ?thesis by (auto simp: perform_state_def change_refl)
qed

lemma release_guarding:
  assumes "reconcile_release r E A f = (out, f')" and "helm_ok R G (id_of (f_obj f)) A"
  shows "guarding (id_of (f_obj f)) f f'"
proof -
  let ?k = "id_of (f_obj f)"
  obtain x f1 where v: "getValues r E f = (x, f1)" by (metis surj_pair)
  note h1 = hook_okD [OF getValues_hook [OF v]]
  from h1(2) have 1: "guarding ?k f f1" by (rule calmD)
  show ?thesis
  proof (cases x)
    case (Inl e)
    with assms(1) v 1 show ?thesis by (auto simp: reconcile_release_def)
  next
    case (Inr vals0)
    obtain y f2 where st: "getReleaseState r A vals0 f1 = (y, f2)" by (metis surj_pair)
    have "guarding ?k f1 f2" using getReleaseState_guarding [OF st] assms(2) h1(1) by simp
    with 1 have 2: "guarding ?k f f2" by (rule keeps_guard_trans)
    have o2: "id_of (f_obj f2) = ?k" using getReleaseState_step(2) [OF st] h1(1) by simp
    show ?thesis
    proof (cases "\<exists>rel state. y = Ret (rel, state, None)")
      case False
      with assms(1) v Inr st 2 show ?thesis
        by (auto simp: reconcile_release_def split: exit.splits option.splits)
    next
      case True
      then obtain rel state where y: "y = Ret (rel, state, None)" by blast
      let ?f3 = "collect [EnsureCondition (Irreconcilable ConditionFalse [] (MStr []))] f2"
      obtain vals1 f4 where p: "run_pre_hooks (rt_preHooks r) vals0 ?f3 = (vals1, f4)"
        by (metis surj_pair)
      note h4 = hook_okD [OF pre_hooks_hook [OF p order_refl]]
      have "guarding ?k f2 f4" using calmD(2) [OF h4(2)] by simp
      with 2 have 4: "guarding ?k f f4" by (rule keeps_guard_trans)
      have o4: "id_of (f_obj f4) = ?k" using h4(1) o2 by simp
      have "perform_state r A vals1 rel state f4 = (out, f')"
        using assms(1) v Inr st y p by (simp add: reconcile_release_def)
      from perform_guarding [OF this] assms(2) o4 have "guarding ?k f4 f'" by simp
      with 4 show ?thesis by (rule keeps_guard_trans)
    qed
  qed
qed

text \<open>The two writes of \<open>Apply\<close>, with their retries.\<close>

lemma apply_status_hook:
  assumes "apply_status (rt_client r) (e_lib E) st obj s = ((err, obj'), s')"
  shows "hook_ok R G obj obj' (world s) (world s')"
  using assms
proof (cases rule: apply_status_cases)
  case (convert e)
  then show ?thesis by (simp add: hook_ok_refl)
next
  case (call m)
  have "hook_ok R G (obj\<lparr>u_status := StMap m\<rparr>) obj' (world s) (world s')"
    using retry_keep [OF lib call(2), of "\<lambda>(o1, w1) (o2, w2). hook_ok R G o1 o2 w1 w2"] status hook_ok_trans
    by (fastforce split: prod.splits)
  then show ?thesis by (simp add: hook_ok_def id_of_def)
qed

lemma apply_object_change:
  assumes "apply_object (rt_client r) (e_lib E) fs obj s = ((err, obj'), s')" and "same_id fs"
  shows "no_release R G (id_of obj) (world s) (world s')"
  using assms(1)
proof (cases rule: apply_object_cases)
  case idle
  then show ?thesis by (simp add: change_refl)
next
  case call
  let ?Q = "\<lambda>(o1, w1) (o2, w2). id_of o2 = id_of o1 \<and> no_release R G (id_of o1) w1 w2"
  have "?Q (snd (run_update_funcs fs False obj), world s) (obj', world s')"
    by (rule retry_keep [OF lib call(2)]) (use update no_release_trans in \<open>fastforce split: prod.splits\<close>)+
  with run_update_funcs_id [OF assms(2)] show ?thesis by simp
qed

lemma Apply_change:
  assumes "Apply (rt_client r) (e_lib E) u obj s = ((err, obj'), s')"
  shows "same_id (updateFuncs u) \<Longrightarrow> no_release R G (id_of obj) (world s) (world s')"
    and "updateFuncs u = [] \<Longrightarrow> calm R G k (world s) (world s')"
proof -
  obtain b st where f: "run_status_funcs (lib_clock (e_lib E) (world s)) (updateStatusFuncs u) False
      (statusFor (e_lib E) obj) = (b, st)" by fastforce
  obtain err1 obj1 s1 where
    a: "(if b then apply_status (rt_client r) (e_lib E) st obj s else ((None, obj), s)) = ((err1, obj1), s1)"
    by (metis surj_pair)
  have h: "hook_ok R G obj obj1 (world s) (world s1)"
    using a apply_status_hook [of st obj s err1 obj1 s1] hook_ok_refl by (auto split: if_splits)
  show "calm R G k (world s) (world s')" if "updateFuncs u = []"
    using assms a that hook_okD(2) [OF h]
    by (auto simp: Apply_def f apply_object_def change_refl split: if_splits option.splits)
  assume id: "same_id (updateFuncs u)"
  show "no_release R G (id_of obj) (world s) (world s')"
  proof (cases "isCanceled u \<or> err1 \<noteq> None")
    case True
    have "s' = s \<or> s' = s1"
    proof (cases "isCanceled u")
      case True
      with assms show ?thesis by (simp add: Apply_canceled)
    next
      case False
      with True obtain e where "err1 = Some e" by blast
      with False assms a show ?thesis by (simp add: Apply_def f)
    qed
    moreover have "no_release R G (id_of obj) (world s) (world s1)"
      by (rule calmD(1) [OF hook_okD(2) [OF h]])
    ultimately show ?thesis using change_refl(1) by metis
  next
    case False
    with assms a have "apply_object (rt_client r) (e_lib E) (updateFuncs u) obj1 s1 = ((err, obj'), s')"
      by (simp add: Apply_def f)
    from apply_object_change [OF this id] hook_okD(1) [OF h] calmD(1) [OF hook_okD(2) [OF h]]
    show ?thesis using no_release_trans by metis
  qed
qed

lemma wait_quiet:
  assumes "wait_deletion r (e_lib E) f = (out, f')"
  shows "quietly k f f'"
proof -
  obtain err obj' f1 where c: "fcall EvWaitForDeletion
      (\<lambda>w. let (err, obj', w') = WaitForDeletion (rt_client r) (e_lib E) (rt_waitForDeletionTimeout r) (f_obj f, w)
           in ((err, obj'), w')) f = ((err, obj'), f1)"
    by (metis surj_pair)
  let ?c = "deletion_condition (rt_client r) (u_namespace (f_obj f), u_name (f_obj f))"
  let ?Q = "\<lambda>s1 s2 :: unstructured \<times> 'w. calm R G k (snd s1) (snd s2)"
  have cond: "?Q s (snd (?c s))" for s
  proof -
    obtain err obj1 w1 where g: "kc_get (rt_client r) (u_namespace (f_obj f), u_name (f_obj f)) (fst s, snd s)
        = (err, obj1, w1)" by (metis surj_pair)
    with get [OF g] show ?thesis by (auto simp: deletion_condition_def split: option.splits simp del: split_paired_All)
  qed
  obtain n where "snd (lib_poll (e_lib E) (rt_waitForDeletionTimeout r) ?c (f_obj f, wd f))
      = ((\<lambda>s. snd (?c s)) ^^ n) (f_obj f, wd f)"
    using poll by blast
  moreover have "?Q (f_obj f, wd f) (((\<lambda>s. snd (?c s)) ^^ n) (f_obj f, wd f))"
    by (rule funpow_keep [where Q = ?Q]) (rule cond, rule change_refl, erule (1) calm_trans)
  ultimately have "quietly k f f1"
    using fcall_eqD(4) [OF c] by (auto simp: WaitForDeletion_def split: prod.splits)
  moreover have "wd f' = wd f1" using assms unfolding wait_deletion_def c by auto
  ultimately show ?thesis by simp
qed

lemma handleDeletion_safe:
  assumes "handleDeletion r (e_lib E) A f = (out, f')" and "helm_ok R G (id_of (f_obj f)) A"
    and "no_orphan R G (wd f)"
  shows "no_orphan R G (wd f')"
proof (cases "ContainsFinalizer (f_obj f) uninstallFinalizer")
  case False
  with assms(1) have "wait_deletion r (e_lib E) f = (out, f')" by (simp add: handleDeletion_def)
  from wait_quiet [OF this] assms(3) show ?thesis by (blast intro: no_orphan_after(1))
next
  case True
  let ?k = "id_of (f_obj f)" and ?f = "f\<lparr>f_u := New_updater\<rparr>"
  obtain o1 g where u: "doUninstall r (e_lib E) A ?f = (o1, g)" by (metis surj_pair)
  obtain aerr obj' s' where
    a: "Apply (rt_client r) (e_lib E) (f_u g) (f_obj g) (f_sys g) = ((aerr, obj'), s')"
    by (metis surj_pair)
  have quiet: "quietly ?k f f1 \<and> f_obj f1 = f_obj f \<and> f_u f1 = New_updater"
    if "fcall EvUninstall (ai_Uninstall A (u_name (f_obj ?f)) (uninstall_options r (f_obj ?f))) ?f
        = ((resp, err), f1)" for resp err f1
    using helm_okD(5) [OF assms(2)] fcall_eqD(1,2,4) [OF that] by (simp add: id_of_def)
  from u have "no_orphan R G (world s')"
  proof (cases rule: doUninstall_cases)
    case (removed resp err f1)
    note q = quiet [OF removed(1)]
    have "\<not> R (wd f1) ?k"
      using helm_okD(6) [OF assms(2) _ uninstall_honest removed(2)] fcall_eqD(4) [OF removed(1)] by (simp add: id_of_def)
    moreover have "no_release R G ?k (wd f1) (world s')"
      using Apply_change(1) [OF a] q removed(4) by (simp add: uninstalled_def RemoveFinalizer_id)
    moreover have "no_orphan R G (wd f1)" using q assms(3) by (blast intro: no_orphan_after(1))
    ultimately show ?thesis by (blast intro: no_orphan_after(3))
  next
    case (failed resp e f1)
    note q = quiet [OF failed(1)]
    have "calm R G ?k (wd f1) (world s')" using Apply_change(2) [OF a] q failed(4) by simp
    with q assms(3) show ?thesis by (blast intro: no_orphan_after(1) calm_trans)
  next
    case (panic resp f1)
    note q = quiet [OF panic(1)]
    have "calm R G ?k (wd f1) (world s')" using Apply_change(2) [OF a] q panic(4) by simp
    with q assms(3) show ?thesis by (blast intro: no_orphan_after(1) calm_trans)
  qed
  moreover have "wd f' = world s' \<or> quietly ?k (f\<lparr>f_obj := obj', f_sys := s'\<rparr>) f'"
    using assms(1) True wait_quiet [of "f\<lparr>f_obj := obj', f_sys := s'\<rparr>" out f' ?k]
    by (auto simp: handleDeletion_def u a Let_def split: exit.splits option.splits if_splits)
  ultimately show ?thesis by (auto intro: no_orphan_after(1))
qed

text \<open>
  The body is entered with a resource that is being deleted or is stored with the finalizer:
  that is all an install needs.
\<close>

definition entered :: "'w frame \<Rightarrow> bool" where
  "entered f \<longleftrightarrow> no_orphan R G (wd f)
     \<and> (u_deletion_timestamp (f_obj f) = None \<longrightarrow> G (wd f) (id_of (f_obj f)))"

lemma entered_calm:
  assumes "entered f" and "id_of (f_obj f') = id_of (f_obj f)"
    and "u_deletion_timestamp (f_obj f') = u_deletion_timestamp (f_obj f)"
    and "quietly (id_of (f_obj f)) f f'"
  shows "entered f'"
  using assms no_orphan_after(1) [OF _ assms(4)] by (auto simp: entered_def calm_def keeps_guard_def)

lemma unpaused_safe:
  assumes "reconcile_unpaused r E f0 = (out, f')" and "entered f0"
  shows "no_orphan R G (wd f')"
proof -
  let ?k = "id_of (f_obj f0)"
  let ?f = "collect [EnsureCondition (Paused ConditionFalse [] (MStr []))] f0"
  obtain x f1 where c: "fcall EvActionClientFor (rt_actionClientGetter r (f_obj ?f)) ?f = (x, f1)"
    by (metis surj_pair)
  note o1 = fcall_eqD(1) [OF c]
  from helm [OF fcall_eqD(4) [OF c]] have q: "quietly ?k f0 f1"
    by (simp del: split_paired_All)
  have e1: "entered f1" by (rule entered_calm [OF assms(2)]) (use o1 q in simp_all)
  show ?thesis
  proof (cases x)
    case (Inl e)
    with assms(1) c have "wd f' = wd f1" by (auto simp: reconcile_unpaused_def)
    with e1 show ?thesis by (simp add: entered_def)
  next
    case (Inr A)
    from helm [OF fcall_eqD(4) [OF c]] Inr have A: "helm_ok R G ?k A" by simp
    obtain y f2 where ob: "observe_release A f1 = (y, f2)" by (metis surj_pair)
    note o2 = observe_release_step(2) [OF ob]
    have e2: "entered f2" by (rule entered_calm [OF e1]) (use o1 o2 observe_quiet [OF ob A] in simp_all)
    then have n2: "no_orphan R G (wd f2)" by (simp add: entered_def)
    have A2: "helm_ok R G (id_of (f_obj f2)) A" using A o1 o2 by simp
    show ?thesis
    proof (cases y)
      case (Panic m)
      with assms(1) c Inr ob n2 show ?thesis by (auto simp: reconcile_unpaused_def)
    next
      case (Ret z)
      show ?thesis
      proof (cases "u_deletion_timestamp (f_obj f2) = None")
        case True
        with assms(1) c Inr ob Ret have "reconcile_release r E A f2 = (out, f')"
          by (simp add: reconcile_unpaused_def)
        from release_guarding [OF this A2] True e2 n2 show ?thesis
          by (auto simp: entered_def intro: no_orphan_after(2))
      next
        case False
        obtain v f3 where h: "handleDeletion r (e_lib E) A f2 = (v, f3)" by (metis surj_pair)
        have "wd f' = wd f3"
          using assms(1) c Inr ob Ret False h
          by (auto simp: reconcile_unpaused_def split: exit.splits option.splits)
        with handleDeletion_safe [OF h A2 n2] show ?thesis by simp
      qed
    qed
  qed
qed

lemma body_safe:
  assumes "reconcile_body r E f = (out, f')" and "entered f"
  shows "no_orphan R G (wd f')"
proof (cases "rt_pauseHandler r")
  case None
  with assms unpaused_safe show ?thesis by (auto simp: reconcile_body_def)
next
  case (Some h)
  obtain paused herr obj' f1 where
    c: "fcall EvPauseHandler (h (f_obj f)) f = (((paused, herr), obj'), f1)"
    by (metis surj_pair)
  from pause [OF Some fcall_eqD(4) [OF c]] have "entered (f1\<lparr>f_obj := obj'\<rparr>)"
    by (intro entered_calm [OF assms(2)]) (auto simp: hook_ok_def simp del: split_paired_All)
  with assms(1) Some c unpaused_safe [of "f1\<lparr>f_obj := obj'\<rparr>" out f'] show ?thesis
    by (cases paused) (auto simp: reconcile_body_def entered_def)
qed

lemma pause_keeps: "pause_keeps_deletion r"
proof (cases "rt_pauseHandler r")
  case (Some h)
  have "u_deletion_timestamp (snd (fst (h obj w))) = u_deletion_timestamp obj" for obj w
    using pause [OF Some, of obj w] by (metis prod.collapse)
  with Some show ?thesis by (simp add: pause_keeps_deletion_def)
qed (simp add: pause_keeps_deletion_def)

lemma deferred_safe:
  assumes "reconcile_deferred r E obj s = (out, s')" and "no_orphan R G (world s)"
    and "u_deletion_timestamp obj = None \<longrightarrow> G (world s) (id_of obj)"
  shows "no_orphan R G (world s')"
proof -
  from assms(1) obtain o1 f aerr obj' where
    b: "reconcile_body r E \<lparr>f_obj = obj, f_u = New_updater, f_sys = s\<rparr> = (o1, f)" and
    a: "Apply (rt_client r) (e_lib E) (f_u f) (f_obj f) (f_sys f) = ((aerr, obj'), s')"
    by (rule reconcile_deferred_parts)
  have "no_orphan R G (wd f)" by (rule body_safe [OF b]) (use assms(2,3) in \<open>simp add: entered_def\<close>)
  moreover have "updateFuncs (f_u f) = []" using reconcile_body_adds(2) [OF b pause_keeps] by simp
  ultimately show ?thesis using Apply_change(2) [OF a] by (blast intro: no_orphan_after(1))
qed

lemma Reconcile_safe:
  assumes "Reconcile r E req s = (out, s')" and "no_orphan R G (world s)"
  shows "no_orphan R G (world s')"
proof -
  have got: "no_orphan R G (world s1)"
    if "io_call EvGetCR (kc_get (rt_client r) req) (new_object (rt_gvk r)) s = ((err, obj), s1)" for err obj s1
    using get [OF io_call_eqD(1) [OF that]] assms(2) by (blast intro: no_orphan_after(1))
  have upd: "no_orphan R G (world s2) \<and> (err = None \<longrightarrow> G (world s2) (id_of obj1))"
    if "io_call EvAddFinalizer (kc_update (rt_client r)) (add_finalizer obj) s1 = ((err, obj1), s2)"
      "no_orphan R G (world s1)" for err obj obj1 s1 s2
    using update [OF io_call_eqD(1) [OF that(1)]] that(2)
    by (auto simp: add_finalizer_def calm_def intro: no_orphan_after(1) simp del: split_paired_All)
  from assms(1) show ?thesis
  proof (cases rule: Reconcile_cases)
    case (get_failed e o1)
    from got [OF get_failed(1)] show ?thesis .
  next
    case (finalizer_failed obj s1 e o1)
    from upd [OF finalizer_failed(3) got [OF finalizer_failed(1)]] show ?thesis by simp
  next
    case (added obj s1 obj1 s2)
    from upd [OF added(3) got [OF added(1)]] update [OF io_call_eqD(1) [OF added(3)]]
    show ?thesis by (intro deferred_safe [OF added(4)]) auto
  next
    case (direct obj s1)
    from got [OF direct(1)] get [OF io_call_eqD(1) [OF direct(1)]] direct(2)
    show ?thesis by (intro deferred_safe [OF direct(3)]) (auto simp: needs_finalizer_def)
  qed
qed

end

end
