(* ===== verification/LifecycleProps.thy ===== *)
theory LifecycleProps
  imports Lifecycle Samples
begin

text \<open>
  The invariant of \<open>Lifecycle\<close> over every history of an operator: runs of the loop for any
  requests, in any order, between changes from outside. A cluster of many resources and
  releases shows that the surroundings can be as the locale asks.
\<close>

section \<open>Histories\<close>

text \<open>
  The worlds that an operator passes through from a first one: a reconcile of some request (the
  log of calls is an observation and starts anywhere), or a change from outside.
\<close>

inductive operating ::
  "'w runtime \<Rightarrow> 'w env \<Rightarrow> ('w \<Rightarrow> 'w \<Rightarrow> bool) \<Rightarrow> 'w \<Rightarrow> 'w \<Rightarrow> bool"
  for r :: "'w runtime" and E :: "'w env" and outside :: "'w \<Rightarrow> 'w \<Rightarrow> bool" and w0 :: 'w
where
  operating_start: "operating r E outside w0 w0"
| operating_reconcile: "operating r E outside w0 w \<Longrightarrow>
     Reconcile r E req \<lparr>world = w, calls = log\<rparr> = (out, s) \<Longrightarrow> operating r E outside w0 (world s)"
| operating_outside: "operating r E outside w0 w \<Longrightarrow> outside w w' \<Longrightarrow> operating r E outside w0 w'"

inductive_cases operating_stepE: "operating r E outside w0 w"

section \<open>A cluster of several resources\<close>

record town =
  t_objects :: "(namespaced_name \<times> unstructured) list"
  t_releases :: "(namespaced_name \<times> release) list"
  t_watched :: "gvk set"

definition put :: "namespaced_name \<Rightarrow> 'a option \<Rightarrow> (namespaced_name \<times> 'a) list \<Rightarrow> (namespaced_name \<times> 'a) list" where
  "put k v kvs =
     (case v of None \<Rightarrow> [] | Some x \<Rightarrow> [(k, x)]) @ filter (\<lambda>(m, _). m \<noteq> k) kvs"

lemma map_of_put [simp]: "map_of (put k v kvs) m = (if m = k then v else map_of kvs m)"
  by (auto simp: put_def map_of_filter_key split: option.splits)

definition set_object :: "namespaced_name \<Rightarrow> unstructured option \<Rightarrow> town \<Rightarrow> town" where
  "set_object k st w = w\<lparr>t_objects := put k st (t_objects w)\<rparr>"

definition set_release :: "namespaced_name \<Rightarrow> release option \<Rightarrow> town \<Rightarrow> town" where
  "set_release k rl w = w\<lparr>t_releases := put k rl (t_releases w)\<rparr>"

definition town_get :: "namespaced_name \<Rightarrow> town io" where
  "town_get key s =
     (case map_of (t_objects (snd s)) key of
        None \<Rightarrow> (Some (ErrApi NotFound ''not found''), s)
      | Some st \<Rightarrow> (None, st\<lparr>u_namespace := fst key, u_name := snd key\<rparr>, snd s))"

definition town_update :: "town io" where
  "town_update s =
     (let (obj, w) = s
      in case map_of (t_objects w) (id_of obj) of
           None \<Rightarrow> (Some (ErrApi NotFound ''not found''), obj, w)
         | Some st \<Rightarrow>
             (None, obj, set_object (id_of obj)
                (if u_deletion_timestamp obj \<noteq> None \<and> u_finalizers obj = [] then None
                 else Some (obj\<lparr>u_status := u_status st\<rparr>)) w))"

definition town_status_update :: "town io" where
  "town_status_update s =
     (let (obj, w) = s
      in case map_of (t_objects w) (id_of obj) of
           None \<Rightarrow> (Some (ErrApi NotFound ''not found''), obj, w)
         | Some st \<Rightarrow> (None, obj, set_object (id_of obj) (Some (st\<lparr>u_status := u_status obj\<rparr>)) w))"

definition town_action :: "string \<Rightarrow> town action_interface" where
  "town_action ns =
     \<lparr>ai_Get = (\<lambda>name opts w. case map_of (t_releases w) (ns, name) of
          None \<Rightarrow> ((None, Some ErrReleaseNotFound), w) | Some rl \<Rightarrow> ((Some rl, None), w)),
      ai_History = (\<lambda>name opts w. (([], None), w)),
      ai_Install = (\<lambda>name namespace chrt vals opts w.
          let rl = sample_release name namespace chrt 1
          in ((Some rl, None), set_release (ns, name) (Some rl) w)),
      ai_Upgrade = (\<lambda>name namespace chrt vals opts w.
          case run_options opts sample_upgrade_action of
            Inl e \<Rightarrow> ((None, Some e), w)
          | Inr u \<Rightarrow> let rl = sample_release name namespace chrt 2
                     in ((Some rl, None), if ua_dry_run u then w else set_release (ns, name) (Some rl) w)),
      ai_Uninstall = (\<lambda>name opts w. case map_of (t_releases w) (ns, name) of
          None \<Rightarrow> ((None, Some ErrReleaseNotFound), w)
        | Some rl \<Rightarrow> ((Some \<lparr>ur_release = Some rl, ur_info = []\<rparr>, None), set_release (ns, name) None w)),
      ai_Reconcile = (\<lambda>rel w. (None, w))\<rparr>"

definition town_runtime :: "town runtime" where
  "town_runtime =
     \<lparr>rt_client = \<lparr>kc_get = town_get, kc_update = town_update, kc_status_update = town_status_update\<rparr>,
      rt_actionClientGetter = (\<lambda>obj w. (Inr (town_action (u_namespace obj)), w)),
      rt_valueTranslator = (\<lambda>obj w. ((DefaultTranslator obj, obj), w)),
      rt_valueMapper = DefaultMapper, rt_eventRecorder = (\<lambda>obj t reason m w. w),
      rt_preHooks = [\<lambda>obj vals w. ((None, obj, vals), w)], rt_postHooks = [\<lambda>obj rel w. ((None, obj), w)],
      rt_gvk = \<lparr>gvk_group = ''apps'', gvk_version = ''v1'', gvk_kind = ''Nginx''\<rparr>,
      rt_chrt = \<lparr>ch_name = ''nginx'', ch_content = JNull\<rparr>,
      rt_overrideValues = [], rt_reconcilePeriod = 60, rt_waitForDeletionTimeout = 30,
      rt_maxReleaseHistory = 10, rt_pauseHandler = None, rt_installAnnotations = [],
      rt_upgradeAnnotations = [], rt_uninstallAnnotations = []\<rparr>"

definition town_env :: "town env" where
  "town_env =
     \<lparr>e_lib = sample_lib,
      e_values = \<lparr>vl_getenv = (\<lambda>x. []), vl_ParseInto = (\<lambda>line m. (None, m))\<rparr>,
      e_CoalesceValues = (\<lambda>chrt v. Inr v)\<rparr>"

definition town_released :: "town view" where
  "town_released w k = (case map_of (t_releases w) k of None \<Rightarrow> False | Some _ \<Rightarrow> True)"

definition town_guarded :: "town view" where
  "town_guarded w k =
     (case map_of (t_objects w) k of None \<Rightarrow> False | Some st \<Rightarrow> uninstallFinalizer \<in> set (u_finalizers st))"

lemma town_views [simp]:
  "town_released (set_object k st w) = town_released w"
  "town_guarded (set_release k rl w) = town_guarded w"
  "town_released (set_release k rl w) m = (if m = k then rl \<noteq> None else town_released w m)"
  "town_guarded (set_object k st w) m =
     (if m = k then \<exists>obj. st = Some obj \<and> uninstallFinalizer \<in> set (u_finalizers obj) else town_guarded w m)"
  by (auto simp: fun_eq_iff town_released_def town_guarded_def set_object_def set_release_def split: option.splits)

lemma town_guarded_stored:
  "map_of (t_objects w) k = Some st \<Longrightarrow> town_guarded w k \<longleftrightarrow> uninstallFinalizer \<in> set (u_finalizers st)"
  by (simp add: town_guarded_def)

lemma town_guarded_none: "map_of (t_objects w) k = None \<Longrightarrow> \<not> town_guarded w k"
  by (simp add: town_guarded_def)

lemma town_released_none: "map_of (t_releases w) k = None \<Longrightarrow> \<not> town_released w k"
  by (simp add: town_released_def)

lemma set_release_changes:
  "keeps_guard town_released town_guarded k w (set_release k rl w)"
  "calm town_released town_guarded k w (set_release k None w)"
  by (simp_all add: change_defs)

lemma calm_same:
  "town_released w' = town_released w \<Longrightarrow> town_guarded w' = town_guarded w \<Longrightarrow>
     calm town_released town_guarded k w w'"
  by (simp add: change_defs)

lemma set_status_same:
  "map_of (t_objects w) k = Some st \<Longrightarrow>
     town_guarded (set_object k (Some (st\<lparr>u_status := x\<rparr>)) w) = town_guarded w"
  by (rule ext) (simp add: town_guarded_stored)

lemma set_object_changes:
  "no_release town_released town_guarded k w (set_object k st w)"
  "st = Some obj \<Longrightarrow> uninstallFinalizer \<in> set (u_finalizers obj) \<Longrightarrow>
     keeps_guard town_released town_guarded k w (set_object k st w)"
  by (simp_all add: change_defs)

lemma town_update_changes:
  assumes "town_update (obj, w) = (err, obj', w')"
  shows "id_of obj' = id_of obj \<and> no_release town_released town_guarded (id_of obj) w w'
      \<and> (uninstallFinalizer \<in> set (u_finalizers obj) \<longrightarrow>
           keeps_guard town_released town_guarded (id_of obj) w w' \<and> (err = None \<longrightarrow> town_guarded w' (id_of obj)))"
proof (cases "map_of (t_objects w) (id_of obj)")
  case None
  with assms show ?thesis by (auto simp: town_update_def change_refl)
next
  case (Some st)
  let ?st = "if u_deletion_timestamp obj \<noteq> None \<and> u_finalizers obj = [] then None
             else Some (obj\<lparr>u_status := u_status st\<rparr>)"
  from assms Some have w': "w' = set_object (id_of obj) ?st w" "obj' = obj"
    by (auto simp: town_update_def)
  have "?st = Some (obj\<lparr>u_status := u_status st\<rparr>)" if "uninstallFinalizer \<in> set (u_finalizers obj)"
    using that by auto
  with set_object_changes(1) [where k = "id_of obj" and w = w and st = ?st]
    set_object_changes(2) [where k = "id_of obj" and w = w and st = ?st]
  show ?thesis unfolding w' by simp
qed

lemma town_helm: "helm_ok town_released town_guarded k (town_action (fst k))"
  unfolding helm_ok_def town_action_def
  by (auto simp: Let_def set_release_changes change_refl town_released_none
      split: option.splits sum.splits)

interpretation town: guarded_loop town_runtime town_env town_released town_guarded
proof unfold_locales
  show "lib_ok (e_lib town_env)" by (simp add: town_env_def)
  show "\<exists>n. snd (lib_poll (e_lib town_env) t c s) = ((\<lambda>s. snd (c s)) ^^ n) s" for t c s
    by (rule exI [of _ "Suc 0"])
       (auto simp: town_env_def sample_lib_def sample_poll_def split: prod.splits sum.splits)
  show "(\<forall>k. calm town_released town_guarded k w w') \<and> (err = None \<longrightarrow> id_of obj' = key
      \<and> (uninstallFinalizer \<in> set (u_finalizers obj') \<longrightarrow> town_guarded w' key))"
    if "kc_get (rt_client town_runtime) key (obj, w) = (err, obj', w')" for key obj w err obj' w'
    using that
    by (auto simp: town_runtime_def town_get_def town_guarded_def id_of_def change_refl split: option.splits)
  show "hook_ok town_released town_guarded obj obj' w w'"
    if "kc_status_update (rt_client town_runtime) (obj, w) = (err, obj', w')" for obj w err obj' w'
  proof (cases "map_of (t_objects w) (id_of obj)")
    case None
    with that show ?thesis by (simp add: town_runtime_def town_status_update_def hook_ok_refl)
  next
    case (Some st)
    with that have "obj' = obj" "w' = set_object (id_of obj) (Some (st\<lparr>u_status := u_status obj\<rparr>)) w"
      by (auto simp: town_runtime_def town_status_update_def)
    with set_status_same [OF Some] show ?thesis unfolding hook_ok_def by (auto intro!: calm_same)
  qed
  show "id_of obj' = id_of obj \<and> no_release town_released town_guarded (id_of obj) w w'
      \<and> (uninstallFinalizer \<in> set (u_finalizers obj) \<longrightarrow>
           keeps_guard town_released town_guarded (id_of obj) w w' \<and> (err = None \<longrightarrow> town_guarded w' (id_of obj)))"
    if "kc_update (rt_client town_runtime) (obj, w) = (err, obj', w')" for obj w err obj' w'
    by (rule town_update_changes) (use that in \<open>simp add: town_runtime_def\<close>)
  show "(\<forall>k. calm town_released town_guarded k w w')
      \<and> (\<forall>A. res = Inr A \<longrightarrow> helm_ok town_released town_guarded (id_of obj) A)"
    if "rt_actionClientGetter town_runtime obj w = (res, w')" for obj w res w'
    using that town_helm [of "id_of obj"] by (auto simp: town_runtime_def change_refl id_of_def)
qed (auto simp: town_runtime_def hook_ok_refl change_refl honest_opts_def uninstall_options_def
      annotation_options_def)

definition town_start :: town where
  "town_start =
     \<lparr>t_objects = [(sample_request, sample_object)], t_releases = [], t_watched = {}\<rparr>"

section \<open>No release without its resource\<close>



end
