(* ===== verification/Secrets.thy ===== *)
theory Secrets
  imports KubeApi GoLib
begin

text \<open>
  Kubernetes secrets as the release storage uses them: the secret client
  (\<open>clientcorev1.SecretInterface\<close>, the part that is called), label selectors, the
  labels of \<open>pkg/storage/labels.go\<close>, and the client of
  \<open>pkg/client/ownerrefclient.go\<close> that adds owner references. What a client promises is
  the locale \<open>secret_store\<close>; the owner reference client keeps the promise.
\<close>

section \<open>Secrets and their client\<close>

type_synonym labels = "string \<rightharpoonup> string"

record secret =
  s_name :: string
  s_type :: string
  s_labels :: labels
  s_owner_refs :: "owner_ref list"
  s_uid :: string
  s_immutable :: "bool option"
  s_data :: "string \<rightharpoonup> string"

text \<open>
  A selector made by \<open>labels.Set.AsSelector\<close>: a list of requirements that a label has a
  value. Its string form is parsed again by the API server.
\<close>

type_synonym selector = "(string \<times> string) list"

definition selector_matches :: "selector \<Rightarrow> labels \<Rightarrow> bool" where
  "selector_matches sel lbls \<longleftrightarrow> list_all (\<lambda>(k, v). lbls k = Some v) sel"

record 'w secret_client =
  sc_Get :: "string \<Rightarrow> 'w \<Rightarrow> (go_error + secret) \<times> 'w"
  sc_Create :: "secret \<Rightarrow> 'w \<Rightarrow> (go_error + secret) \<times> 'w"
  sc_Update :: "secret \<Rightarrow> 'w \<Rightarrow> (go_error + secret) \<times> 'w"
  sc_DeleteCollection :: "selector \<Rightarrow> 'w \<Rightarrow> go_error option \<times> 'w"
  sc_List :: "selector \<Rightarrow> 'w \<Rightarrow> (go_error + secret list) \<times> 'w"

section \<open>Labels\<close>

definition newIndexLabels :: "string \<Rightarrow> string \<Rightarrow> release \<Rightarrow> release_info \<Rightarrow> labels" where
  "newIndexLabels owner key rls info =
     [''name'' \<mapsto> rel_name rls, ''owner'' \<mapsto> owner, ''status'' \<mapsto> ri_status info,
      ''version'' \<mapsto> Itoa (rel_version rls), ''key'' \<mapsto> key, ''type'' \<mapsto> ''index'']"

definition newChunkLabels :: "string \<Rightarrow> string \<Rightarrow> labels" where
  "newChunkLabels owner key = [''owner'' \<mapsto> owner, ''key'' \<mapsto> key, ''type'' \<mapsto> ''chunk'']"

definition newListIndicesLabelSelector :: "string \<Rightarrow> selector" where
  "newListIndicesLabelSelector owner = [(''owner'', owner), (''type'', ''index'')]"

definition newListAllForKeySelector :: "string \<Rightarrow> string \<Rightarrow> selector" where
  "newListAllForKeySelector owner key = [(''owner'', owner), (''key'', key)]"

definition newListChunksForKeySelector :: "string \<Rightarrow> string \<Rightarrow> selector" where
  "newListChunksForKeySelector owner key =
     [(''owner'', owner), (''key'', key), (''type'', ''chunk'')]"

definition systemLabels :: "string list" where
  "systemLabels =
     [''name'', ''owner'', ''status'', ''version'', ''key'', ''type'', ''createdAt'', ''modifiedAt'']"

definition isSystemLabel :: "string \<Rightarrow> bool" where
  "isSystemLabel key \<longleftrightarrow> key \<in> set systemLabels"

definition filterSystemLabels :: "labels \<Rightarrow> labels" where
  "filterSystemLabels lbs = (\<lambda>k. if isSystemLabel k then None else lbs k)"

section \<open>What a secret client promises\<close>

text \<open>
  The secret that is stored is the one that was sent, up to what the server adds: the name,
  the type, the labels and the data are kept.
\<close>

definition stored_as :: "secret \<Rightarrow> secret \<Rightarrow> bool" where
  "stored_as s s' \<longleftrightarrow> s_name s' = s_name s \<and> s_type s' = s_type s \<and> s_labels s' = s_labels s
     \<and> s_data s' = s_data s"

lemma stored_as_refl [simp]: "stored_as s s"
  by (simp add: stored_as_def)

lemma stored_as_trans: "stored_as s t \<Longrightarrow> stored_as t u \<Longrightarrow> stored_as s u"
  by (simp add: stored_as_def)

text \<open>
  \<open>lookup w\<close> is the content of the store by name. The laws say what a call that reports
  success has done, and that a not-found answer is true; a call that fails in another way may
  have done anything.
\<close>

locale secret_store =
  fixes C :: "'w secret_client" and lookup :: "'w \<Rightarrow> string \<Rightarrow> secret option"
  assumes get_ok: "sc_Get C n w = (Inr s, w') \<Longrightarrow> lookup w n = Some s \<and> lookup w' = lookup w"
    and get_missing: "sc_Get C n w = (Inl e, w') \<Longrightarrow> IsNotFound e \<Longrightarrow> lookup w n = None \<and> lookup w' = lookup w"
    and create_ok: "sc_Create C s w = (Inr s', w') \<Longrightarrow>
      lookup w (s_name s) = None \<and> stored_as s s' \<and> lookup w' = (lookup w)(s_name s \<mapsto> s')"
    and update_ok: "sc_Update C s w = (Inr s', w') \<Longrightarrow>
      lookup w (s_name s) \<noteq> None \<and> stored_as s s' \<and> lookup w' = (lookup w)(s_name s \<mapsto> s')"
    and delete_ok: "sc_DeleteCollection C sel w = (None, w') \<Longrightarrow>
      lookup w' = (\<lambda>n. case lookup w n of None \<Rightarrow> None
                     | Some s \<Rightarrow> if selector_matches sel (s_labels s) then None else Some s)"
    and list_ok: "sc_List C sel w = (Inr ss, w') \<Longrightarrow>
      lookup w' = lookup w
      \<and> (\<forall>s. s \<in> set ss \<longleftrightarrow> (\<exists>n. lookup w n = Some s) \<and> selector_matches sel (s_labels s))"
begin

lemma created: "sc_Create C s w = (Inr s', w') \<Longrightarrow> lookup w' (s_name s) = Some s'"
  by (simp add: create_ok)

lemma created_other:
  "sc_Create C s w = (Inr s', w') \<Longrightarrow> n \<noteq> s_name s \<Longrightarrow> lookup w' n = lookup w n"
  using create_ok [of s w s' w'] by simp

lemma created_fresh: "sc_Create C s w = (Inr s', w') \<Longrightarrow> lookup w (s_name s) = None"
  using create_ok [of s w s' w'] by simp

lemma deleted:
  assumes "sc_DeleteCollection C sel w = (None, w')" and "lookup w' n = Some s"
  shows "lookup w n = Some s \<and> \<not> selector_matches sel (s_labels s)"
  using assms by (auto simp: delete_ok split: option.splits if_splits)

end

text \<open>A store whose reads do not fail.\<close>

locale reliable_store = secret_store C lookup for C :: "'w secret_client" and lookup +
  assumes get_total: "lookup w n = Some s \<Longrightarrow> \<exists>w'. sc_Get C n w = (Inr s, w')"
    and get_absent: "lookup w n = None \<Longrightarrow> \<exists>e w'. sc_Get C n w = (Inl e, w') \<and> IsNotFound e"

section \<open>Owner references on secrets\<close>

definition hasOwnerRef :: "secret \<Rightarrow> owner_ref \<Rightarrow> bool" where
  "hasOwnerRef s ref \<longleftrightarrow> list_ex (\<lambda>r. or_uid r = or_uid ref) (s_owner_refs s)"

fun appendMissingOwnerRefs :: "owner_ref list \<Rightarrow> secret \<Rightarrow> secret" where
  "appendMissingOwnerRefs [] s = s"
| "appendMissingOwnerRefs (r # rs) s =
     appendMissingOwnerRefs rs
       (if hasOwnerRef s r then s else s\<lparr>s_owner_refs := s_owner_refs s @ [r]\<rparr>)"

text \<open>The embedded interface passes the other operations on. A nil match selects everything.\<close>

definition MatchAllSecrets :: "secret \<Rightarrow> bool" where
  "MatchAllSecrets s = True"

definition ownerRef_prepare :: "owner_ref list \<Rightarrow> (secret \<Rightarrow> bool) \<Rightarrow> secret \<Rightarrow> secret" where
  "ownerRef_prepare refs match_fn s = (if match_fn s then appendMissingOwnerRefs refs s else s)"

definition ownerRef_Create ::
  "'w secret_client \<Rightarrow> owner_ref list \<Rightarrow> (secret \<Rightarrow> bool) \<Rightarrow> secret \<Rightarrow> 'w \<Rightarrow> (go_error + secret) \<times> 'w" where
  "ownerRef_Create C refs match_fn s w = sc_Create C (ownerRef_prepare refs match_fn s) w"

definition ownerRef_Update ::
  "'w secret_client \<Rightarrow> owner_ref list \<Rightarrow> (secret \<Rightarrow> bool) \<Rightarrow> secret \<Rightarrow> 'w \<Rightarrow> (go_error + secret) \<times> 'w" where
  "ownerRef_Update C refs match_fn s w = sc_Update C (ownerRef_prepare refs match_fn s) w"

definition NewOwnerRefSecretClient ::
  "'w secret_client \<Rightarrow> owner_ref list \<Rightarrow> (secret \<Rightarrow> bool) option \<Rightarrow> 'w secret_client" where
  "NewOwnerRefSecretClient C refs match_opt =
     (let match_fn = (case match_opt of None \<Rightarrow> MatchAllSecrets | Some m \<Rightarrow> m)
      in C\<lparr>sc_Create := ownerRef_Create C refs match_fn, sc_Update := ownerRef_Update C refs match_fn\<rparr>)"

lemma appendMissingOwnerRefs_frame:
  "\<exists>refs'. appendMissingOwnerRefs refs s = s\<lparr>s_owner_refs := s_owner_refs s @ refs'\<rparr> \<and> set refs' \<subseteq> set refs"
proof (induction refs arbitrary: s)
  case Nil
  have "s = s\<lparr>s_owner_refs := s_owner_refs s @ []\<rparr>" by simp
  then show ?case by (intro exI [of _ "[]"]) simp
next
  case (Cons r rs)
  show ?case
  proof (cases "hasOwnerRef s r")
    case True
    with Cons.IH [of s] show ?thesis by auto
  next
    case False
    from Cons.IH [of "s\<lparr>s_owner_refs := s_owner_refs s @ [r]\<rparr>"] obtain refs' where
      "appendMissingOwnerRefs rs (s\<lparr>s_owner_refs := s_owner_refs s @ [r]\<rparr>) =
         s\<lparr>s_owner_refs := s_owner_refs s @ (r # refs')\<rparr>" "set refs' \<subseteq> set rs"
      by auto
    with False show ?thesis by (intro exI [of _ "r # refs'"]) auto
  qed
qed

lemma ownerRef_prepare_fields [simp]:
  "s_name (ownerRef_prepare refs m s) = s_name s" "s_type (ownerRef_prepare refs m s) = s_type s"
  "s_labels (ownerRef_prepare refs m s) = s_labels s" "s_data (ownerRef_prepare refs m s) = s_data s"
  using appendMissingOwnerRefs_frame [of refs s] by (auto simp: ownerRef_prepare_def)

lemma stored_as_prepare: "stored_as (ownerRef_prepare refs m s) s' \<longleftrightarrow> stored_as s s'"
  by (simp add: stored_as_def)

text \<open>The owner reference client over a client that keeps the promises keeps them too.\<close>

locale owned_store = secret_store C lookup for C :: "'w secret_client" and lookup +
  fixes refs :: "owner_ref list" and m :: "(secret \<Rightarrow> bool) option"

sublocale owned_store \<subseteq> owned: secret_store "NewOwnerRefSecretClient C refs m" lookup
proof
  show "sc_Get (NewOwnerRefSecretClient C refs m) n w = (Inr s, w') \<Longrightarrow>
      lookup w n = Some s \<and> lookup w' = lookup w" for n w s w'
    by (simp add: NewOwnerRefSecretClient_def Let_def get_ok)
  show "sc_Get (NewOwnerRefSecretClient C refs m) n w = (Inl e, w') \<Longrightarrow> IsNotFound e \<Longrightarrow>
      lookup w n = None \<and> lookup w' = lookup w" for n w e w'
    by (simp add: NewOwnerRefSecretClient_def Let_def get_missing)
  show "sc_Create (NewOwnerRefSecretClient C refs m) s w = (Inr s', w') \<Longrightarrow>
      lookup w (s_name s) = None \<and> stored_as s s' \<and> lookup w' = (lookup w)(s_name s \<mapsto> s')" for s w s' w'
    by (auto simp: NewOwnerRefSecretClient_def Let_def ownerRef_Create_def stored_as_prepare dest!: create_ok)
  show "sc_Update (NewOwnerRefSecretClient C refs m) s w = (Inr s', w') \<Longrightarrow>
      lookup w (s_name s) \<noteq> None \<and> stored_as s s' \<and> lookup w' = (lookup w)(s_name s \<mapsto> s')" for s w s' w'
    by (auto simp: NewOwnerRefSecretClient_def Let_def ownerRef_Update_def stored_as_prepare dest!: update_ok)
  show "sc_DeleteCollection (NewOwnerRefSecretClient C refs m) sel w = (None, w') \<Longrightarrow>
      lookup w' = (\<lambda>n. case lookup w n of None \<Rightarrow> None
                     | Some s \<Rightarrow> if selector_matches sel (s_labels s) then None else Some s)" for sel w w'
    by (simp add: NewOwnerRefSecretClient_def Let_def delete_ok)
  show "sc_List (NewOwnerRefSecretClient C refs m) sel w = (Inr ss, w') \<Longrightarrow>
      lookup w' = lookup w
      \<and> (\<forall>s. s \<in> set ss \<longleftrightarrow> (\<exists>n. lookup w n = Some s) \<and> selector_matches sel (s_labels s))" for sel w ss w'
    by (simp add: NewOwnerRefSecretClient_def Let_def list_ok)
qed

locale owned_reliable = reliable_store C lookup for C :: "'w secret_client" and lookup +
  fixes refs :: "owner_ref list" and m :: "(secret \<Rightarrow> bool) option"

sublocale owned_reliable \<subseteq> owned_store C lookup refs m
  by unfold_locales

sublocale owned_reliable \<subseteq> ownedr: reliable_store "NewOwnerRefSecretClient C refs m" lookup
proof
  show "lookup w n = Some s \<Longrightarrow> \<exists>w'. sc_Get (NewOwnerRefSecretClient C refs m) n w = (Inr s, w')" for w n s
    by (simp add: NewOwnerRefSecretClient_def Let_def get_total)
  show "lookup w n = None \<Longrightarrow>
      \<exists>e w'. sc_Get (NewOwnerRefSecretClient C refs m) n w = (Inl e, w') \<and> IsNotFound e" for w n
    using get_absent [of w n] by (simp add: NewOwnerRefSecretClient_def Let_def)
qed

text \<open>What the preparation does to the references: nothing is lost, nothing appears twice.\<close>

lemma appendMissing_keeps: "set (s_owner_refs s) \<subseteq> set (s_owner_refs (appendMissingOwnerRefs refs s))"
  using appendMissingOwnerRefs_frame [of refs s] by auto

lemma hasOwnerRef_iff: "hasOwnerRef s r \<longleftrightarrow> or_uid r \<in> or_uid ` set (s_owner_refs s)"
  unfolding hasOwnerRef_def list_ex_iff by (metis (mono_tags, lifting) image_iff)

lemma appendMissing_uids:
  "or_uid ` set (s_owner_refs (appendMissingOwnerRefs refs s)) = or_uid ` set (s_owner_refs s) \<union> or_uid ` set refs"
  by (induction refs s rule: appendMissingOwnerRefs.induct) (auto simp: hasOwnerRef_iff)

lemma appendMissing_distinct:
  "distinct (map or_uid (s_owner_refs s)) \<Longrightarrow>
     distinct (map or_uid (s_owner_refs (appendMissingOwnerRefs refs s)))"
  by (induction refs s rule: appendMissingOwnerRefs.induct) (auto simp: hasOwnerRef_iff)

lemma appendMissing_again:
  "or_uid ` set refs \<subseteq> or_uid ` set (s_owner_refs s) \<Longrightarrow> appendMissingOwnerRefs refs s = s"
  by (induction refs s rule: appendMissingOwnerRefs.induct) (auto simp: hasOwnerRef_iff)

end
