(* ===== verification/ChunkedSecrets.thy ===== *)
theory ChunkedSecrets
  imports Secrets NameCodec
begin

text \<open>
  \<open>pkg/storage/chunked.go\<close>: a Helm storage driver that keeps a release in an index
  secret, which holds the first chunk and the names of the others, and one secret per further
  chunk. The codec of a release (JSON through gzip) is the record \<open>release_codec\<close>; the
  configured logger is not modelled.
\<close>

section \<open>The driver\<close>

text \<open>
  What the decoder reads is a stream: the bytes that were written and the error it ends with,
  if any. \<open>cd_NewReader\<close> is the gzip header, \<open>cd_Decode\<close> the JSON document behind
  it. The second component of the wrapped release is its labels, which Helm's own JSON leaves out.
\<close>

record release_codec =
  cd_Encode :: "release \<times> labels \<Rightarrow> go_error + string"
  cd_NewReader :: "string \<Rightarrow> go_error option \<Rightarrow> go_error option"
  cd_Decode :: "string \<Rightarrow> go_error option \<Rightarrow> go_error + release \<times> labels"

definition codec_ok :: "release_codec \<Rightarrow> bool" where
  "codec_ok D \<longleftrightarrow> (\<forall>r ls data. cd_Encode D (r, ls) = Inr data \<longrightarrow>
     data \<noteq> [] \<and> cd_NewReader D data None = None
     \<and> cd_Decode D data None = Inr (r\<lparr>rel_labels := Map.empty\<rparr>, ls))"

record 'w chunkedSecrets =
  cs_client :: "'w secret_client"
  cs_owner :: string
  cs_ChunkSize :: int
  cs_MaxReadChunks :: int
  cs_MaxWriteChunks :: int
  cs_codec :: release_codec
  cs_now :: "'w \<Rightarrow> int"
  cs_dump :: "secret \<Rightarrow> string"

abbreviation SecretTypeChunkedIndex :: string where
  "SecretTypeChunkedIndex \<equiv> ''operatorframework.io/index.v1''"
abbreviation SecretTypeChunkedChunk :: string where
  "SecretTypeChunkedChunk \<equiv> ''operatorframework.io/chunk.v1''"

text \<open>The configuration of a driver; its logger is left out.\<close>

record ChunkedSecretsConfig =
  csc_ChunkSize :: int
  csc_MaxReadChunks :: int
  csc_MaxWriteChunks :: int

definition NewChunkedSecrets ::
  "release_codec \<Rightarrow> ('w \<Rightarrow> int) \<Rightarrow> (secret \<Rightarrow> string) \<Rightarrow> 'w secret_client \<Rightarrow> string \<Rightarrow> ChunkedSecretsConfig
     \<Rightarrow> 'w chunkedSecrets" where
  "NewChunkedSecrets codec now dump client owner config =
     \<lparr>cs_client = client, cs_owner = owner, cs_ChunkSize = csc_ChunkSize config,
      cs_MaxReadChunks = csc_MaxReadChunks config, cs_MaxWriteChunks = csc_MaxWriteChunks config,
      cs_codec = codec, cs_now = now, cs_dump = dump\<rparr>"

record chunk =
  ck_name :: string
  ck_data :: string

section \<open>Encoding\<close>

definition wrapRelease :: "release \<Rightarrow> release \<times> labels" where
  "wrapRelease rls = (rls, rel_labels rls)"

definition slice :: "string \<Rightarrow> int \<Rightarrow> int \<Rightarrow> string" where
  "slice data i e = take (nat (e - i)) (drop (nat i) data)"

text \<open>
  The loop over the encoded data, with the chunk size as it is configured: \<open>None\<close> is a
  loop that never ends, and an upper bound below the lower one is the panic of the slice
  expression.
\<close>

partial_function (option) chunk_loop ::
  "string \<Rightarrow> int \<Rightarrow> string \<Rightarrow> int \<Rightarrow> chunk list \<Rightarrow> chunk list exit option" where
  "chunk_loop key csize data i chunks =
     (if i < int (length data)
      then let end0 = i + csize; e = (if end0 > int (length data) then int (length data) else end0)
           in if e < i then Some (Panic ''slice bounds out of range'')
              else chunk_loop key csize data (i + csize)
                     (chunks @ [\<lparr>ck_name = key @ ''-'' @ hashForData (slice data i e),
                                 ck_data = slice data i e\<rparr>])
      else Some (Ret chunks))"

definition encodeReleaseAsChunks ::
  "'w chunkedSecrets \<Rightarrow> string \<Rightarrow> release \<Rightarrow> (go_error + chunk list) exit option" where
  "encodeReleaseAsChunks c key rls =
     (case cd_Encode (cs_codec c) (wrapRelease rls) of
        Inl e \<Rightarrow> Some (Ret (Inl e))
      | Inr data \<Rightarrow>
          (case chunk_loop key (cs_ChunkSize c) data 0 [] of
             None \<Rightarrow> None
           | Some (Panic m) \<Rightarrow> Some (Panic m)
           | Some (Ret chunks) \<Rightarrow>
               if cs_MaxWriteChunks c > 0 \<and> int (length chunks) > cs_MaxWriteChunks c
               then Some (Ret (Inl (ErrMsg (''release too large: '' @ quoted (rel_name rls) @ '' requires ''
                      @ Itoa (int (length chunks)) @ '' chunks, which exceeds the maximum of ''
                      @ Itoa (cs_MaxWriteChunks c)))))
               else Some (Ret (Inr chunks))))"

definition indexSecretFromChunks ::
  "'w chunkedSecrets \<Rightarrow> string \<Rightarrow> release \<Rightarrow> chunk list \<Rightarrow> secret exit" where
  "indexSecretFromChunks c key rls chunks =
     (case chunks of
        [] \<Rightarrow> Panic ''makeslice: cap out of range''
      | ch # extra \<Rightarrow>
          (case rel_info rls of
             None \<Rightarrow> Panic ''invalid memory address or nil pointer dereference''
           | Some info \<Rightarrow>
               Ret \<lparr>s_name = key, s_type = SecretTypeChunkedIndex,
                    s_labels = newIndexLabels (cs_owner c) key rls info,
                    s_owner_refs = [], s_uid = [], s_immutable = Some False,
                    s_data = [''extraChunks'' \<mapsto> MarshalNames (map ck_name extra),
                              ''chunk'' \<mapsto> ck_data ch]\<rparr>))"

definition chunkSecretFromChunk :: "'w chunkedSecrets \<Rightarrow> secret \<Rightarrow> chunk \<Rightarrow> secret" where
  "chunkSecretFromChunk c indexSecret ch =
     \<lparr>s_name = ck_name ch, s_type = SecretTypeChunkedChunk,
      s_labels = newChunkLabels (cs_owner c) (s_name indexSecret),
      s_owner_refs = [\<lparr>or_api_version = ''v1'', or_kind = ''Secret'', or_name = s_name indexSecret,
                       or_uid = s_uid indexSecret, or_controller = Some True,
                       or_block_owner_deletion = Some False\<rparr>],
      s_uid = [], s_immutable = Some True, s_data = [''chunk'' \<mapsto> ck_data ch]\<rparr>"

section \<open>Writing\<close>

text \<open>
  The loop that creates the further chunks; \<open>num\<close> and the position are for the error.
  \<open>mk\<close> makes the secret of a chunk.
\<close>

fun create_chunks ::
  "'w secret_client \<Rightarrow> (chunk \<Rightarrow> secret) \<Rightarrow> nat \<Rightarrow> nat \<Rightarrow> chunk list \<Rightarrow> 'w \<Rightarrow> go_error option \<times> 'w" where
  "create_chunks C mk num i [] w = (None, w)"
| "create_chunks C mk num i (ch # chs) w =
     (case sc_Create C (mk ch) w of
        (Inl e, w1) \<Rightarrow>
          (Some (ErrWrap (''create: failed to create chunk secret '' @ Itoa (int (i + 2)) @ '' of ''
             @ Itoa (int num) @ '' '' @ quoted (ck_name ch) @ '': '') e), w1)
      | (Inr _, w1) \<Rightarrow> create_chunks C mk num (Suc i) chs w1)"

definition with_label :: "string \<Rightarrow> string \<Rightarrow> secret \<Rightarrow> secret" where
  "with_label k v s = s\<lparr>s_labels := (s_labels s)(k \<mapsto> v)\<rparr>"

definition index_error :: "nat \<Rightarrow> string \<Rightarrow> go_error \<Rightarrow> go_error" where
  "index_error num key e =
     ErrWrap (''create: failed to create index and chunk 1 of '' @ Itoa (int num) @ '' secret ''
       @ quoted key @ '': '') e"

definition encode_error :: "release \<Rightarrow> go_error \<Rightarrow> go_error" where
  "encode_error rls e = ErrWrap (''create: failed to encode release '' @ quoted (rel_name rls) @ '': '') e"

definition cs_Create ::
  "'w chunkedSecrets \<Rightarrow> string \<Rightarrow> release \<Rightarrow> 'w \<Rightarrow> (go_error option exit \<times> 'w) option" where
  "cs_Create c key rls w =
     (case encodeReleaseAsChunks c key rls of
        None \<Rightarrow> None
      | Some (Panic m) \<Rightarrow> Some (Panic m, w)
      | Some (Ret (Inl e)) \<Rightarrow> Some (Ret (Some (encode_error rls e)), w)
      | Some (Ret (Inr chunks)) \<Rightarrow>
          (case indexSecretFromChunks c key rls chunks of
             Panic m \<Rightarrow> Some (Panic m, w)
           | Ret s \<Rightarrow>
               let createdAt = Itoa (cs_now c w)
               in (case sc_Create (cs_client c) (with_label ''createdAt'' createdAt s) w of
                     (Inl e, w1) \<Rightarrow>
                       Some (Ret (Some (if IsAlreadyExists e then ErrReleaseExists
                                        else index_error (length chunks) key e)), w1)
                   | (Inr indexSecret, w1) \<Rightarrow>
                       let (err, w2) = create_chunks (cs_client c)
                             (\<lambda>ch. with_label ''createdAt'' createdAt (chunkSecretFromChunk c indexSecret ch))
                             (length chunks) 0 (tl chunks) w1
                       in Some (Ret err, w2))))"

definition getIndex :: "'w chunkedSecrets \<Rightarrow> string \<Rightarrow> 'w \<Rightarrow> (go_error + secret) \<times> 'w" where
  "getIndex c key w =
     (case sc_Get (cs_client c) key w of
        (Inl e, w1) \<Rightarrow>
          (Inl (if IsNotFound e then ErrReleaseNotFound
                else ErrWrap (''failed to get secret for key '' @ quoted key @ '': '') e), w1)
      | (Inr s, w1) \<Rightarrow> (Inr s, w1))"

text \<open>A missing label reads as the empty string.\<close>

definition label_value :: "labels \<Rightarrow> string \<Rightarrow> string" where
  "label_value ls k = (case ls k of None \<Rightarrow> [] | Some v \<Rightarrow> v)"

definition cs_Update ::
  "'w chunkedSecrets \<Rightarrow> string \<Rightarrow> release \<Rightarrow> 'w \<Rightarrow> (go_error option exit \<times> 'w) option" where
  "cs_Update c key rls w =
     (case getIndex c key w of
        (Inl e, w1) \<Rightarrow> Some (Ret (Some (ErrWrap ''update: '' e)), w1)
      | (Inr existingIndex, w1) \<Rightarrow>
          (case sc_DeleteCollection (cs_client c)
                  (newListChunksForKeySelector (cs_owner c) (s_name existingIndex)) w1 of
             (Some e, w2) \<Rightarrow>
               Some (Ret (Some (ErrWrap (''update: failed to delete previous chunk secrets for key ''
                  @ quoted key @ '': '') e)), w2)
           | (None, w2) \<Rightarrow>
               (case encodeReleaseAsChunks c key rls of
                  None \<Rightarrow> None
                | Some (Panic m) \<Rightarrow> Some (Panic m, w2)
                | Some (Ret (Inl e)) \<Rightarrow> Some (Ret (Some (encode_error rls e)), w2)
                | Some (Ret (Inr chunks)) \<Rightarrow>
                    let modifiedAt = Itoa (cs_now c w2)
                    in (case indexSecretFromChunks c key rls chunks of
                          Panic m \<Rightarrow> Some (Panic m, w2)
                        | Ret s \<Rightarrow>
                            (case sc_Update (cs_client c)
                                    (with_label ''modifiedAt'' modifiedAt
                                       (with_label ''createdAt''
                                          (label_value (s_labels existingIndex) ''createdAt'') s)) w2 of
                               (Inl e, w3) \<Rightarrow> Some (Ret (Some (index_error (length chunks) key e)), w3)
                             | (Inr updatedIndexSecret, w3) \<Rightarrow>
                                 let (err, w4) = create_chunks (cs_client c)
                                       (chunkSecretFromChunk c updatedIndexSecret)
                                       (length chunks) 0 (tl chunks) w3
                                 in Some (Ret err, w4))))))"

section \<open>Reading\<close>

text \<open>
  What the writing side of the pipe produces: the bytes, in order, and the error it closes
  the pipe with. It stops at the first error. (The decoder may stop reading before the end; the
  writer's remaining reads of the API server do not change anything.)
\<close>

fun stream_chunks ::
  "'w secret_client \<Rightarrow> nat \<Rightarrow> string list \<Rightarrow> string \<Rightarrow> 'w \<Rightarrow> (string \<times> go_error option) \<times> 'w" where
  "stream_chunks C i [] out w = ((out, None), w)"
| "stream_chunks C i (chunkName # names) out w =
     (case sc_Get C chunkName w of
        (Inl e, w1) \<Rightarrow>
          ((out, Some (ErrWrap (''failed to get chunk '' @ Itoa (int (i + 2)) @ '' secret ''
             @ quoted chunkName @ '': '') e)), w1)
      | (Inr chunkSecret, w1) \<Rightarrow>
          (case s_data chunkSecret ''chunk'' of
             None \<Rightarrow> ((out, Some (ErrMsg (''chunk '' @ Itoa (int (i + 2)) @ '' secret ''
               @ quoted chunkName @ '' missing chunk data''))), w1)
           | Some chunkData \<Rightarrow> stream_chunks C (Suc i) names (out @ chunkData) w1))"

definition stream_release ::
  "'w secret_client \<Rightarrow> secret \<Rightarrow> string list \<Rightarrow> 'w \<Rightarrow> (string \<times> go_error option) \<times> 'w" where
  "stream_release C indexSecret extraChunkNames w =
     (case s_data indexSecret ''chunk'' of
        None \<Rightarrow> (([], Some (ErrMsg (''index secret '' @ quoted (s_name indexSecret)
                    @ '' missing chunk 1 data''))), w)
      | Some firstChunkData \<Rightarrow> stream_chunks C 0 extraChunkNames firstChunkData w)"

definition decodeRelease :: "'w chunkedSecrets \<Rightarrow> secret \<Rightarrow> 'w \<Rightarrow> (go_error + release) \<times> 'w" where
  "decodeRelease c indexSecret w =
     (case s_data indexSecret ''extraChunks'' of
        None \<Rightarrow> (Inl (ErrMsg (''index secret '' @ quoted (s_name indexSecret)
                   @ '' missing chunks data: '' @ cs_dump c indexSecret)), w)
      | Some extraChunkNamesData \<Rightarrow>
          (case UnmarshalNames extraChunkNamesData of
             None \<Rightarrow> (Inl (ErrMsg ''failed to parse chunk names from index''), w)
           | Some extraChunkNames \<Rightarrow>
               if cs_MaxReadChunks c > 0 \<and> 1 + int (length extraChunkNames) > cs_MaxReadChunks c
               then (Inl (ErrMsg (''release too large: '' @ quoted (s_name indexSecret)
                       @ '' consists of '' @ Itoa (1 + int (length extraChunkNames))
                       @ '' chunks, which exceeds the maximum of '' @ Itoa (cs_MaxReadChunks c))), w)
               else
                 let ((data, endErr), w1) = stream_release (cs_client c) indexSecret extraChunkNames w
                 in (case cd_NewReader (cs_codec c) data endErr of
                       Some e \<Rightarrow> (Inl (ErrWrap ''failed to create gzip reader: '' e), w1)
                     | None \<Rightarrow>
                         (case cd_Decode (cs_codec c) data endErr of
                            Inl e \<Rightarrow> (Inl (ErrWrap ''failed to decode release: '' e), w1)
                          | Inr (r, ls) \<Rightarrow> (Inr (r\<lparr>rel_labels := filterSystemLabels ls\<rparr>), w1)))))"

definition getIndexAndRelease ::
  "'w chunkedSecrets \<Rightarrow> string \<Rightarrow> 'w \<Rightarrow> (go_error + secret \<times> release) \<times> 'w" where
  "getIndexAndRelease c key w =
     (case getIndex c key w of
        (Inl e, w1) \<Rightarrow> (Inl e, w1)
      | (Inr indexSecret, w1) \<Rightarrow>
          (case decodeRelease c indexSecret w1 of
             (Inl e, w2) \<Rightarrow>
               (Inl (ErrWrap (''failed to decode release from index secret '' @ quoted (s_name indexSecret)
                  @ '': '') e), w2)
           | (Inr rls, w2) \<Rightarrow> (Inr (indexSecret, rls), w2)))"

definition cs_Get :: "'w chunkedSecrets \<Rightarrow> string \<Rightarrow> 'w \<Rightarrow> (go_error + release) \<times> 'w" where
  "cs_Get c key w =
     (case getIndexAndRelease c key w of
        (Inl e, w1) \<Rightarrow> (Inl (ErrWrap ''get: '' e), w1)
      | (Inr (_, rls), w1) \<Rightarrow> (Inr rls, w1))"

definition cs_Delete :: "'w chunkedSecrets \<Rightarrow> string \<Rightarrow> 'w \<Rightarrow> (go_error + release) \<times> 'w" where
  "cs_Delete c key w =
     (case getIndexAndRelease c key w of
        (Inl e, w1) \<Rightarrow>
          (Inl (if errors_Is e ErrReleaseNotFound then ErrReleaseNotFound else ErrWrap ''delete: '' e), w1)
      | (Inr (indexSecret, rls), w1) \<Rightarrow>
          (case sc_DeleteCollection (cs_client c) (newListAllForKeySelector (cs_owner c) key) w1 of
             (Some e, w2) \<Rightarrow>
               (Inl (ErrWrap (''delete: failed to delete index secret '' @ quoted (s_name indexSecret)
                  @ '': '') e), w2)
           | (None, w2) \<Rightarrow> (Inr rls, w2)))"

fun list_loop ::
  "'w chunkedSecrets \<Rightarrow> (release \<Rightarrow> bool) \<Rightarrow> secret list \<Rightarrow> 'w \<Rightarrow> (go_error + release list) \<times> 'w" where
  "list_loop c flt [] w = (Inr [], w)"
| "list_loop c flt (indexSecret # items) w =
     (case decodeRelease c indexSecret w of
        (Inl e, w1) \<Rightarrow>
          (Inl (ErrWrap (''list: failed to decode release for key ''
             @ quoted (label_value (s_labels indexSecret) ''key'') @ '': '') e), w1)
      | (Inr rls0, w1) \<Rightarrow>
          let rls = rls0\<lparr>rel_labels := s_labels indexSecret\<rparr>
          in (case list_loop c flt items w1 of
                (Inl e, w2) \<Rightarrow> (Inl e, w2)
              | (Inr results, w2) \<Rightarrow> (Inr (if flt rls then rls # results else results), w2)))"

definition cs_List ::
  "'w chunkedSecrets \<Rightarrow> (release \<Rightarrow> bool) \<Rightarrow> 'w \<Rightarrow> (go_error + release list) \<times> 'w" where
  "cs_List c flt w =
     (case sc_List (cs_client c) (newListIndicesLabelSelector (cs_owner c)) w of
        (Inl e, w1) \<Rightarrow> (Inl (ErrWrap ''list: '' e), w1)
      | (Inr items, w1) \<Rightarrow> list_loop c flt items w1)"

text \<open>The query labels are listed in the order of Go's iteration over the map.\<close>

definition translate_owner :: "'w chunkedSecrets \<Rightarrow> (string \<times> string) list \<Rightarrow> (string \<times> string) list" where
  "translate_owner c queryLabels =
     map (\<lambda>(k, v). if k = ''owner'' \<and> v = ''helm'' then (k, cs_owner c) else (k, v)) queryLabels"

fun query_loop ::
  "'w chunkedSecrets \<Rightarrow> selector \<Rightarrow> secret list \<Rightarrow> 'w \<Rightarrow> (go_error + release list) \<times> 'w" where
  "query_loop c clientSelector [] w = (Inr [], w)"
| "query_loop c clientSelector (indexSecret # items) w =
     (case decodeRelease c indexSecret w of
        (Inl e, w1) \<Rightarrow> (Inl (ErrWrap ''query: failed to decode release: '' e), w1)
      | (Inr rls, w1) \<Rightarrow>
          (case query_loop c clientSelector items w1 of
             (Inl e, w2) \<Rightarrow> (Inl e, w2)
           | (Inr results, w2) \<Rightarrow>
               (Inr (if selector_matches clientSelector (rel_labels rls) then rls # results else results), w2)))"

definition cs_Query ::
  "'w chunkedSecrets \<Rightarrow> (string \<times> string) list \<Rightarrow> 'w \<Rightarrow> (go_error + release list) \<times> 'w" where
  "cs_Query c queryLabels0 w =
     (let queryLabels = translate_owner c queryLabels0;
          serverSet = filter (\<lambda>(k, v). isSystemLabel k) queryLabels;
          clientSelector = filter (\<lambda>(k, v). \<not> isSystemLabel k) queryLabels;
          serverSelector = newListIndicesLabelSelector (cs_owner c) @ serverSet
      in (case sc_List (cs_client c) serverSelector w of
            (Inl e, w1) \<Rightarrow> (Inl (ErrWrap ''query: '' e), w1)
          | (Inr items, w1) \<Rightarrow>
              (case query_loop c clientSelector items w1 of
                 (Inl e, w2) \<Rightarrow> (Inl e, w2)
               | (Inr results, w2) \<Rightarrow>
                   if length results = 0 then (Inl ErrReleaseNotFound, w2) else (Inr results, w2))))"

definition cs_Name :: "'w chunkedSecrets \<Rightarrow> string" where
  "cs_Name c = cs_owner c @ ''/chunkedSecrets''"

end
