(* ===== verification/ChunkedFacts.thy ===== *)
theory ChunkedFacts
  imports ChunkedSecrets
begin

text \<open>
  Lemmas about the chunked storage driver: the chunk loop equals a reference function on the
  data, and, for a client that keeps the promises of \<open>secret_store\<close>, what creating,
  updating, deleting and reading do to the store.
\<close>

section \<open>The chunk loop\<close>

fun pieces :: "nat \<Rightarrow> string \<Rightarrow> string list" where
  "pieces n xs = (if xs = [] \<or> n = 0 then [] else take n xs # pieces n (drop n xs))"

declare pieces.simps [simp del]

definition chunk_of :: "string \<Rightarrow> string \<Rightarrow> chunk" where
  "chunk_of key d = \<lparr>ck_name = key @ ''-'' @ hashForData d, ck_data = d\<rparr>"

lemma chunk_of_fields [simp]:
  "ck_data (chunk_of key d) = d" "ck_name (chunk_of key d) = key @ ''-'' @ hashForData d"
  by (simp_all add: chunk_of_def)

lemma pieces_Nil [simp]: "pieces n [] = []"
  by (simp add: pieces.simps)

lemma pieces_concat: "0 < n \<Longrightarrow> concat (pieces n xs) = xs"
proof (induction n xs rule: pieces.induct)
  case (1 n xs)
  show ?case
  proof (cases "xs = []")
    case True
    then show ?thesis by simp
  next
    case False
    with 1 have "concat (pieces n (drop n xs)) = drop n xs" by simp
    with False 1(2) show ?thesis by (subst pieces.simps) simp
  qed
qed

lemma pieces_sizes: "p \<in> set (pieces n xs) \<Longrightarrow> p \<noteq> [] \<and> length p \<le> n"
proof (induction n xs rule: pieces.induct)
  case (1 n xs)
  show ?case
  proof (cases "xs = [] \<or> n = 0")
    case True
    with 1(2) show ?thesis by (subst (asm) pieces.simps) simp
  next
    case False
    with 1(2) have "p = take n xs \<or> p \<in> set (pieces n (drop n xs))"
      by (subst (asm) pieces.simps) simp
    with 1(1) [OF False] False show ?thesis by auto
  qed
qed

lemma pieces_not_empty: "xs \<noteq> [] \<Longrightarrow> 0 < n \<Longrightarrow> pieces n xs \<noteq> []"
  by (subst pieces.simps) simp

lemma chunk_loop_pieces:
  assumes "0 < csize" and "0 \<le> i"
  shows "chunk_loop key csize data i acc =
     Some (Ret (acc @ map (chunk_of key) (pieces (nat csize) (drop (nat i) data))))"
  using assms(2)
proof (induction "length data - nat i" arbitrary: i acc rule: less_induct)
  case less
  show ?case
  proof (cases "i < int (length data)")
    case False
    with less.prems show ?thesis by (subst chunk_loop.simps) simp
  next
    case True
    let ?e = "if i + csize > int (length data) then int (length data) else i + csize"
    have sl: "slice data i ?e = take (nat csize) (drop (nat i) data)"
      using less.prems assms(1) True
      by (auto simp: slice_def nat_add_distrib)
    have d: "drop (nat csize + nat i) data = drop (nat (i + csize)) data"
      using less.prems assms(1) by (simp add: nat_add_distrib add.commute)
    have ne: "drop (nat i) data \<noteq> []" using True less.prems by simp
    have "chunk_loop key csize data i acc =
        chunk_loop key csize data (i + csize) (acc @ [chunk_of key (slice data i ?e)])"
      using True assms(1) by (subst chunk_loop.simps) (simp add: chunk_of_def Let_def)
    also have "\<dots> = Some (Ret ((acc @ [chunk_of key (slice data i ?e)])
        @ map (chunk_of key) (pieces (nat csize) (drop (nat (i + csize)) data))))"
      by (rule less.hyps) (use True less.prems assms(1) in auto)
    also have "\<dots> = Some (Ret (acc @ map (chunk_of key) (pieces (nat csize) (drop (nat i) data))))"
      using ne assms(1) by (subst (2) pieces.simps) (simp add: sl d)
    finally show ?thesis .
  qed
qed

lemma chunk_loop_zero:
  assumes "i < int (length data)"
  shows "chunk_loop key 0 data i acc = None"
proof (rule ccontr)
  assume "chunk_loop key 0 data i acc \<noteq> None"
  then obtain y where "chunk_loop key 0 data i acc = Some y" by blast
  moreover have "\<not> (csize = 0 \<and> i < int (length data))" if "chunk_loop key csize data i acc = Some y"
    for key csize data i acc y
    using that
    by (rule chunk_loop.raw_induct
        [where P = "\<lambda>key csize data i acc y. \<not> (csize = 0 \<and> i < int (length data))", rotated])
       (force simp: Let_def split: if_splits)
  ultimately show False using assms by blast
qed

lemma chunk_loop_negative:
  "csize < 0 \<Longrightarrow> data \<noteq> [] \<Longrightarrow> \<exists>m. chunk_loop key csize data 0 acc = Some (Panic m)"
  by (subst chunk_loop.simps) auto

lemma chunk_loop_empty: "chunk_loop key csize [] 0 acc = Some (Ret acc)"
  by (subst chunk_loop.simps) simp

lemma encode_pieces:
  assumes "0 < cs_ChunkSize c" and "cd_Encode (cs_codec c) (wrapRelease rls) = Inr data"
  shows "encodeReleaseAsChunks c key rls =
     (let chunks = map (chunk_of key) (pieces (nat (cs_ChunkSize c)) data)
      in if cs_MaxWriteChunks c > 0 \<and> int (length chunks) > cs_MaxWriteChunks c
         then Some (Ret (Inl (ErrMsg (''release too large: '' @ quoted (rel_name rls) @ '' requires ''
                      @ Itoa (int (length chunks)) @ '' chunks, which exceeds the maximum of ''
                      @ Itoa (cs_MaxWriteChunks c)))))
         else Some (Ret (Inr chunks)))"
  using assms chunk_loop_pieces [of "cs_ChunkSize c" 0 key data "[]"]
  by (simp add: encodeReleaseAsChunks_def Let_def)

lemma encode_Inr:
  assumes "0 < cs_ChunkSize c" and "encodeReleaseAsChunks c key rls = Some (Ret (Inr chunks))"
  obtains data where "cd_Encode (cs_codec c) (wrapRelease rls) = Inr data"
    and "chunks = map (chunk_of key) (pieces (nat (cs_ChunkSize c)) data)"
    and "cs_MaxWriteChunks c > 0 \<Longrightarrow> int (length chunks) \<le> cs_MaxWriteChunks c"
proof (cases "cd_Encode (cs_codec c) (wrapRelease rls)")
  case (Inl e)
  with assms(2) show ?thesis by (simp add: encodeReleaseAsChunks_def)
next
  case (Inr data)
  from encode_pieces [OF assms(1) Inr, of key] assms(2) that [OF Inr] show ?thesis
    by (auto simp: Let_def split: if_splits)
qed

section \<open>Writing chunks to a store\<close>

definition chunk_secret :: "(chunk \<Rightarrow> secret) \<Rightarrow> bool" where
  "chunk_secret mk \<longleftrightarrow> (\<forall>ch. s_name (mk ch) = ck_name ch \<and> s_data (mk ch) ''chunk'' = Some (ck_data ch))"

lemma chunk_secrets [simp]:
  "chunk_secret (chunkSecretFromChunk c s)"
  "chunk_secret (\<lambda>ch. with_label k v (chunkSecretFromChunk c s ch))"
  by (simp_all add: chunk_secret_def chunkSecretFromChunk_def with_label_def)

context secret_store begin

lemma create_chunks_ok:
  assumes "create_chunks C mk num i chs w = (None, w')" and "chunk_secret mk"
  shows "distinct (map ck_name chs)
    \<and> (\<forall>ch \<in> set chs. lookup w (ck_name ch) = None
         \<and> (\<exists>s. lookup w' (ck_name ch) = Some s \<and> stored_as (mk ch) s))
    \<and> (\<forall>n. n \<notin> ck_name ` set chs \<longrightarrow> lookup w' n = lookup w n)"
  using assms(1)
proof (induction chs arbitrary: i w)
  case Nil
  then show ?case by simp
next
  case (Cons ch chs)
  from Cons.prems obtain s1 w1 where c: "sc_Create C (mk ch) w = (Inr s1, w1)"
    and r: "create_chunks C mk num (Suc i) chs w1 = (None, w')"
    by (auto split: prod.splits sum.splits)
  note ih = Cons.IH [OF r]
  have nm: "s_name (mk ch) = ck_name ch" using assms(2) by (simp add: chunk_secret_def)
  note c' = create_ok [OF c, unfolded nm]
  have nin: "ck_name ch \<notin> ck_name ` set chs"
  proof
    assume "ck_name ch \<in> ck_name ` set chs"
    with ih have "lookup w1 (ck_name ch) = None" by fastforce
    with c' show False by simp
  qed
  with ih c' show ?case by (auto simp: fun_upd_apply split: if_splits)
qed

lemma create_chunks_distinct_data:
  assumes "create_chunks C mk num i (map (chunk_of key) ds) w = (None, w')" and "chunk_secret mk"
  shows "distinct ds"
proof -
  from create_chunks_ok [OF assms] have "distinct (map ck_name (map (chunk_of key) ds))" by blast
  then have "distinct (map (\<lambda>d. key @ ''-'' @ hashForData d) ds)" by (simp add: comp_def)
  then show ?thesis by (simp add: distinct_map)
qed

end

section \<open>A release in a store\<close>

text \<open>
  The store holds a release under a key as the given pieces of data: the index secret with the
  first piece and the names of the others, and a chunk secret for each of these. All of them
  carry the labels of the owner and the key.
\<close>

definition owned_by :: "string \<Rightarrow> string \<Rightarrow> secret \<Rightarrow> bool" where
  "owned_by owner key s \<longleftrightarrow> s_labels s ''owner'' = Some owner \<and> s_labels s ''key'' = Some key"

definition holds_release ::
  "(string \<Rightarrow> secret option) \<Rightarrow> string \<Rightarrow> string \<Rightarrow> string list \<Rightarrow> bool" where
  "holds_release L owner key ds \<longleftrightarrow>
     (\<exists>d ds'. ds = d # ds'
        \<and> (\<exists>s. L key = Some s \<and> owned_by owner key s
             \<and> s_data s = [''extraChunks'' \<mapsto> MarshalNames (map (\<lambda>d. ck_name (chunk_of key d)) ds'),
                           ''chunk'' \<mapsto> d])
        \<and> (\<forall>d \<in> set ds'. \<exists>s. L (ck_name (chunk_of key d)) = Some s \<and> owned_by owner key s
             \<and> s_data s ''chunk'' = Some d))"

lemma owned_by_selector:
  "owned_by owner key s \<longleftrightarrow> selector_matches (newListAllForKeySelector owner key) (s_labels s)"
  by (simp add: owned_by_def selector_matches_def newListAllForKeySelector_def)

lemma index_secret:
  assumes "indexSecretFromChunks c key rls (ch # chs) = Ret s"
  shows "s_name s = key"
    and "s_data s = [''extraChunks'' \<mapsto> MarshalNames (map ck_name chs), ''chunk'' \<mapsto> ck_data ch]"
    and "s_labels s ''owner'' = Some (cs_owner c)" and "s_labels s ''key'' = Some key"
    and "s_labels s ''type'' = Some ''index''"
  using assms by (auto simp: indexSecretFromChunks_def newIndexLabels_def split: option.splits)

lemma with_label_fields [simp]:
  "s_name (with_label k v s) = s_name s" "s_data (with_label k v s) = s_data s"
  "s_labels (with_label k v s) k' = (if k' = k then Some v else s_labels s k')"
  by (simp_all add: with_label_def)

lemma chunk_secret_labels [simp]:
  "s_labels (chunkSecretFromChunk c s ch) = newChunkLabels (cs_owner c) (s_name s)"
  by (simp add: chunkSecretFromChunk_def)

context secret_store begin

text \<open>Writing the index and then all further chunks leaves the release in the store.\<close>

lemma write_holds:
  assumes ch: "create_chunks C mk num 0 (map (chunk_of key) ds') w1 = (None, w')" and mk: "chunk_secret mk"
    and own: "\<And>ch s. stored_as (mk ch) s \<Longrightarrow> owned_by owner key s"
    and ix: "lookup w1 key = Some s" "owned_by owner key s"
      "s_data s = [''extraChunks'' \<mapsto> MarshalNames (map (\<lambda>d. ck_name (chunk_of key d)) ds'), ''chunk'' \<mapsto> d]"
  shows "holds_release (lookup w') owner key (d # ds')"
proof -
  note ok = create_chunks_ok [OF ch mk]
  have "key \<notin> ck_name ` set (map (chunk_of key) ds')" using ok ix(1) by fastforce
  with ok ix(1) have "lookup w' key = Some s" by simp
  moreover have "\<exists>s. lookup w' (ck_name (chunk_of key e)) = Some s \<and> owned_by owner key s
      \<and> s_data s ''chunk'' = Some e" if "e \<in> set ds'" for e
  proof -
    have "chunk_of key e \<in> set (map (chunk_of key) ds')" using that by simp
    with ok obtain t where t: "lookup w' (ck_name (chunk_of key e)) = Some t"
      "stored_as (mk (chunk_of key e)) t" by blast
    from t(2) mk have "s_data t ''chunk'' = Some e" by (simp add: stored_as_def chunk_secret_def)
    with t own show ?thesis by blast
  qed
  ultimately show ?thesis using ix by (auto simp: holds_release_def)
qed

lemma create_holds:
  assumes "cs_Create c key rls w = Some (Ret None, w')" and "cs_client c = C"
    and "0 < cs_ChunkSize c" and "codec_ok (cs_codec c)"
  shows "\<exists>ds. cd_Encode (cs_codec c) (wrapRelease rls) = Inr (concat ds)
    \<and> holds_release (lookup w') (cs_owner c) key ds \<and> lookup w key = None \<and> distinct (tl ds)
    \<and> (cs_MaxWriteChunks c > 0 \<longrightarrow> int (length ds) \<le> cs_MaxWriteChunks c)"
proof -
  from assms(1) obtain chunks s where e: "encodeReleaseAsChunks c key rls = Some (Ret (Inr chunks))"
    and s: "indexSecretFromChunks c key rls chunks = Ret s"
    by (auto simp: cs_Create_def Let_def split: option.splits exit.splits sum.splits)
  from encode_Inr [OF assms(3) e] obtain data where d: "cd_Encode (cs_codec c) (wrapRelease rls) = Inr data"
    "chunks = map (chunk_of key) (pieces (nat (cs_ChunkSize c)) data)"
    "cs_MaxWriteChunks c > 0 \<Longrightarrow> int (length chunks) \<le> cs_MaxWriteChunks c"
    by blast
  let ?ds = "pieces (nat (cs_ChunkSize c)) data"
  have "data \<noteq> []" using d(1) assms(4) by (auto simp: codec_ok_def wrapRelease_def)
  with assms(3) obtain d0 ds' where ds: "?ds = d0 # ds'"
    using pieces_not_empty [of data "nat (cs_ChunkSize c)"] by (cases ?ds) auto
  have cat: "concat ?ds = data" using assms(3) by (simp add: pieces_concat)
  let ?t = "Itoa (cs_now c w)"
  from assms(1) e s d(2) ds assms(2) obtain ix w1 where
    i: "sc_Create C (with_label ''createdAt'' ?t s) w = (Inr ix, w1)" and
    r: "create_chunks C (\<lambda>ch. with_label ''createdAt'' ?t (chunkSecretFromChunk c ix ch))
         (length chunks) 0 (map (chunk_of key) ds') w1 = (None, w')"
    by (auto simp: cs_Create_def Let_def split: sum.splits prod.splits)
  note ixs = index_secret [OF s [unfolded d(2) ds list.map]]
  note ok = create_ok [OF i, unfolded with_label_fields ixs(1)]
  have nm: "s_name ix = key" using ok by (simp add: stored_as_def ixs(1))
  have "holds_release (lookup w') (cs_owner c) key (d0 # ds')"
  proof (rule write_holds [OF r])
    show "lookup w1 key = Some ix" using ok by simp
    show "owned_by (cs_owner c) key ix" using ok ixs(3,4) by (simp add: owned_by_def stored_as_def)
    show "s_data ix = [''extraChunks'' \<mapsto> MarshalNames (map (\<lambda>d. ck_name (chunk_of key d)) ds'), ''chunk'' \<mapsto> d0]"
      using ok ixs(2) by (simp add: stored_as_def comp_def)
  qed (auto simp: owned_by_def stored_as_def newChunkLabels_def nm)
  moreover have "distinct ds'" using create_chunks_distinct_data [OF r] by simp
  ultimately show ?thesis using d cat ds ok by (intro exI [of _ ?ds]) auto
qed

lemma update_holds:
  assumes "cs_Update c key rls w = Some (Ret None, w')" and "cs_client c = C"
    and "0 < cs_ChunkSize c" and "codec_ok (cs_codec c)"
  shows "\<exists>ds. cd_Encode (cs_codec c) (wrapRelease rls) = Inr (concat ds)
    \<and> holds_release (lookup w') (cs_owner c) key ds \<and> lookup w key \<noteq> None
    \<and> (cs_MaxWriteChunks c > 0 \<longrightarrow> int (length ds) \<le> cs_MaxWriteChunks c)"
proof -
  from assms(1) obtain old w1 where g: "getIndex c key w = (Inr old, w1)"
    by (auto simp: cs_Update_def split: prod.splits sum.splits)
  then have old: "lookup w key = Some old"
    using get_ok assms(2) by (auto simp: getIndex_def split: prod.splits sum.splits)
  from assms(1,2) g obtain w2 where
    dl: "sc_DeleteCollection C (newListChunksForKeySelector (cs_owner c) (s_name old)) w1 = (None, w2)"
    by (auto simp: cs_Update_def split: prod.splits option.splits)
  from assms(1,2) g dl obtain chunks s where e: "encodeReleaseAsChunks c key rls = Some (Ret (Inr chunks))"
    and s: "indexSecretFromChunks c key rls chunks = Ret s"
    by (auto simp: cs_Update_def Let_def split: option.splits exit.splits sum.splits)
  from encode_Inr [OF assms(3) e] obtain data where d: "cd_Encode (cs_codec c) (wrapRelease rls) = Inr data"
    "chunks = map (chunk_of key) (pieces (nat (cs_ChunkSize c)) data)"
    "cs_MaxWriteChunks c > 0 \<Longrightarrow> int (length chunks) \<le> cs_MaxWriteChunks c"
    by blast
  let ?ds = "pieces (nat (cs_ChunkSize c)) data"
  have "data \<noteq> []" using d(1) assms(4) by (auto simp: codec_ok_def wrapRelease_def)
  with assms(3) obtain d0 ds' where ds: "?ds = d0 # ds'"
    using pieces_not_empty [of data "nat (cs_ChunkSize c)"] by (cases ?ds) auto
  have cat: "concat ?ds = data" using assms(3) by (simp add: pieces_concat)
  let ?s = "with_label ''modifiedAt'' (Itoa (cs_now c w2))
     (with_label ''createdAt'' (label_value (s_labels old) ''createdAt'') s)"
  from assms(1,2) g dl e s d(2) ds obtain ix w3 where
    i: "sc_Update C ?s w2 = (Inr ix, w3)" and
    r: "create_chunks C (chunkSecretFromChunk c ix) (length chunks) 0 (map (chunk_of key) ds') w3 = (None, w')"
    by (auto simp: cs_Update_def Let_def split: sum.splits prod.splits)
  note ixs = index_secret [OF s [unfolded d(2) ds list.map]]
  note ok = update_ok [OF i, unfolded with_label_fields ixs(1)]
  have nm: "s_name ix = key" using ok by (simp add: stored_as_def ixs(1))
  have "holds_release (lookup w') (cs_owner c) key (d0 # ds')"
  proof (rule write_holds [OF r])
    show "lookup w3 key = Some ix" using ok by simp
    show "owned_by (cs_owner c) key ix" using ok ixs(3,4) by (simp add: owned_by_def stored_as_def)
    show "s_data ix = [''extraChunks'' \<mapsto> MarshalNames (map (\<lambda>d. ck_name (chunk_of key d)) ds'), ''chunk'' \<mapsto> d0]"
      using ok ixs(2) by (simp add: stored_as_def comp_def)
  qed (auto simp: owned_by_def stored_as_def newChunkLabels_def nm)
  then show ?thesis using d cat ds old by (intro exI [of _ ?ds]) auto
qed

lemma delete_removes:
  assumes "cs_Delete c key w = (Inr r, w')" and "cs_client c = C"
  shows "lookup w' n = Some s \<Longrightarrow> \<not> owned_by (cs_owner c) key s"
proof -
  from assms obtain w1 where "sc_DeleteCollection C (newListAllForKeySelector (cs_owner c) key) w1 = (None, w')"
    by (auto simp: cs_Delete_def split: prod.splits sum.splits option.splits)
  from deleted [OF this] show "lookup w' n = Some s \<Longrightarrow> \<not> owned_by (cs_owner c) key s"
    by (simp add: owned_by_selector)
qed

end

section \<open>Reading chunks from a store\<close>

context reliable_store begin

lemma get_present: "lookup w n = Some s \<Longrightarrow> \<exists>w'. sc_Get C n w = (Inr s, w') \<and> lookup w' = lookup w"
  using get_total [of w n s] get_ok by blast

lemma stream_chunks_ok:
  assumes "\<forall>d \<in> set ds. \<exists>s. lookup w (nm d) = Some s \<and> s_data s ''chunk'' = Some d"
  shows "\<exists>w'. stream_chunks C i (map nm ds) out w = ((out @ concat ds, None), w') \<and> lookup w' = lookup w"
  using assms
proof (induction ds arbitrary: i out w)
  case Nil
  then show ?case by simp
next
  case (Cons d ds)
  then obtain s where s: "lookup w (nm d) = Some s" "s_data s ''chunk'' = Some d" by auto
  obtain w1 where g: "sc_Get C (nm d) w = (Inr s, w1)" "lookup w1 = lookup w"
    using get_present [OF s(1)] by blast
  from Cons.prems g(2) have "\<forall>d \<in> set ds. \<exists>s. lookup w1 (nm d) = Some s \<and> s_data s ''chunk'' = Some d"
    by simp
  from Cons.IH [OF this, of "Suc i" "out @ d"] g s(2) show ?case by simp
qed

lemma read_release:
  assumes "holds_release (lookup w) (cs_owner c) key ds" and "cs_client c = C" and "codec_ok (cs_codec c)"
    and "cd_Encode (cs_codec c) (wrapRelease rls) = Inr (concat ds)"
    and "cs_MaxReadChunks c \<le> 0 \<or> int (length ds) \<le> cs_MaxReadChunks c"
  shows "\<exists>w'. cs_Get c key w = (Inr (rls\<lparr>rel_labels := filterSystemLabels (rel_labels rls)\<rparr>), w')
    \<and> lookup w' = lookup w"
proof -
  from assms(1) obtain d ds' s where ds: "ds = d # ds'" and s: "lookup w key = Some s"
    "s_data s = [''extraChunks'' \<mapsto> MarshalNames (map (\<lambda>d. ck_name (chunk_of key d)) ds'), ''chunk'' \<mapsto> d]"
    and ch: "\<forall>d \<in> set ds'. \<exists>s. lookup w (ck_name (chunk_of key d)) = Some s
      \<and> s_data s ''chunk'' = Some d"
    by (force simp: holds_release_def)
  obtain w1 where g: "sc_Get C key w = (Inr s, w1)" "lookup w1 = lookup w"
    using get_present [OF s(1)] by blast
  from ch g(2) have "\<forall>d \<in> set ds'. \<exists>s. lookup w1 (ck_name (chunk_of key d)) = Some s
      \<and> s_data s ''chunk'' = Some d" by simp
  from stream_chunks_ok [OF this, of 0 d] obtain w2 where
    st: "stream_chunks C 0 (map (\<lambda>d. ck_name (chunk_of key d)) ds') d w1 = ((concat ds, None), w2)"
      "lookup w2 = lookup w1" by (auto simp: ds)
  have dec: "cd_NewReader (cs_codec c) (concat ds) None = None"
    "cd_Decode (cs_codec c) (concat ds) None = Inr (rls\<lparr>rel_labels := Map.empty\<rparr>, rel_labels rls)"
    using assms(3,4) by (auto simp: codec_ok_def wrapRelease_def)
  have "decodeRelease c s w1 = (Inr (rls\<lparr>rel_labels := filterSystemLabels (rel_labels rls)\<rparr>), w2)"
    using assms(5) st dec
    by (auto simp: decodeRelease_def s(2) Unmarshal_Marshal stream_release_def assms(2) ds)
  with g st(2) show ?thesis
    by (simp add: cs_Get_def getIndexAndRelease_def getIndex_def assms(2))
qed

lemma read_missing:
  assumes "lookup w key = None" and "cs_client c = C"
  shows "fst (cs_Get c key w) = Inl (ErrWrap ''get: '' ErrReleaseNotFound)"
  using get_absent [OF assms(1)] assms(2)
  by (auto simp: cs_Get_def getIndexAndRelease_def getIndex_def)

text \<open>Reads leave the store alone, so a delete removes what the store held when it started.\<close>

lemma get_keeps: "lookup (snd (sc_Get C n w)) = lookup w"
proof -
  obtain r w' where g: "sc_Get C n w = (r, w')" by fastforce
  show ?thesis
  proof (cases r)
    case (Inr s)
    with g get_ok show ?thesis by simp
  next
    case (Inl e)
    have "lookup w n = None"
      using g Inl get_total [of w n] by (cases "lookup w n") auto
    with get_absent [of w n] g Inl have "IsNotFound e" by auto
    with g Inl get_missing show ?thesis by simp
  qed
qed

lemma stream_chunks_keeps: "lookup (snd (stream_chunks C i ns out w)) = lookup w"
proof (induction ns arbitrary: i out w)
  case Nil
  then show ?case by simp
next
  case (Cons n ns)
  from get_keeps [of n w] Cons show ?case
    by (auto split: prod.splits sum.splits option.splits)
qed

lemma decode_keeps:
  assumes "cs_client c = C" and "decodeRelease c s w = (r, w')"
  shows "lookup w' = lookup w"
proof -
  have k: "lookup w1 = lookup w" if "stream_release C s ns w = (x, w1)" for ns x w1
    using that stream_chunks_keeps [of 0 ns _ w]
    by (auto simp: stream_release_def split: option.splits dest: arg_cong [of _ _ snd])
       (metis snd_conv)
  show ?thesis
    using assms(2) unfolding decodeRelease_def assms(1)
    by (auto split: option.splits prod.splits sum.splits if_splits dest!: k)
qed

lemma index_and_release_keeps:
  assumes "cs_client c = C" and "getIndexAndRelease c key w = (r, w')"
  shows "lookup w' = lookup w"
proof -
  obtain g w1 where g: "getIndex c key w = (g, w1)" by fastforce
  have w1: "lookup w1 = lookup w"
    using g get_keeps [of key w] assms(1) by (auto simp: getIndex_def split: prod.splits sum.splits)
  show ?thesis
  proof (cases g)
    case (Inl e)
    with assms(2) g w1 show ?thesis by (simp add: getIndexAndRelease_def)
  next
    case (Inr s)
    obtain x w2 where d: "decodeRelease c s w1 = (x, w2)" by fastforce
    with assms(2) g Inr have "w' = w2" by (auto simp: getIndexAndRelease_def split: sum.splits)
    with decode_keeps [OF assms(1) d] w1 show ?thesis by simp
  qed
qed

lemma delete_lookup:
  assumes "cs_Delete c key w = (Inr r, w')" and "cs_client c = C"
  shows "lookup w' = (\<lambda>n. case lookup w n of None \<Rightarrow> None
                     | Some s \<Rightarrow> if owned_by (cs_owner c) key s then None else Some s)"
proof -
  from assms(1) obtain ix rls w1 where g: "getIndexAndRelease c key w = (Inr (ix, rls), w1)"
    by (auto simp: cs_Delete_def split: prod.splits sum.splits)
  with assms have d: "sc_DeleteCollection C (newListAllForKeySelector (cs_owner c) key) w1 = (None, w')"
    by (auto simp: cs_Delete_def split: prod.splits option.splits)
  show ?thesis
    unfolding delete_ok [OF d] index_and_release_keeps [OF assms(2) g] owned_by_selector ..
qed

end

lemma get_delete_same:
  assumes "cs_Get c key w = (Inr r, w1)" and "cs_Delete c key w = (Inr r', w2)"
  shows "r' = r"
  using assms by (auto simp: cs_Get_def cs_Delete_def split: prod.splits sum.splits option.splits)

lemma query_loop_results:
  assumes "query_loop c sel items w = (Inr rs, w')" and "r \<in> set rs"
  shows "\<exists>s \<in> set items. \<exists>w1 w2. decodeRelease c s w1 = (Inr r, w2) \<and> selector_matches sel (rel_labels r)"
  using assms
proof (induction c sel items w arbitrary: rs rule: query_loop.induct)
  case (1 c sel w)
  then show ?case by simp
next
  case (2 c sel s items w)
  from 2(2) obtain x w1 ys where d: "decodeRelease c s w = (Inr x, w1)"
    and l: "query_loop c sel items w1 = (Inr ys, w')"
    and rs: "rs = (if selector_matches sel (rel_labels x) then x # ys else ys)"
    by (auto split: prod.splits sum.splits)
  from rs 2(3) have "r = x \<and> selector_matches sel (rel_labels x) \<or> r \<in> set ys"
    by (auto split: if_splits)
  with 2(1) [OF d [symmetric] refl l] d show ?case by auto
qed

lemma query_loop_not_found: "query_loop c sel items w \<noteq> (Inl ErrReleaseNotFound, w')"
  by (induction c sel items w rule: query_loop.induct) (auto split: prod.splits sum.splits)

lemma query_loop_complete:
  assumes "query_loop c sel items w = (Inr rs, w')" and "s \<in> set items"
  shows "\<exists>r w1 w2. decodeRelease c s w1 = (Inr r, w2) \<and> (selector_matches sel (rel_labels r) \<longrightarrow> r \<in> set rs)"
  using assms
proof (induction c sel items w arbitrary: rs rule: query_loop.induct)
  case (1 c sel w)
  then show ?case by simp
next
  case (2 c sel s1 items w)
  from 2(2) obtain x w1 ys where d: "decodeRelease c s1 w = (Inr x, w1)"
    and l: "query_loop c sel items w1 = (Inr ys, w')"
    and rs: "rs = (if selector_matches sel (rel_labels x) then x # ys else ys)"
    by (auto split: prod.splits sum.splits)
  show ?case
  proof (cases "s = s1")
    case True
    with d rs show ?thesis by auto
  next
    case False
    with 2(3) have "s \<in> set items" by simp
    from 2(1) [OF d [symmetric] refl l this] rs show ?thesis by (auto split: if_splits)
  qed
qed

end
