(* ===== verification/ChunkedProps.thy ===== *)
theory ChunkedProps
  imports ChunkedFacts
begin

text \<open>
  The properties of the release storage: the chunk loop, reading back what was written,
  deleting, querying, the names of chunks and the owner references, with a store in memory on
  which the witnesses run.
\<close>

section \<open>A store in memory\<close>

type_synonym mem = "secret list"

fun mem_lookup :: "mem \<Rightarrow> string \<Rightarrow> secret option" where
  "mem_lookup [] n = None"
| "mem_lookup (s # ss) n = (if s_name s = n then Some s else mem_lookup ss n)"

fun mem_items :: "mem \<Rightarrow> mem" where
  "mem_items [] = []"
| "mem_items (s # ss) = s # filter (\<lambda>t. s_name t \<noteq> s_name s) (mem_items ss)"

definition mem_client :: "mem secret_client" where
  "mem_client =
     \<lparr>sc_Get = (\<lambda>n w. case mem_lookup w n of
          None \<Rightarrow> (Inl (ErrApi NotFound ''not found''), w) | Some s \<Rightarrow> (Inr s, w)),
      sc_Create = (\<lambda>s w. case mem_lookup w (s_name s) of
          Some _ \<Rightarrow> (Inl (ErrApi AlreadyExists ''exists''), w)
        | None \<Rightarrow> let s' = s\<lparr>s_uid := ''uid-'' @ s_name s\<rparr> in (Inr s', s' # w)),
      sc_Update = (\<lambda>s w. case mem_lookup w (s_name s) of
          None \<Rightarrow> (Inl (ErrApi NotFound ''not found''), w) | Some _ \<Rightarrow> (Inr s, s # w)),
      sc_DeleteCollection = (\<lambda>sel w.
          (None, filter (\<lambda>s. \<not> selector_matches sel (s_labels s)) (mem_items w))),
      sc_List = (\<lambda>sel w. (Inr (filter (\<lambda>s. selector_matches sel (s_labels s)) (mem_items w)), w))\<rparr>"

lemma mem_items_set: "s \<in> set (mem_items w) \<longleftrightarrow> mem_lookup w (s_name s) = Some s"
  by (induction w) auto

lemma mem_lookup_name: "mem_lookup w n = Some s \<Longrightarrow> s_name s = n"
  by (induction w) (auto split: if_splits)

lemma mem_lookup_filter:
  "mem_lookup (filter P (mem_items w)) n =
     (case mem_lookup w n of None \<Rightarrow> None | Some s \<Rightarrow> if P s then Some s else None)"
proof -
  have other: "mem_lookup (filter (\<lambda>t. s_name t \<noteq> m \<and> P t) ss) n
      = (if n = m then None else mem_lookup (filter P ss) n)" for m ss
    by (induction ss) auto
  show ?thesis by (induction w) (auto simp: other)
qed

interpretation mem: reliable_store mem_client mem_lookup
  by unfold_locales
     (auto simp: mem_client_def mem_lookup_filter mem_items_set fun_eq_iff Let_def stored_as_def
        dest: mem_lookup_name split: option.splits if_splits)

interpretation owned_mem: owned_reliable mem_client mem_lookup "[]" None
  by unfold_locales

text \<open>A codec that knows one release, and drivers with small chunks.\<close>

definition small_release :: release where
  "small_release =
     \<lparr>rel_name = ''web'', rel_namespace = ''prod'', rel_version = 1, rel_manifest = ''m'',
      rel_info = Some \<lparr>ri_status = ''deployed'', ri_notes = []\<rparr>, rel_labels = [''team'' \<mapsto> ''a''],
      rel_rest = JNull\<rparr>"

definition small_codec :: "string \<Rightarrow> release_codec" where
  "small_codec data =
     \<lparr>cd_Encode = (\<lambda>x. if x = (small_release, rel_labels small_release) then Inr data
                       else Inl (ErrMsg ''unknown'')),
      cd_NewReader = (\<lambda>d e. None),
      cd_Decode = (\<lambda>d e. if d = data
         then Inr (small_release\<lparr>rel_labels := Map.empty\<rparr>, rel_labels small_release)
         else Inl (ErrMsg ''corrupt''))\<rparr>"

definition small_driver :: "string \<Rightarrow> int \<Rightarrow> int \<Rightarrow> mem chunkedSecrets" where
  "small_driver data csize maxw =
     \<lparr>cs_client = mem_client, cs_owner = ''op'', cs_ChunkSize = csize, cs_MaxReadChunks = 0,
      cs_MaxWriteChunks = maxw, cs_codec = small_codec data, cs_now = (\<lambda>w. 9), cs_dump = (\<lambda>s. [])\<rparr>"

lemma small_codec_ok: "data \<noteq> [] \<Longrightarrow> codec_ok (small_codec data)"
  by (auto simp: codec_ok_def small_codec_def)

lemma small_driver_fields [simp]:
  "cs_client (small_driver data n m) = mem_client" "cs_codec (small_driver data n m) = small_codec data"
  "cs_ChunkSize (small_driver data n m) = n" "cs_MaxReadChunks (small_driver data n m) = 0"
  "cs_MaxWriteChunks (small_driver data n m) = m" "cs_owner (small_driver data n m) = ''op''"
  by (simp_all add: small_driver_def)

lemma small_name: "rel_name small_release = ''web''"
  by (simp add: small_release_def)

lemma small_labels: "filterSystemLabels [''team'' \<mapsto> ''a''] = [''team'' \<mapsto> ''a'']"
  by (rule ext) (auto simp: filterSystemLabels_def isSystemLabel_def systemLabels_def)

lemma small_encode:
  "cd_Encode (small_codec data) (wrapRelease small_release) = Inr data"
  by (simp add: small_codec_def wrapRelease_def)

lemma small_pieces: "pieces 2 ''ABCD'' = [''AB'', ''CD'']" "pieces 2 ''ABAB'' = [''AB'', ''AB'']"
  by (simp_all add: pieces.simps)

text \<open>A create of two chunks on the empty store.\<close>

lemma small_create:
  "\<exists>w. cs_Create (small_driver ''ABCD'' 2 0) ''k'' small_release [] = Some (Ret None, w)"
proof -
  have "encodeReleaseAsChunks (small_driver ''ABCD'' 2 0) ''k'' small_release
      = Some (Ret (Inr [chunk_of ''k'' ''AB'', chunk_of ''k'' ''CD'']))"
    by (simp add: encode_pieces [where data = "''ABCD''"] small_encode small_pieces)
  then show ?thesis
    by (simp add: cs_Create_def indexSecretFromChunks_def small_release_def Let_def mem_client_def
        with_label_def chunkSecretFromChunk_def)
qed

text \<open>A stored release of another content.\<close>

definition small_index :: secret where
  "small_index =
     \<lparr>s_name = ''k'', s_type = SecretTypeChunkedIndex,
      s_labels = [''owner'' \<mapsto> ''op'', ''key'' \<mapsto> ''k'', ''type'' \<mapsto> ''index''],
      s_owner_refs = [], s_uid = ''u1'', s_immutable = Some False,
      s_data = [''extraChunks'' \<mapsto> MarshalNames [''k-x''], ''chunk'' \<mapsto> ''old'']\<rparr>"

definition small_chunk :: secret where
  "small_chunk =
     \<lparr>s_name = ''k-x'', s_type = SecretTypeChunkedChunk,
      s_labels = [''owner'' \<mapsto> ''op'', ''key'' \<mapsto> ''k'', ''type'' \<mapsto> ''chunk''],
      s_owner_refs = [], s_uid = ''u2'', s_immutable = Some True, s_data = [''chunk'' \<mapsto> ''data'']\<rparr>"

definition small_single :: secret where
  "small_single =
     \<lparr>s_name = ''k'', s_type = SecretTypeChunkedIndex,
      s_labels = [''owner'' \<mapsto> ''op'', ''key'' \<mapsto> ''k'', ''type'' \<mapsto> ''index''],
      s_owner_refs = [], s_uid = ''u1'', s_immutable = Some False,
      s_data = [''extraChunks'' \<mapsto> MarshalNames [], ''chunk'' \<mapsto> ''old'']\<rparr>"

definition small_ref :: owner_ref where
  "small_ref = \<lparr>or_api_version = ''v1'', or_kind = ''Nginx'', or_name = ''web'', or_uid = ''u9'',
     or_controller = Some True, or_block_owner_deletion = None\<rparr>"

definition small_too_large :: go_error where
  "small_too_large = ErrMsg (''release too large: '' @ quoted ''web'' @ '' requires ''
     @ Itoa 2 @ '' chunks, which exceeds the maximum of '' @ Itoa 1)"

lemma small_update:
  "\<exists>w. cs_Update (small_driver ''ABCD'' 2 0) ''k'' small_release [small_index] = Some (Ret None, w)"
proof -
  have "encodeReleaseAsChunks (small_driver ''ABCD'' 2 0) ''k'' small_release
      = Some (Ret (Inr [chunk_of ''k'' ''AB'', chunk_of ''k'' ''CD'']))"
    by (simp add: encode_pieces [where data = "''ABCD''"] small_encode small_pieces)
  then show ?thesis
    by (simp add: cs_Update_def getIndex_def indexSecretFromChunks_def small_release_def Let_def mem_client_def
        with_label_def chunkSecretFromChunk_def small_index_def selector_matches_def
        newListChunksForKeySelector_def)
qed

text \<open>A delete of what can be read succeeds on the store in memory.\<close>

lemma mem_delete:
  assumes "cs_client c = mem_client" and "cs_Get c key w = (Inr r, w')"
  shows "\<exists>r w2. cs_Delete c key w = (Inr r, w2)"
  using assms
  by (auto simp: cs_Get_def cs_Delete_def mem_client_def split: prod.splits sum.splits)

lemma small_delete:
  assumes "cs_Create (small_driver ''ABCD'' 2 0) ''k'' small_release [] = Some (Ret None, w)"
  shows "\<exists>r w2. cs_Delete (small_driver ''ABCD'' 2 0) ''k'' w = (Inr r, w2)"
proof -
  let ?c = "small_driver ''ABCD'' 2 0"
  from mem.create_holds [OF assms] obtain ds where ds:
    "cd_Encode (cs_codec ?c) (wrapRelease small_release) = Inr (concat ds)"
    "holds_release (mem_lookup w) (cs_owner ?c) ''k'' ds"
    by (auto simp: small_codec_ok)
  from mem.read_release [OF ds(2) _ _ ds(1)] obtain x w' where "cs_Get ?c ''k'' w = (Inr x, w')"
    by (auto simp: small_codec_ok)
  from mem_delete [OF _ this] show ?thesis by simp
qed

section \<open>Chunking\<close>

text \<open>C18. Encoding fails to return exactly when the chunk size is configured as zero (the
  data of a release that encodes are never empty): for every other chunk size the loop ends,
  with chunks, an error or, for a negative size, a panic.\<close>

theorem encoding_returns_iff:
  assumes "codec_ok (cs_codec c)"
  shows "encodeReleaseAsChunks c key rls = None \<longleftrightarrow>
     cs_ChunkSize c = 0 \<and> (\<exists>data. cd_Encode (cs_codec c) (wrapRelease rls) = Inr data)"
proof (cases "cd_Encode (cs_codec c) (wrapRelease rls)")
  case (Inl e)
  then show ?thesis by (simp add: encodeReleaseAsChunks_def)
next
  case (Inr data)
  with assms have ne: "data \<noteq> []" by (auto simp: codec_ok_def wrapRelease_def)
  consider "cs_ChunkSize c = 0" | "cs_ChunkSize c < 0" | "0 < cs_ChunkSize c" by linarith
  then show ?thesis
  proof cases
    case 1
    with ne Inr show ?thesis by (simp add: encodeReleaseAsChunks_def chunk_loop_zero)
  next
    case 2
    with chunk_loop_negative [OF 2 ne, of key "[]"] Inr show ?thesis
      by (auto simp: encodeReleaseAsChunks_def)
  next
    case 3
    with encode_pieces [OF 3 Inr, of key] show ?thesis by (simp add: Let_def)
  qed
qed

theorem encoding_returns_iff_witness:
  "encodeReleaseAsChunks (small_driver ''ABCD'' 0 0) ''k'' small_release = None"
  using encoding_returns_iff [of "small_driver ''ABCD'' 0 0" "''k''" small_release]
  by (simp add: small_codec_ok small_encode)

text \<open>C19. The chunks of a release are its encoded data cut into pieces: put together they are
  the data, each is non-empty and no larger than the chunk size, the name of each is the key
  and the hash of its content, and there are at most as many as may be written.\<close>

theorem chunks_partition:
  assumes "0 < cs_ChunkSize c" and "encodeReleaseAsChunks c key rls = Some (Ret (Inr chunks))"
  shows "cd_Encode (cs_codec c) (wrapRelease rls) = Inr (concat (map ck_data chunks))
    \<and> (\<forall>ch \<in> set chunks. ck_data ch \<noteq> [] \<and> int (length (ck_data ch)) \<le> cs_ChunkSize c
         \<and> ck_name ch = key @ ''-'' @ hashForData (ck_data ch))
    \<and> (cs_MaxWriteChunks c > 0 \<longrightarrow> int (length chunks) \<le> cs_MaxWriteChunks c)"
proof -
  from encode_Inr [OF assms] obtain data where d: "cd_Encode (cs_codec c) (wrapRelease rls) = Inr data"
    "chunks = map (chunk_of key) (pieces (nat (cs_ChunkSize c)) data)"
    "cs_MaxWriteChunks c > 0 \<Longrightarrow> int (length chunks) \<le> cs_MaxWriteChunks c"
    by blast
  have "concat (map ck_data chunks) = data"
    using assms(1) by (simp add: d(2) comp_def pieces_concat)
  moreover have "ck_data ch \<noteq> [] \<and> int (length (ck_data ch)) \<le> cs_ChunkSize c
         \<and> ck_name ch = key @ ''-'' @ hashForData (ck_data ch)" if "ch \<in> set chunks" for ch
    using that pieces_sizes [of _ "nat (cs_ChunkSize c)" data] assms(1) by (fastforce simp: d(2))
  ultimately show ?thesis using d(1,3) by blast
qed

theorem chunks_partition_witness:
  "\<exists>chunks. encodeReleaseAsChunks (small_driver ''ABCD'' 2 0) ''k'' small_release = Some (Ret (Inr chunks))
     \<and> concat (map ck_data chunks) = ''ABCD''"
proof -
  have e: "encodeReleaseAsChunks (small_driver ''ABCD'' 2 0) ''k'' small_release
      = Some (Ret (Inr (map (chunk_of ''k'') [''AB'', ''CD''])))"
    by (simp add: encode_pieces [where data = "''ABCD''"] small_encode small_pieces)
  from chunks_partition [OF _ e] e show ?thesis by (simp add: small_encode)
qed

section \<open>Round trips through the store\<close>

text \<open>C21. What was created reads back: after a successful create over a secret client that
  keeps its promises, getting the key returns the release, with its labels less the system
  labels. (The read limit, if there is one, must not be below the write limit.)\<close>

theorem created_release_reads_back:
  assumes "reliable_store (cs_client c) lookup" and "codec_ok (cs_codec c)" and "0 < cs_ChunkSize c"
    and "cs_MaxReadChunks c \<le> 0 \<or> 0 < cs_MaxWriteChunks c \<and> cs_MaxWriteChunks c \<le> cs_MaxReadChunks c"
    and "cs_Create c key rls w = Some (Ret None, w')"
  shows "\<exists>w''. cs_Get c key w' = (Inr (rls\<lparr>rel_labels := filterSystemLabels (rel_labels rls)\<rparr>), w'')
     \<and> lookup w'' = lookup w'"
proof -
  from secret_store.create_holds [OF reliable_store.axioms(1) [OF assms(1)] assms(5) refl assms(3,2)]
  obtain ds where ds: "cd_Encode (cs_codec c) (wrapRelease rls) = Inr (concat ds)"
    "holds_release (lookup w') (cs_owner c) key ds"
    "cs_MaxWriteChunks c > 0 \<longrightarrow> int (length ds) \<le> cs_MaxWriteChunks c"
    by blast
  have "cs_MaxReadChunks c \<le> 0 \<or> int (length ds) \<le> cs_MaxReadChunks c" using ds(3) assms(4) by linarith
  from reliable_store.read_release [OF assms(1) ds(2) refl assms(2) ds(1) this] show ?thesis .
qed

theorem created_release_reads_back_witness:
  "\<exists>w. cs_Create (small_driver ''ABCD'' 2 0) ''k'' small_release [] = Some (Ret None, w)
     \<and> fst (cs_Get (small_driver ''ABCD'' 2 0) ''k'' w)
         = Inr (small_release\<lparr>rel_labels := filterSystemLabels [''team'' \<mapsto> ''a'']\<rparr>)"
proof -
  obtain w where c: "cs_Create (small_driver ''ABCD'' 2 0) ''k'' small_release [] = Some (Ret None, w)"
    using small_create by blast
  have "reliable_store (cs_client (small_driver ''ABCD'' 2 0)) mem_lookup"
    using mem.reliable_store_axioms by simp
  from created_release_reads_back [OF this _ _ _ c] c show ?thesis
    by (fastforce simp: small_codec_ok small_release_def)
qed

text \<open>An update that succeeds replaces the release: the key had one before, and reads back
  as the new one afterwards.\<close>

theorem updated_release_reads_back:
  assumes "reliable_store (cs_client c) lookup" and "codec_ok (cs_codec c)" and "0 < cs_ChunkSize c"
    and "cs_MaxReadChunks c \<le> 0 \<or> 0 < cs_MaxWriteChunks c \<and> cs_MaxWriteChunks c \<le> cs_MaxReadChunks c"
    and "cs_Update c key rls w = Some (Ret None, w')"
  shows "lookup w key \<noteq> None
    \<and> (\<exists>w''. cs_Get c key w' = (Inr (rls\<lparr>rel_labels := filterSystemLabels (rel_labels rls)\<rparr>), w''))"
proof -
  from secret_store.update_holds [OF reliable_store.axioms(1) [OF assms(1)] assms(5) refl assms(3,2)]
  obtain ds where ds: "cd_Encode (cs_codec c) (wrapRelease rls) = Inr (concat ds)"
    "holds_release (lookup w') (cs_owner c) key ds" "lookup w key \<noteq> None"
    "cs_MaxWriteChunks c > 0 \<longrightarrow> int (length ds) \<le> cs_MaxWriteChunks c"
    by blast
  have "cs_MaxReadChunks c \<le> 0 \<or> int (length ds) \<le> cs_MaxReadChunks c" using ds(4) assms(4) by linarith
  from reliable_store.read_release [OF assms(1) ds(2) refl assms(2) ds(1) this] ds(3) show ?thesis by blast
qed

theorem updated_release_reads_back_witness:
  "\<exists>w w'. cs_Update (small_driver ''ABCD'' 2 0) ''k'' small_release w = Some (Ret None, w')
     \<and> fst (cs_Get (small_driver ''ABCD'' 2 0) ''k'' w')
         = Inr (small_release\<lparr>rel_labels := filterSystemLabels [''team'' \<mapsto> ''a'']\<rparr>)"
proof -
  obtain w' where c: "cs_Update (small_driver ''ABCD'' 2 0) ''k'' small_release [small_index] = Some (Ret None, w')"
    using small_update by blast
  have "reliable_store (cs_client (small_driver ''ABCD'' 2 0)) mem_lookup"
    using mem.reliable_store_axioms by simp
  from updated_release_reads_back [OF this _ _ _ c] c show ?thesis
    by (fastforce simp: small_codec_ok small_release_def)
qed

text \<open>Deleting what was created returns it and leaves nothing of it: the secrets that are
  left are exactly those of the store that do not carry the labels of the owner and the key,
  and the key is not found afterwards.\<close>

theorem deleted_release_is_gone:
  assumes "reliable_store (cs_client c) lookup" and "codec_ok (cs_codec c)" and "0 < cs_ChunkSize c"
    and "cs_MaxReadChunks c \<le> 0 \<or> 0 < cs_MaxWriteChunks c \<and> cs_MaxWriteChunks c \<le> cs_MaxReadChunks c"
    and "cs_Create c key rls w = Some (Ret None, w1)" and "cs_Delete c key w1 = (Inr r, w2)"
  shows "r = rls\<lparr>rel_labels := filterSystemLabels (rel_labels rls)\<rparr>
    \<and> lookup w2 = (\<lambda>n. case lookup w1 n of None \<Rightarrow> None
                     | Some s \<Rightarrow> if owned_by (cs_owner c) key s then None else Some s)
    \<and> fst (cs_Get c key w2) = Inl (ErrWrap ''get: '' ErrReleaseNotFound)"
proof -
  from secret_store.create_holds [OF reliable_store.axioms(1) [OF assms(1)] assms(5) refl assms(3,2)]
  obtain ds where ds: "cd_Encode (cs_codec c) (wrapRelease rls) = Inr (concat ds)"
    "holds_release (lookup w1) (cs_owner c) key ds"
    "cs_MaxWriteChunks c > 0 \<longrightarrow> int (length ds) \<le> cs_MaxWriteChunks c"
    by blast
  have "cs_MaxReadChunks c \<le> 0 \<or> int (length ds) \<le> cs_MaxReadChunks c" using ds(3) assms(4) by linarith
  from reliable_store.read_release [OF assms(1) ds(2) refl assms(2) ds(1) this] obtain w'' where
    g: "cs_Get c key w1 = (Inr (rls\<lparr>rel_labels := filterSystemLabels (rel_labels rls)\<rparr>), w'')"
    by blast
  note del = reliable_store.delete_lookup [OF assms(1,6) refl]
  from ds(2) obtain s where "lookup w1 key = Some s" "owned_by (cs_owner c) key s"
    by (auto simp: holds_release_def)
  with del have "lookup w2 key = None" by simp
  from reliable_store.read_missing [OF assms(1) this refl] del get_delete_same [OF g assms(6)]
  show ?thesis by blast
qed

theorem deleted_release_is_gone_witness:
  "\<exists>w1 r w2. cs_Create (small_driver ''ABCD'' 2 0) ''k'' small_release [] = Some (Ret None, w1)
     \<and> cs_Delete (small_driver ''ABCD'' 2 0) ''k'' w1 = (Inr r, w2)
     \<and> fst (cs_Get (small_driver ''ABCD'' 2 0) ''k'' w2) = Inl (ErrWrap ''get: '' ErrReleaseNotFound)"
proof -
  let ?c = "small_driver ''ABCD'' 2 0"
  obtain w1 where c: "cs_Create ?c ''k'' small_release [] = Some (Ret None, w1)"
    using small_create by blast
  obtain r w2 where d: "cs_Delete ?c ''k'' w1 = (Inr r, w2)"
    using small_delete [OF c] by blast
  have "reliable_store (cs_client ?c) mem_lookup"
    using mem.reliable_store_axioms by simp
  from deleted_release_is_gone [OF this _ _ _ c d] c d show ?thesis
    by (fastforce simp: small_codec_ok)
qed

section \<open>What an error leaves behind\<close>

text \<open>C22. An update deletes the chunks of the stored release before it encodes the new one: when
  the new release then turns out not to encode (because it is too large, say), the update
  fails, yet every chunk secret of the old release is gone while its index is still there.\<close>

theorem failed_update_loses_chunks:
  assumes "secret_store (cs_client c) lookup"
    and "getIndex c key w = (Inr index, w1)" and "s_labels index ''type'' = Some ''index''"
    and "sc_DeleteCollection (cs_client c) (newListChunksForKeySelector (cs_owner c) (s_name index)) w1
           = (None, w2)"
    and "encodeReleaseAsChunks c key rls = Some (Ret (Inl e))"
  shows "cs_Update c key rls w = Some (Ret (Some (encode_error rls e)), w2)
    \<and> lookup w2 key = Some index
    \<and> (\<forall>n s. lookup w2 n = Some s \<longrightarrow>
          \<not> (owned_by (cs_owner c) (s_name index) s \<and> s_labels s ''type'' = Some ''chunk''))"
proof -
  have g: "lookup w key = Some index" "lookup w1 = lookup w"
    using assms(2) secret_store.get_ok [OF assms(1)]
    by (auto simp: getIndex_def split: prod.splits sum.splits)
  have sel: "selector_matches (newListChunksForKeySelector (cs_owner c) (s_name index)) (s_labels s)
      \<longleftrightarrow> owned_by (cs_owner c) (s_name index) s \<and> s_labels s ''type'' = Some ''chunk''" for s
    by (auto simp: selector_matches_def newListChunksForKeySelector_def owned_by_def)
  have "cs_Update c key rls w = Some (Ret (Some (encode_error rls e)), w2)"
    using assms(2,4,5) by (simp add: cs_Update_def)
  with secret_store.delete_ok [OF assms(1,4), unfolded sel] g assms(3) show ?thesis
    by (auto split: option.splits if_splits)
qed

theorem failed_update_loses_chunks_witness:
  "\<exists>w1. cs_Update (small_driver ''ABCD'' 2 1) ''k'' small_release [small_chunk, small_index]
       = Some (Ret (Some (encode_error small_release small_too_large)), w1)
     \<and> mem_lookup w1 ''k'' = Some small_index \<and> mem_lookup w1 ''k-x'' = None"
proof -
  let ?c = "small_driver ''ABCD'' 2 1"
  have g: "getIndex ?c ''k'' [small_chunk, small_index] = (Inr small_index, [small_chunk, small_index])"
    by (simp add: getIndex_def mem_client_def small_index_def small_chunk_def)
  have d: "sc_DeleteCollection (cs_client ?c)
      (newListChunksForKeySelector (cs_owner ?c) (s_name small_index)) [small_chunk, small_index]
      = (None, [small_index])"
    by (simp add: mem_client_def small_index_def small_chunk_def selector_matches_def
        newListChunksForKeySelector_def)
  have e: "encodeReleaseAsChunks ?c ''k'' small_release = Some (Ret (Inl small_too_large))"
    by (simp add: encode_pieces [where data = "''ABCD''"] small_encode small_pieces small_too_large_def
        small_name)
  from failed_update_loses_chunks [OF _ g _ d e, of mem_lookup] mem.secret_store_axioms
  show ?thesis by (simp add: small_index_def)
qed

text \<open>C23. A release can only be created when no two of its chunks after the first have the same
  content: equal chunks have equal names, and the second create is refused.\<close>

theorem equal_chunks_not_created:
  assumes "secret_store (cs_client c) lookup" and "0 < cs_ChunkSize c" and "codec_ok (cs_codec c)"
    and "encodeReleaseAsChunks c key rls = Some (Ret (Inr chunks))"
    and "\<not> distinct (map ck_data (tl chunks))"
  shows "\<nexists>w'. cs_Create c key rls w = Some (Ret None, w')"
proof
  assume "\<exists>w'. cs_Create c key rls w = Some (Ret None, w')"
  then obtain w' where w': "cs_Create c key rls w = Some (Ret None, w')" by blast
  from encode_Inr [OF assms(2,4)] obtain data where
    ch: "chunks = map (chunk_of key) (pieces (nat (cs_ChunkSize c)) data)" by blast
  from w' assms(4) obtain i w1 mk num where
    r: "create_chunks (cs_client c) mk num i (tl chunks) w1 = (None, w')" "chunk_secret mk"
    by (auto simp: cs_Create_def Let_def split: option.splits exit.splits sum.splits prod.splits)
  from secret_store.create_chunks_distinct_data [OF assms(1), of mk num i key
      "tl (pieces (nat (cs_ChunkSize c)) data)" w1 w'] r
  have "distinct (tl (pieces (nat (cs_ChunkSize c)) data))" by (simp add: ch map_tl)
  with assms(5) show False by (simp add: ch map_tl comp_def)
qed

theorem equal_chunks_not_created_witness:
  "\<nexists>w'. cs_Create (small_driver ''XXABAB'' 2 0) ''k'' small_release [] = Some (Ret None, w')"
proof -
  let ?c = "small_driver ''XXABAB'' 2 0"
  have e: "encodeReleaseAsChunks ?c ''k'' small_release
      = Some (Ret (Inr (map (chunk_of ''k'') [''XX'', ''AB'', ''AB''])))"
    by (simp add: encode_pieces [where data = "''XXABAB''"] small_encode pieces.simps)
  from equal_chunks_not_created [OF _ _ _ e, of mem_lookup] mem.secret_store_axioms
  show ?thesis by (simp add: small_codec_ok)
qed

section \<open>Queries\<close>

text \<open>
  A query as a specification: the index secrets of the store that carry the driver's owner and every
  system label asked for, and the releases that have every other label, with Helm's owner translated
  to the driver's.
\<close>

definition query_hits ::
  "'w chunkedSecrets \<Rightarrow> (string \<times> string) list \<Rightarrow> (string \<Rightarrow> secret option) \<Rightarrow> secret \<Rightarrow> bool" where
  "query_hits c q m s \<longleftrightarrow> (\<exists>n. m n = Some s) \<and> s_labels s ''owner'' = Some (cs_owner c)
     \<and> s_labels s ''type'' = Some ''index''
     \<and> (\<forall>(k, v) \<in> set (translate_owner c q). isSystemLabel k \<longrightarrow> s_labels s k = Some v)"

definition has_query_labels :: "'w chunkedSecrets \<Rightarrow> (string \<times> string) list \<Rightarrow> release \<Rightarrow> bool" where
  "has_query_labels c q r \<longleftrightarrow>
     (\<forall>(k, v) \<in> set (translate_owner c q). \<not> isSystemLabel k \<longrightarrow> rel_labels r k = Some v)"

lemma query_hits_selector:
  "query_hits c q m s \<longleftrightarrow> (\<exists>n. m n = Some s)
     \<and> selector_matches (newListIndicesLabelSelector (cs_owner c)
          @ filter (\<lambda>(k, v). isSystemLabel k) (translate_owner c q)) (s_labels s)"
  by (auto simp: query_hits_def selector_matches_def newListIndicesLabelSelector_def list_all_iff)

lemma has_query_labels_selector:
  "has_query_labels c q r \<longleftrightarrow>
     selector_matches (filter (\<lambda>(k, v). \<not> isSystemLabel k) (translate_owner c q)) (rel_labels r)"
  by (auto simp: has_query_labels_def selector_matches_def list_all_iff)

text \<open>C24. A query is answered exactly. When it answers, each result was decoded from an index secret
  that the query hits and has the other labels asked for; every index secret that the query hits was
  decoded, and its release is a result when it has those labels; and there is a result. When it
  reports that no release was found, every index secret that the query hits was decoded and none of
  the releases has the labels.\<close>

theorem query_results_match:
  assumes "secret_store (cs_client c) lookup" and "cs_Query c q w = (res, w')"
  shows "(\<forall>rs. res = Inr rs \<longrightarrow> rs \<noteq> []
      \<and> (\<forall>r \<in> set rs. \<exists>s w1 w2. query_hits c q (lookup w) s \<and> decodeRelease c s w1 = (Inr r, w2)
           \<and> has_query_labels c q r)
      \<and> (\<forall>s. query_hits c q (lookup w) s \<longrightarrow>
           (\<exists>r w1 w2. decodeRelease c s w1 = (Inr r, w2) \<and> (has_query_labels c q r \<longrightarrow> r \<in> set rs))))
    \<and> (res = Inl ErrReleaseNotFound \<longrightarrow>
         (\<forall>s. query_hits c q (lookup w) s \<longrightarrow>
           (\<exists>r w1 w2. decodeRelease c s w1 = (Inr r, w2) \<and> \<not> has_query_labels c q r)))"
proof -
  let ?cl = "filter (\<lambda>(k, v). \<not> isSystemLabel k) (translate_owner c q)"
  let ?sv = "newListIndicesLabelSelector (cs_owner c) @ filter (\<lambda>(k, v). isSystemLabel k) (translate_owner c q)"
  have hits: "s \<in> set items \<longleftrightarrow> query_hits c q (lookup w) s" if "sc_List (cs_client c) ?sv w = (Inr items, w1)" for items w1 s
    using secret_store.list_ok [OF assms(1) that] by (simp add: query_hits_selector)
  show ?thesis
  proof (intro conjI allI impI)
    fix rs
    assume "res = Inr rs"
    with assms(2) obtain items w1 where l: "sc_List (cs_client c) ?sv w = (Inr items, w1)"
      and loop: "query_loop c ?cl items w1 = (Inr rs, w')" and ne: "rs \<noteq> []"
      by (auto simp: cs_Query_def Let_def split: prod.splits sum.splits if_splits)
    show "rs \<noteq> []" by (rule ne)
    show "\<forall>r \<in> set rs. \<exists>s w1 w2. query_hits c q (lookup w) s \<and> decodeRelease c s w1 = (Inr r, w2)
        \<and> has_query_labels c q r"
      using query_loop_results [OF loop] hits [OF l] by (metis has_query_labels_selector)
    show "\<exists>r w1 w2. decodeRelease c s w1 = (Inr r, w2) \<and> (has_query_labels c q r \<longrightarrow> r \<in> set rs)"
      if "query_hits c q (lookup w) s" for s
      using query_loop_complete [OF loop] hits [OF l] that by (metis has_query_labels_selector)
  next
    fix s
    assume "res = Inl ErrReleaseNotFound" and s: "query_hits c q (lookup w) s"
    with assms(2) obtain items w1 where l: "sc_List (cs_client c) ?sv w = (Inr items, w1)"
      and loop: "query_loop c ?cl items w1 = (Inr [], w')"
      using query_loop_not_found [of c ?cl _ _ w']
      by (fastforce simp: cs_Query_def Let_def split: prod.splits sum.splits if_splits)
    show "\<exists>r w1 w2. decodeRelease c s w1 = (Inr r, w2) \<and> \<not> has_query_labels c q r"
      using query_loop_complete [OF loop] hits [OF l] s by (metis has_query_labels_selector empty_iff list.set(1))
  qed
qed

theorem query_results_match_witness:
  "\<exists>rs w'. cs_Query (small_driver ''old'' 2 0) [(''owner'', ''helm''), (''team'', ''a'')] [small_single]
       = (Inr rs, w') \<and> rs \<noteq> [] \<and> (\<forall>r \<in> set rs. rel_labels r ''team'' = Some ''a'')"
proof -
  let ?c = "small_driver ''old'' 2 0"
  let ?q = "[(''owner'', ''helm''), (''team'', ''a'')]"
  have d: "decodeRelease ?c small_single w = (Inr small_release, w)" for w
    by (simp add: decodeRelease_def small_single_def Unmarshal_Marshal stream_release_def
        small_codec_def small_release_def small_labels)
  have q: "cs_Query ?c ?q [small_single] = (Inr [small_release], [small_single])"
    by (simp add: cs_Query_def translate_owner_def isSystemLabel_def systemLabels_def Let_def
        mem_client_def selector_matches_def newListIndicesLabelSelector_def d)
       (simp add: small_single_def small_release_def)
  have store: "secret_store (cs_client ?c) mem_lookup" using mem.secret_store_axioms by simp
  from conjunct1 [OF query_results_match [OF store q], rule_format, OF refl]
  have res: "[small_release] \<noteq> []" "\<forall>r \<in> set [small_release]. has_query_labels ?c ?q r" by blast+
  then have "rel_labels small_release ''team'' = Some ''a''"
    by (simp add: has_query_labels_def translate_owner_def isSystemLabel_def systemLabels_def)
  with q res(1) show ?thesis by auto
qed

section \<open>Names and owner references\<close>

text \<open>The name of a chunk identifies the 64-bit hash of its content: it is thirteen
  letters of the driver's base-32 alphabet, and two contents get the same name exactly when
  their hashes are equal.\<close>

theorem chunk_names:
  "length (hashForData d) = 13 \<and> set (hashForData d) \<subseteq> set base32_alphabet
   \<and> (hashForData d = hashForData d' \<longleftrightarrow> fnv_write fnv_offset d = fnv_write fnv_offset d')"
  using hashForData_shape hashForData_eq_iff by blast

text \<open>The list of chunk names that an index secret stores is read back exactly, whatever
  characters the names contain.\<close>

theorem index_names_round_trip: "UnmarshalNames (MarshalNames names) = Some names"
  by (rule Unmarshal_Marshal)

text \<open>The owner reference client only adds references: it keeps the secret and its
  references, afterwards every owner is referenced, no owner appears twice when none did
  before, and doing it again changes nothing.\<close>

theorem owner_refs_added_once:
  assumes "distinct (map or_uid (s_owner_refs s))"
  shows "(\<exists>more. appendMissingOwnerRefs refs s = s\<lparr>s_owner_refs := s_owner_refs s @ more\<rparr>
         \<and> set more \<subseteq> set refs)
    \<and> or_uid ` set refs \<subseteq> or_uid ` set (s_owner_refs (appendMissingOwnerRefs refs s))
    \<and> distinct (map or_uid (s_owner_refs (appendMissingOwnerRefs refs s)))
    \<and> appendMissingOwnerRefs refs (appendMissingOwnerRefs refs s) = appendMissingOwnerRefs refs s"
proof -
  have all: "or_uid ` set refs \<subseteq> or_uid ` set (s_owner_refs (appendMissingOwnerRefs refs s))"
    by (simp add: appendMissing_uids)
  show ?thesis
    by (intro conjI appendMissingOwnerRefs_frame all appendMissing_distinct [OF assms]
        appendMissing_again [OF all])
qed

theorem owner_refs_added_once_witness:
  "distinct (map or_uid (s_owner_refs (appendMissingOwnerRefs [small_ref, small_ref] small_index)))"
proof -
  have "distinct (map or_uid (s_owner_refs small_index))" by (simp add: small_index_def)
  from owner_refs_added_once [OF this] show ?thesis by blast
qed

end
