(* ===== verification/StatusProps.thy ===== *)
theory StatusProps
  imports Samples "HOL-Library.Multiset"
begin

text \<open>
  The properties of the status conditions and of the updater that applies collected changes.
\<close>

section \<open>Conditions\<close>

text \<open>Setting a condition writes it under its type and leaves every other type alone; its
  transition time is the current time exactly when there was no condition of that type or its
  status was another; and the result tells whether anything but the time differs.\<close>

theorem set_condition:
  "GetCondition (snd (SetCondition now c cs)) t =
     (if t = cond_type c
      then Some (c\<lparr>cond_last_transition :=
        (case GetCondition cs t of
           None \<Rightarrow> now
         | Some d \<Rightarrow> if cond_status d = cond_status c then cond_last_transition d else now)\<rparr>)
      else GetCondition cs t)
   \<and> (fst (SetCondition now c cs) \<longleftrightarrow>
        \<not> (\<exists>d. GetCondition cs (cond_type c) = Some d \<and> cond_agree c d))"
  by (simp add: GetCondition_SetCondition SetCondition_changed transition_time_def)

text \<open>C25. Encoding conditions does not depend on their order: two slices with the same
  conditions, no two of one type, encode to the same JSON.\<close>

theorem marshal_order_irrelevant:
  assumes "conditions_ok cs" and "mset cs = mset cs'"
  shows "MarshalJSON marshal cs = MarshalJSON marshal cs'"
proof -
  have "inj_on cond_type (set cs)" and "distinct cs"
    using assms(1) by (simp_all add: conditions_ok_def distinct_map)
  moreover have "set cs = set cs'" using assms(2) by (metis set_mset_mset)
  moreover have "distinct cs'" using assms(2) \<open>distinct cs\<close> by (metis mset_eq_imp_distinct_iff)
  ultimately have "sort_key cond_type cs = sort_key cond_type cs'"
    using assms(2) by (intro sort_key_inj_key_eq) simp_all
  then show ?thesis by (simp add: MarshalJSON_def)
qed

theorem marshal_order_irrelevant_witness:
  "MarshalJSON (\<lambda>cs. Inr (concat (map cond_type cs))) [Paused ConditionFalse [] (MStr []), Deployed ConditionTrue [] (MStr [])] =
   MarshalJSON (\<lambda>cs. Inr (concat (map cond_type cs))) [Deployed ConditionTrue [] (MStr []), Paused ConditionFalse [] (MStr [])]"
  by (rule marshal_order_irrelevant) (simp_all add: conditions_ok_def condition_ctor_defs)

section \<open>The updater\<close>

text \<open>C26. What the collected changes amount to: the condition of each type is the last one
  collected with that type (its transition time aside), or the stored one if none was
  collected; the deployed release likewise; and no two conditions of the result have one type
  if none of the stored ones had.\<close>

theorem last_write_wins:
  assumes "updateStatusFuncs u = map write_func ws"
    and "conditions_ok (has_conditions (statusFor L obj))"
    and "st = snd (applied_status L u obj s)"
  shows "(case last_cond t ws of
       None \<Rightarrow> GetCondition (has_conditions st) t = GetCondition (has_conditions (statusFor L obj)) t
     | Some c \<Rightarrow> \<exists>d. GetCondition (has_conditions st) t = Some d \<and> cond_agree c d)
   \<and> has_deployed_release st =
       (case last_rel ws of None \<Rightarrow> has_deployed_release (statusFor L obj) | Some r \<Rightarrow> helmAppReleaseFor r)
   \<and> conditions_ok (has_conditions st)"
  unfolding assms(3) applied_status_def assms(1)
  by (intro conjI run_writes_condition run_writes_release run_writes_ok assms(2))

theorem last_write_wins_witness:
  "\<exists>d. GetCondition (has_conditions (snd (applied_status sample_lib
        (UpdateStatus [EnsureCondition (Paused ConditionTrue [] (MStr [])),
                       EnsureCondition (Paused ConditionFalse [] (MStr []))] New_updater)
        sample_object (start sample_object None)))) TypePaused = Some d \<and> IsFalse d"
proof -
  have "conditions_ok (has_conditions (statusFor sample_lib sample_object))"
    by (simp add: statusFor_def sample_defs new_object_def empty_status_def conditions_ok_def)
  from last_write_wins [where ws = "[WCond (Paused ConditionTrue [] (MStr [])),
      WCond (Paused ConditionFalse [] (MStr []))]" and t = TypePaused and s = "start sample_object None"
      and u = "UpdateStatus [EnsureCondition (Paused ConditionTrue [] (MStr [])),
                 EnsureCondition (Paused ConditionFalse [] (MStr []))] New_updater", OF _ this refl]
  show ?thesis by (auto simp: cond_agree_def IsFalse_def condition_ctor_defs)
qed

text \<open>C27. The status goes first: when the status needs an update, the object itself is written
  only after the status update has been made and has returned without error; and when the
  status update fails, its error is the result and the object is not written.\<close>

theorem status_before_object:
  assumes "\<not> isCanceled u" and "fst (applied_status L u obj s)"
    and "Apply C L u obj s = ((err, obj'), s')" and "calls s' = calls s @ es"
  shows "(EvUpdateCR \<in> set es \<longrightarrow> es = [EvStatusUpdate, EvUpdateCR]
       \<and> (\<exists>obj1 s1. apply_status C L (snd (applied_status L u obj s)) obj s = ((None, obj1), s1)))
    \<and> (\<forall>e obj1 s1. apply_status C L (snd (applied_status L u obj s)) obj s = ((Some e, obj1), s1)
         \<longrightarrow> err = Some e \<and> EvUpdateCR \<notin> set es)"
proof -
  obtain serr obj1 s1 where
    st: "apply_status C L (snd (applied_status L u obj s)) obj s = ((serr, obj1), s1)"
    by (metis surj_pair)
  from apply_status_calls [OF st] have c1: "calls s1 = calls s \<or> calls s1 = calls s @ [EvStatusUpdate]" .
  show ?thesis
  proof (cases serr)
    case (Some e)
    with Apply_status_error [OF assms(1,2)] st assms(3) have "err = Some e" "s' = s1" by simp_all
    with c1 assms(4) st Some show ?thesis by auto
  next
    case None
    with st have c2: "calls s1 = calls s @ [EvStatusUpdate]"
      by (cases rule: apply_status_cases) auto
    from None Apply_status_written [OF assms(1,2)] st assms(3)
    have "apply_object C L (updateFuncs u) obj1 s1 = ((err, obj'), s')" by simp
    from apply_object_calls [OF this] c2 assms(4) st None show ?thesis
      by (auto split: if_splits)
  qed
qed

theorem status_before_object_witness:
  "\<exists>r s'. Apply sample_client sample_lib
        (Update [RemoveFinalizer (sample_lib :: cluster kube_lib) uninstallFinalizer]
          (UpdateStatus [EnsureCondition (Paused ConditionFalse [] (MStr []))] New_updater))
        protected_object (start protected_object None) = (r, s')
     \<and> calls s' = [EvStatusUpdate, EvUpdateCR]"
proof -
  let ?u = "Update [RemoveFinalizer (sample_lib :: cluster kube_lib) uninstallFinalizer]
          (UpdateStatus [EnsureCondition (Paused ConditionFalse [] (MStr []))] New_updater)"
  let ?s = "start protected_object None"
  obtain err obj' s' where a: "Apply sample_client sample_lib ?u protected_object ?s = ((err, obj'), s')"
    by (metis surj_pair)
  have f: "fst (applied_status sample_lib ?u protected_object ?s)"
    by (simp add: applied_status_def EnsureCondition_def statusFor_def sample_defs new_object_def
        empty_status_def SetCondition_def)
  have "EvUpdateCR \<in> set (calls (snd (Apply sample_client sample_lib ?u protected_object ?s)))"
    by code_simp
  with status_before_object [OF _ f a, of "calls s'"] a show ?thesis by (simp add: start_def)
qed

text \<open>A status update that meets a conflict, or a resource that is gone, is not tried again:
  \<open>Apply\<close> returns that error after one call.\<close>

theorem conflict_not_retried:
  assumes "lib_ok L" and "\<not> isCanceled u" and "fst (applied_status L u obj s)"
    and "lib_ToUnstructured L (snd (applied_status L u obj s)) = Inr m"
    and "kc_status_update C (obj\<lparr>u_status := StMap m\<rparr>, world s) = (Some e, obj', w')"
    and "IsConflict e \<or> IsNotFound e"
  shows "Apply C L u obj s = ((Some e, obj'), s\<lparr>world := w', calls := calls s @ [EvStatusUpdate]\<rparr>)"
proof -
  have "retryOnRetryableUpdateError L (kc_status_update C) (obj\<lparr>u_status := StMap m\<rparr>, world s)
      = (Some e, obj', w')"
    unfolding retryOnRetryableUpdateError_def
    by (rule retry_not_retried [where f = "kc_status_update C" and s = "(obj\<lparr>u_status := StMap m\<rparr>, world s)",
          OF lib_okD(1) [OF assms(1)] assms(5)])
       (use assms(6) in \<open>auto simp: isRetryableUpdateError_def\<close>)
  with assms(4) have "apply_status C L (snd (applied_status L u obj s)) obj s
      = ((Some e, obj'), s\<lparr>world := w', calls := calls s @ [EvStatusUpdate]\<rparr>)"
    by (simp add: apply_status_def retried_def call_def)
  with Apply_status_error [OF assms(2,3)] show ?thesis by simp
qed

theorem conflict_not_retried_witness:
  "\<exists>s'. Apply (sample_client\<lparr>kc_status_update := (\<lambda>(obj, w). (Some (ErrApi Conflict ''stale''), obj, w))\<rparr>)
       sample_lib (UpdateStatus [EnsureDeployedRelease (Some installed)] New_updater)
       sample_object (start sample_object None)
     = ((Some (ErrApi Conflict ''stale''), sample_object\<lparr>u_status := StMap (status_json
          (empty_status\<lparr>has_deployed_release := helmAppReleaseFor (Some installed)\<rparr>))\<rparr>), s')
     \<and> calls s' = [EvStatusUpdate]"
proof -
  let ?C = "sample_client\<lparr>kc_status_update := (\<lambda>(obj, w). (Some (ErrApi Conflict ''stale''), obj, w))\<rparr>"
  let ?u = "UpdateStatus [EnsureDeployedRelease (Some installed)] New_updater"
  let ?s = "start sample_object None"
  have a: "applied_status sample_lib ?u sample_object ?s
      = (True, empty_status\<lparr>has_deployed_release := helmAppReleaseFor (Some installed)\<rparr>)"
    by (simp add: applied_status_def EnsureDeployedRelease_def statusFor_def sample_defs new_object_def
        empty_status_def helmAppReleaseFor_def Let_def)
  have t: "lib_ToUnstructured sample_lib st = Inr (status_json st)" for st
    by (simp add: sample_lib_def)
  have k: "kc_status_update ?C (sample_object\<lparr>u_status := StMap m\<rparr>, world ?s)
      = (Some (ErrApi Conflict ''stale''), sample_object\<lparr>u_status := StMap m\<rparr>, world ?s)" for m
    by simp
  from conflict_not_retried [OF sample_lib_ok _ _ t k, of ?u] have
    "Apply ?C sample_lib ?u sample_object ?s = ((Some (ErrApi Conflict ''stale''),
       sample_object\<lparr>u_status := StMap (status_json
          (empty_status\<lparr>has_deployed_release := helmAppReleaseFor (Some installed)\<rparr>))\<rparr>),
       ?s\<lparr>world := world ?s, calls := calls ?s @ [EvStatusUpdate]\<rparr>)"
    by (simp add: a)
  then show ?thesis by (simp add: start_def)
qed



end
