(* ===== verification/ClientProps.thy ===== *)
theory ClientProps
  imports Reconcile "HOL-Library.Multiset"
begin

text \<open>
  The properties of the action client and of the post-renderer it installs, and of the
  annotations that configure single actions.
\<close>

section \<open>A Helm library to run on\<close>

text \<open>
  The world is a counter of the calls; every operation fails but the rollback, and a failing
  install or upgrade still returns a release. The manifest builder knows one object, which the
  cluster does not have.
\<close>

definition sample_rel :: release where
  "sample_rel =
     \<lparr>rel_name = ''web'', rel_namespace = ''prod'', rel_version = 1, rel_manifest = [], rel_info = None,
      rel_labels = Map.empty, rel_rest = JNull\<rparr>"

definition sample_install_action :: "'w install_action" where
  "sample_install_action =
     \<lparr>ia_release_name = [], ia_namespace = [], ia_disable_hooks = False, ia_description = [],
      ia_post_renderer = None\<rparr>"

definition base_upgrade_action :: "'w upgrade_action" where
  "base_upgrade_action =
     \<lparr>ua_namespace = [], ua_disable_hooks = False, ua_force = False, ua_description = [],
      ua_max_history = 3, ua_dry_run = False, ua_dry_run_option = [], ua_post_renderer = None\<rparr>"

definition sample_info :: resource_info where
  "sample_info = \<lparr>in_namespace = ''prod'', in_name = ''svc'', in_object = JNull\<rparr>"

definition sample_helm :: "nat helm" where
  "sample_helm =
     \<lparr>helm_NewGet = \<lparr>ga_version = 0\<rparr>, helm_NewHistory = \<lparr>hia_max = 0\<rparr>,
      helm_NewInstall = sample_install_action, helm_NewUpgrade = base_upgrade_action,
      helm_NewUninstall = \<lparr>una_disable_hooks = False, una_description = []\<rparr>,
      helm_NewRollback = \<lparr>ra_force = False, ra_max_history = 0\<rparr>,
      helm_Get = (\<lambda>g n w. ((None, Some ErrReleaseNotFound), Suc w)),
      helm_History = (\<lambda>h n w. (([], None), Suc w)),
      helm_Install = (\<lambda>i c v w. ((Some sample_rel, Some (ErrMsg ''boom'')), Suc w)),
      helm_Upgrade = (\<lambda>u n c v w. ((Some sample_rel, Some (ErrMsg ''boom'')), Suc w)),
      helm_Uninstall = (\<lambda>u n w. ((None, Some (ErrMsg ''stuck'')), Suc w)),
      helm_Rollback = (\<lambda>r n w. (None, Suc w)), helm_SortByRevision = (\<lambda>rs. rs),
      helm_Build = (\<lambda>m w. (Inr [(sample_info, None)], w)),
      helm_ObjGet = (\<lambda>i w. (Inl (ErrApi NotFound ''not found''), w)),
      helm_ObjCreate = (\<lambda>i w. (None, Suc w)),
      helm_ObjPatch = (\<lambda>i t p w. (None, Suc w))\<rparr>"

definition sample_ac :: "nat actionClient" where
  "sample_ac =
     \<lparr>conf = sample_helm, defaultGetOpts = [], defaultHistoryOpts = [], defaultInstallOpts = [],
      defaultUpgradeOpts = [], defaultUninstallOpts = [], enableFailureRollbacks = True,
      installFailureUninstallOpts = [], upgradeFailureRollbackOpts = []\<rparr>"

definition sample_remove :: json_patch_op where
  "sample_remove = \<lparr>op_operation = ''remove'', op_path = ''/spec/replicas'', op_value = None\<rparr>"

definition sample_patch_lib :: patch_lib where
  "sample_patch_lib =
     \<lparr>pt_Marshal = (\<lambda>j. Inr []), pt_AsVersioned = (\<lambda>i. VUnstructured),
      pt_CreatePatch = (\<lambda>x y. Inr [sample_remove]), pt_MarshalOps = (\<lambda>ops. Inr ''patch''),
      pt_NewPatchMeta = (\<lambda>i. None), pt_ThreeWayMerge = (\<lambda>a b c i. Inr ''{}'')\<rparr>"

definition kept_object :: unstructured where
  "kept_object = (new_object \<lparr>gvk_group = [], gvk_version = ''v1'', gvk_kind = ''Service''\<rparr>)
     \<lparr>u_annotations := [ResourcePolicyAnno \<mapsto> ''keep'']\<rparr>"

definition sample_pr_lib :: pr_lib where
  "sample_pr_lib =
     \<lparr>pl_ToUnstructured = (\<lambda>j. Inr kept_object),
      pl_NewControllerRef = (\<lambda>o1 g. \<lparr>or_api_version = gvk_version g, or_kind = gvk_kind g,
         or_name = u_name o1, or_uid = u_uid o1, or_controller = Some True,
         or_block_owner_deletion = Some True\<rparr>),
      pl_SetOwnerAnnotations = (\<lambda>o1 u. Inr u), pl_YamlMarshal = (\<lambda>u. Inr ''doc'')\<rparr>"

definition sample_chart :: chart where
  "sample_chart = \<lparr>ch_name = ''nginx'', ch_content = JNull\<rparr>"

section \<open>Failures of Helm\<close>

text \<open>C29. A failed install is never mistaken for a success and its error is never lost: the
  client returns the error of Helm, alone or wrapped behind the error of the clean-up; it runs the
  uninstall exactly when failure rollbacks are enabled and Helm returned a release; and it still
  hands out that release unless the clean-up itself failed.\<close>

theorem install_failure:
  assumes "run_options (concat_opts (defaultInstallOpts c) opts) (helm_NewInstall (conf c)) = Inr i"
    and "helm_Install (conf c) (i\<lparr>ia_release_name := name, ia_namespace := namespace\<rparr>) chrt v w
           = ((rel, Some err), w1)"
    and "client_uninstall c name (installFailureUninstallOpts c) w1 = ((resp, uerr), w2)"
    and "client_Install c name namespace chrt v opts w = ((rel', err'), w')"
  shows "(if enableFailureRollbacks c \<and> rel \<noteq> None then w' = w2 else w' = w1)
    \<and> (err' = Some err \<and> rel' = rel
       \<or> (\<exists>m ue. err' = Some (ErrWrap m err) \<and> rel' = None
            \<and> uerr = Some ue \<and> \<not> errors_Is ue ErrReleaseNotFound
            \<and> enableFailureRollbacks c \<and> rel \<noteq> None))"
  using assms(4)
  by (cases uerr; cases rel)
     (auto simp: client_Install_def assms(1-3) Let_def split: if_splits)

theorem install_failure_witness:
  "client_Install sample_ac ''web'' ''prod'' sample_chart [] [] 0
     = ((None, Some (ErrWrap ''uninstall failed: stuck: original install error: '' (ErrMsg ''boom''))), 2)"
proof -
  obtain rel' err' w' where r: "client_Install sample_ac ''web'' ''prod'' sample_chart [] [] 0
      = ((rel', err'), w')" by (metis surj_pair)
  from install_failure [OF _ _ _ r, of sample_install_action "Some sample_rel" "ErrMsg ''boom''" 1 None
      "Some (ErrMsg ''stuck'')" 2] r
  have "w' = 2"
    by (simp add: sample_ac_def sample_helm_def concat_opts_def client_uninstall_def)
  with r show ?thesis
    by (simp add: sample_ac_def sample_helm_def concat_opts_def client_uninstall_def client_Install_def)
qed

text \<open>C30. A failed upgrade is rolled back exactly when failure rollbacks are enabled and Helm
  returned a release: the rollback is forced and keeps the history limit of the upgrade, before
  the configured options; and the error of the upgrade is returned, alone or wrapped.\<close>

theorem upgrade_failure:
  assumes "run_options (concat_opts (defaultUpgradeOpts c) opts) (helm_NewUpgrade (conf c)) = Inr u"
    and "helm_Upgrade (conf c) (u\<lparr>ua_namespace := namespace\<rparr>) name chrt v w = ((rel, Some err), w1)"
    and "client_Upgrade c name namespace chrt v opts w = ((rel', err'), w')"
    and "run_options (upgradeFailureRollbackOpts c)
           ((helm_NewRollback (conf c))\<lparr>ra_force := True, ra_max_history := ua_max_history u\<rparr>) = Inr rb"
  shows "if enableFailureRollbacks c \<and> rel \<noteq> None
    then (case helm_Rollback (conf c) rb name w1 of
            (Some re, w2) \<Rightarrow> w' = w2 \<and> rel' = None
              \<and> err' = Some (ErrWrap (''rollback failed: '' @ error_text re @ '': original upgrade error: '') err)
          | (None, w2) \<Rightarrow> w' = w2 \<and> rel' = rel \<and> err' = Some err)
    else w' = w1 \<and> rel' = rel \<and> err' = Some err"
  using assms(3)
  by (auto simp: client_Upgrade_def assms(1,2,4) client_rollback_def Let_def
      split: if_splits prod.splits option.splits)

theorem upgrade_failure_witness:
  "client_Upgrade sample_ac ''web'' ''prod'' sample_chart [] [] 0
     = ((Some sample_rel, Some (ErrMsg ''boom'')), 2)"
proof -
  obtain rel' err' w' where r: "client_Upgrade sample_ac ''web'' ''prod'' sample_chart [] [] 0
      = ((rel', err'), w')" by (metis surj_pair)
  from upgrade_failure [OF _ _ r, of base_upgrade_action "Some sample_rel" "ErrMsg ''boom''" 1
      "\<lparr>ra_force = True, ra_max_history = 3\<rparr>"] r
  show ?thesis
    by (simp add: sample_ac_def sample_helm_def concat_opts_def base_upgrade_action_def)
qed

text \<open>Installs and upgrades go where the caller says: no default option, given option or
  annotation can redirect them, since replacing what Helm does with any other release name or
  namespace changes nothing.\<close>

theorem name_and_namespace_forced:
  "client_Install c name namespace chrt v opts w =
     client_Install (c\<lparr>conf := (conf c)\<lparr>helm_Install := (\<lambda>i.
        if ia_release_name i = name \<and> ia_namespace i = namespace then helm_Install (conf c) i
        else other i)\<rparr>\<rparr>) name namespace chrt v opts w
   \<and> client_Upgrade c name namespace chrt v uopts w =
     client_Upgrade (c\<lparr>conf := (conf c)\<lparr>helm_Upgrade := (\<lambda>u n.
        if n = name \<and> ua_namespace u = namespace then helm_Upgrade (conf c) u n
        else other' u n)\<rparr>\<rparr>) name namespace chrt v uopts w"
proof -
  let ?ci = "c\<lparr>conf := (conf c)\<lparr>helm_Install := (\<lambda>i.
        if ia_release_name i = name \<and> ia_namespace i = namespace then helm_Install (conf c) i
        else other i)\<rparr>\<rparr>"
  let ?cu = "c\<lparr>conf := (conf c)\<lparr>helm_Upgrade := (\<lambda>u n.
        if n = name \<and> ua_namespace u = namespace then helm_Upgrade (conf c) u n
        else other' u n)\<rparr>\<rparr>"
  have un: "client_uninstall ?ci = client_uninstall c"
    by (simp add: client_uninstall_def fun_eq_iff split: sum.splits)
  have roll: "client_rollback ?cu = client_rollback c"
    by (simp add: client_rollback_def fun_eq_iff split: sum.splits)
  have "client_Install c name namespace chrt v opts w = client_Install ?ci name namespace chrt v opts w"
    by (auto simp: client_Install_def Let_def un split: sum.split prod.split option.split)
  moreover have "client_Upgrade c name namespace chrt v uopts w = client_Upgrade ?cu name namespace chrt v uopts w"
    by (auto simp: client_Upgrade_def Let_def roll split: sum.split prod.split option.split)
  ultimately show ?thesis ..
qed

section \<open>Reconciling objects\<close>

text \<open>The JSON patch for an object without a strategic merge is conservative: a patch that is
  sent contains at least one operation, removes nothing and adds no null; and nothing is sent
  exactly when every operation of the full patch is of those kinds.\<close>

theorem merge_patch_conservative:
  assumes "pt_CreatePatch PL existing expected = Inr ops"
  shows "(createJSONMergePatch PL existing expected = Inr None \<longleftrightarrow>
       (\<forall>p \<in> set ops. op_operation p = ''remove'' \<or> op_operation p = ''add'' \<and> op_value p = None))
    \<and> (\<forall>patch. createJSONMergePatch PL existing expected = Inr (Some patch) \<longrightarrow>
         (\<exists>sent. pt_MarshalOps PL sent = Inr patch \<and> sent \<noteq> [] \<and> set sent \<subseteq> set ops
            \<and> (\<forall>p \<in> set sent. op_operation p \<noteq> ''remove''
                 \<and> \<not> (op_operation p = ''add'' \<and> op_value p = None))))"
proof -
  let ?sent = "filter keep_patch_op ops"
  have keep: "keep_patch_op p \<longleftrightarrow> op_operation p \<noteq> ''remove''
      \<and> \<not> (op_operation p = ''add'' \<and> op_value p = None)" for p
    by (simp add: keep_patch_op_def)
  have "createJSONMergePatch PL existing expected = Inr None \<longleftrightarrow> ?sent = []"
    using assms by (auto simp: createJSONMergePatch_def Let_def split: sum.splits)
  moreover have "pt_MarshalOps PL ?sent = Inr patch \<and> ?sent \<noteq> []"
    if "createJSONMergePatch PL existing expected = Inr (Some patch)" for patch
    using that assms by (auto simp: createJSONMergePatch_def Let_def split: sum.splits if_splits)
  ultimately show ?thesis
    unfolding keep [symmetric] using keep by (fastforce simp: filter_empty_conv)
qed

theorem merge_patch_conservative_witness:
  "createJSONMergePatch sample_patch_lib [] [] = Inr None"
  using merge_patch_conservative [of sample_patch_lib "[]" "[]" "[sample_remove]"]
  by (simp add: sample_patch_lib_def sample_remove_def)

section \<open>Post-rendering\<close>

text \<open>Appending a post-renderer to a configured one runs both, the new one last: the result
  is what the new one makes of the other's output, and fails when either does, whether or not
  the configured one is a chain already.\<close>

theorem appended_renderer_runs_last:
  "run_post_renderer tn (appendPostRenderer (Some pr) extra) b w = (Inr b2, w2) \<longleftrightarrow>
     (\<exists>b1 w1. run_post_renderer tn pr b w = (Inr b1, w1)
        \<and> run_post_renderer tn extra b1 w1 = (Inr b2, w2))"
  by (rule appendPostRenderer_run)

text \<open>Which mark of ownership an object gets: an owner reference (after those it has) when
  the owner is cluster-scoped, or both are namespaced in one namespace, and the object does not
  carry the keep policy; the owner annotations in every other case.\<close>

theorem owner_mark_rule:
  assumes "rm (u_gvk owner) = Inr so" and "rm (u_gvk u) = Inr sd"
  shows "mark_owner P rm owner u =
    (if (so = RootScope \<or> sd = NamespaceScope \<and> u_namespace owner = u_namespace u)
        \<and> \<not> HasResourcePolicyKeep (Some (u_annotations u))
     then Inr (u\<lparr>u_owner_refs := u_owner_refs u @ [pl_NewControllerRef P owner (u_gvk owner)]\<rparr>)
     else pl_SetOwnerAnnotations P owner u)"
  by (simp add: mark_owner_def SupportsOwnerReference_iff [OF assms])

theorem owner_mark_rule_witness:
  "mark_owner sample_pr_lib (\<lambda>g. Inr NamespaceScope) kept_object kept_object = Inr kept_object"
  using owner_mark_rule [of "\<lambda>g. Inr NamespaceScope" kept_object NamespaceScope kept_object NamespaceScope
      sample_pr_lib]
  by (simp add: HasResourcePolicyKeep_def kept_object_def TrimSpace_def isSpace_def ToLower_def
      lower_char_def sample_pr_lib_def)

text \<open>C31. The default post-renderer loses and reorders nothing: when it succeeds, its output is
  one document for each object that the builder found in the manifest, in their order, each
  the YAML of the marked object.\<close>

theorem rendered_documents:
  assumes "ownerPostRenderer_Run P rm h owner b w = (Inr out, w')"
  shows "\<exists>objs ds. helm_Build h b w = (Inr objs, w') \<and> marked_documents P rm owner objs ds
     \<and> length ds = length objs \<and> out = concat (map (\<lambda>d. ''---'' @ [CHR 0x0A] @ d) ds)"
proof -
  from assms obtain objs where b: "helm_Build h b w = (Inr objs, w')"
    and v: "ownerPostRenderer_visit P rm owner objs [] = Inr out"
    by (auto simp: ownerPostRenderer_Run_def split: prod.splits sum.splits)
  from visit_documents [OF v] obtain ds where d: "marked_documents P rm owner objs ds"
    "out = concat (map (\<lambda>d. ''---'' @ [CHR 0x0A] @ d) ds)" by auto
  have "length ds = length objs" if "marked_documents P rm owner objs ds" for objs ds
    using that by (induction P rm owner objs ds rule: marked_documents.induct) auto
  with b d show ?thesis by blast
qed

theorem rendered_documents_witness:
  "\<exists>out. ownerPostRenderer_Run sample_pr_lib (\<lambda>g. Inr NamespaceScope) sample_helm kept_object [] 0 = (Inr out, 0)
     \<and> out = ''---'' @ [CHR 0x0A] @ ''doc''"
proof -
  have m: "mark_owner sample_pr_lib (\<lambda>g. Inr NamespaceScope) kept_object kept_object = Inr kept_object"
    by (simp add: mark_owner_def SupportsOwnerReference_def HasResourcePolicyKeep_def kept_object_def
        TrimSpace_def isSpace_def ToLower_def lower_char_def sample_pr_lib_def)
  have r: "ownerPostRenderer_Run sample_pr_lib (\<lambda>g. Inr NamespaceScope) sample_helm kept_object [] 0
      = (Inr (''---'' @ [CHR 0x0A] @ ''doc''), 0)"
    using m by (simp add: ownerPostRenderer_Run_def sample_helm_def sample_info_def)
       (simp add: sample_pr_lib_def)
  from rendered_documents [OF r] r show ?thesis by blast
qed

section \<open>Annotations\<close>

text \<open>
  Options from annotations that always succeed and that commute give the same action in any
  order.
\<close>

definition annotated :: "('a \<Rightarrow> string \<Rightarrow> 'b \<Rightarrow> go_error + 'b) \<Rightarrow> unstructured \<Rightarrow> string \<times> 'a \<Rightarrow> 'b \<Rightarrow> 'b" where
  "annotated mk obj na x =
     (case u_annotations obj (fst na) of None \<Rightarrow> x | Some v \<Rightarrow> projr (mk (snd na) v x))"

lemma run_annotation_options:
  assumes "\<forall>(n, a) \<in> set annots. \<forall>v x. \<exists>y. mk a v x = Inr y"
  shows "run_options (annotation_options mk annots obj) x = Inr (fold (annotated mk obj) annots x)"
  using assms
proof (induction annots arbitrary: x)
  case Nil
  then show ?case by (simp add: annotation_options_def)
next
  case (Cons na annots)
  obtain n a where na: "na = (n, a)" by fastforce
  show ?case
  proof (cases "u_annotations obj n")
    case None
    with Cons na show ?thesis by (simp add: annotation_options_def annotated_def)
  next
    case (Some v)
    from Cons.prems na have "\<exists>y. mk a v x = Inr y" by simp
    then obtain y where "mk a v x = Inr y" by blast
    with Cons Some na show ?thesis by (simp add: annotation_options_def annotated_def)
  qed
qed

lemma annotation_order:
  assumes "\<forall>(n, a) \<in> set annots. \<forall>v x. \<exists>y. mk a v x = Inr y"
    and "\<forall>p \<in> set annots. \<forall>q \<in> set annots. p \<noteq> q \<longrightarrow>
           (\<forall>v w x. projr (mk (snd p) v (projr (mk (snd q) w x))) = projr (mk (snd q) w (projr (mk (snd p) v x))))"
    and "mset annots' = mset annots"
  shows "run_options (annotation_options mk annots' obj) x = run_options (annotation_options mk annots obj) x"
proof -
  have s: "set annots' = set annots" using assms(3) by (rule mset_eq_setD)
  have "fold (annotated mk obj) annots = fold (annotated mk obj) annots'"
  proof (rule fold_multiset_equiv)
    fix p q
    assume pq: "p \<in> set annots" "q \<in> set annots"
    show "annotated mk obj p \<circ> annotated mk obj q = annotated mk obj q \<circ> annotated mk obj p"
    proof (cases "p = q")
      case False
      with pq assms(2) show ?thesis by (auto simp: fun_eq_iff annotated_def split: option.split)
    qed simp
  qed (simp add: assms(3))
  with run_annotation_options [of annots' mk obj x] run_annotation_options [of annots mk obj x] assms(1) s
  show ?thesis by simp
qed

text \<open>The order in which Go iterates over the default annotations does not matter: every
  order of the default upgrade annotations makes the same upgrade action out of a resource.\<close>

theorem default_annotations_commute:
  assumes "mset annots = mset (map (\<lambda>a. (up_Name a, a)) DefaultUpgradeAnnotations)"
  shows "run_options (annotation_options up_UpgradeOption annots obj) u =
     run_options (annotation_options up_UpgradeOption
        (map (\<lambda>a. (up_Name a, a)) DefaultUpgradeAnnotations) obj) u"
  by (rule annotation_order [OF _ _ assms])
     (auto simp: DefaultUpgradeAnnotations_def annotation_defs)

theorem default_annotations_commute_witness:
  "run_options (annotation_options up_UpgradeOption
        (rev (map (\<lambda>a. (up_Name a, a)) DefaultUpgradeAnnotations)) kept_object) base_upgrade_action =
   run_options (annotation_options up_UpgradeOption
        (map (\<lambda>a. (up_Name a, a)) DefaultUpgradeAnnotations) kept_object) base_upgrade_action"
  by (rule default_annotations_commute) simp

end
