(* ===== verification/Predicates.thy ===== *)
theory Predicates
  imports KubeApi
begin

text \<open>
  \<open>pkg/internal/predicate/predicates.go\<close>: which events of a dependent object trigger a
  reconcile of its owner. Equality of \<open>unstructured\<close> records stands for
  \<open>reflect.DeepEqual\<close> of the two \<open>Object\<close> maps.
\<close>

datatype dependent_event =
    CreateEvent unstructured
  | DeleteEvent unstructured
  | GenericEvent unstructured
  | UpdateEvent unstructured unstructured

definition isStatusSubresource :: "managed_field \<Rightarrow> bool" where
  "isStatusSubresource f \<longleftrightarrow> mf_subresource f = ''status''"

text \<open>
  \<open>SetManagedFields\<close> removes the field for a nil slice and writes an empty list for an
  empty one; \<open>slices.DeleteFunc\<close> keeps nil nil.
\<close>

definition removeStatusManagedField :: "unstructured \<Rightarrow> unstructured" where
  "removeStatusManagedField obj =
     obj\<lparr>u_managed_fields := map_option (filter (\<lambda>f. \<not> isStatusSubresource f)) (u_managed_fields obj)\<rparr>"

text \<open>The copy of an object that the update predicate compares.\<close>

definition comparable :: "unstructured \<Rightarrow> unstructured" where
  "comparable obj = removeStatusManagedField (obj\<lparr>u_status := StAbsent, u_resource_version := []\<rparr>)"

fun DependentPredicateFuncs :: "dependent_event \<Rightarrow> bool" where
  "DependentPredicateFuncs (CreateEvent _) = False"
| "DependentPredicateFuncs (DeleteEvent _) = True"
| "DependentPredicateFuncs (GenericEvent _) = False"
| "DependentPredicateFuncs (UpdateEvent old updated) \<longleftrightarrow> comparable old \<noteq> comparable updated"

lemma comparable_fields [simp]:
  "u_gvk (comparable obj) = u_gvk obj" "u_name (comparable obj) = u_name obj"
  "u_namespace (comparable obj) = u_namespace obj" "u_uid (comparable obj) = u_uid obj"
  "u_annotations (comparable obj) = u_annotations obj" "u_finalizers (comparable obj) = u_finalizers obj"
  "u_deletion_timestamp (comparable obj) = u_deletion_timestamp obj"
  "u_owner_refs (comparable obj) = u_owner_refs obj" "u_spec (comparable obj) = u_spec obj"
  "u_body (comparable obj) = u_body obj"
  "u_status (comparable obj) = StAbsent" "u_resource_version (comparable obj) = []"
  "u_managed_fields (comparable obj) =
     map_option (filter (\<lambda>f. \<not> isStatusSubresource f)) (u_managed_fields obj)"
  by (simp_all add: comparable_def removeStatusManagedField_def)

text \<open>What a write through the status subresource changes.\<close>

definition status_write_of :: "unstructured \<Rightarrow> unstructured \<Rightarrow> bool" where
  "status_write_of old updated \<longleftrightarrow>
     (\<exists>st rv mf. updated = old\<lparr>u_status := st, u_resource_version := rv, u_managed_fields := Some mf\<rparr>
        \<and> u_managed_fields old \<noteq> None
        \<and> filter (\<lambda>f. \<not> isStatusSubresource f) mf
          = filter (\<lambda>f. \<not> isStatusSubresource f) (the (u_managed_fields old)))"

lemma status_write_ignored:
  "status_write_of old updated \<Longrightarrow> \<not> DependentPredicateFuncs (UpdateEvent old updated)"
  by (auto simp: status_write_of_def comparable_def removeStatusManagedField_def)

end
