(* ===== verification/DependentWatcher.thy ===== *)
theory DependentWatcher
  imports Predicates Controllerutil
begin

text \<open>
  \<open>pkg/reconciler/internal/hook/hook.go\<close>: the post-hook that makes the controller watch
  the kinds of the objects in a release. The controller, the RESTMapper, Helm's splitting of
  a manifest, YAML and the items of a list object are parameters. Its state is the map of kinds
  that are watched already, a set here; the mutex that guards it is left out.
\<close>

section \<open>Sources of events\<close>

record label_selector =
  ls_match_labels :: "(string \<times> string) list"
  ls_match_expressions :: "(string \<times> string \<times> string list) list"

text \<open>
  The handlers that turn an event into requests: for the object itself, for its controlling
  owner of a type, or for the resource of a group and kind named in its annotations.
\<close>

datatype watch_handler =
    EnqueueRequestForObject
  | EnqueueRequestForOwner gvk
  | EnqueueRequestForAnnotation string string

datatype watch_predicate =
    LabelSelectorPredicate label_selector
  | DependentPredicate

record watch_source =
  ws_gvk :: gvk
  ws_handler :: watch_handler
  ws_predicates :: "watch_predicate list"

text \<open>\<open>controller.Controller\<close>, the part that is used.\<close>

record 'w controller =
  ctl_Watch :: "watch_source \<Rightarrow> 'w \<Rightarrow> go_error option \<times> 'w"

text \<open>The documents of a manifest come in the order in which Go iterates over their map.\<close>

record manifest_lib =
  ml_SplitManifests :: "string \<Rightarrow> string list"
  ml_Unmarshal :: "string \<Rightarrow> go_error + unstructured"
  ml_items :: "unstructured \<Rightarrow> (go_error + unstructured) list"

section \<open>The watcher\<close>

record 'w dependentResourceWatcher =
  dw_controller :: "'w controller"
  dw_restMapper :: "gvk \<Rightarrow> go_error + rest_scope"
  dw_lib :: manifest_lib

definition NewDependentResourceWatcher ::
  "'w controller \<Rightarrow> (gvk \<Rightarrow> go_error + rest_scope) \<Rightarrow> manifest_lib
     \<Rightarrow> 'w dependentResourceWatcher \<times> gvk set" where
  "NewDependentResourceWatcher c rm M =
     (\<lparr>dw_controller = c, dw_restMapper = rm, dw_lib = M\<rparr>, {})"

definition dependent_source :: "unstructured \<Rightarrow> unstructured \<Rightarrow> bool \<Rightarrow> watch_source" where
  "dependent_source owner dependent useOwnerRef =
     \<lparr>ws_gvk = u_gvk dependent,
      ws_handler =
        (if useOwnerRef \<and> \<not> HasResourcePolicyKeep (Some (u_annotations dependent))
         then EnqueueRequestForOwner (u_gvk owner)
         else EnqueueRequestForAnnotation (gvk_group (u_gvk owner)) (gvk_kind (u_gvk owner))),
      ws_predicates = [DependentPredicate]\<rparr>"

text \<open>
  The closure of \<open>Exec\<close>: \<open>depGVK\<close> is the kind of the document, not of the dependent.
\<close>

definition setWatchOnResource ::
  "'w dependentResourceWatcher \<Rightarrow> unstructured \<Rightarrow> gvk \<Rightarrow> unstructured \<Rightarrow> gvk set \<times> 'w
     \<Rightarrow> go_error option \<times> gvk set \<times> 'w" where
  "setWatchOnResource d owner depGVK dependent s =
     (if gvk_empty (u_gvk dependent) then (None, s)
      else if u_gvk dependent \<in> fst s then (None, s)
      else
        (case SupportsOwnerReference (dw_restMapper d) owner dependent of
           Inl e \<Rightarrow> (Some e, s)
         | Inr useOwnerRef \<Rightarrow>
             (case ctl_Watch (dw_controller d) (dependent_source owner dependent useOwnerRef) (snd s) of
                (Some e, w1) \<Rightarrow> (Some e, fst s, w1)
              | (None, w1) \<Rightarrow> (None, insert depGVK (fst s), w1))))"

text \<open>\<open>EachListItem\<close> stops at the first item that it cannot read or that fails.\<close>

fun each_item ::
  "(unstructured \<Rightarrow> gvk set \<times> 'w \<Rightarrow> go_error option \<times> gvk set \<times> 'w) \<Rightarrow> (go_error + unstructured) list
     \<Rightarrow> gvk set \<times> 'w \<Rightarrow> go_error option \<times> gvk set \<times> 'w" where
  "each_item f [] s = (None, s)"
| "each_item f (Inl e # is) s = (Some e, s)"
| "each_item f (Inr u # is) s =
     (case f u s of (Some e, s1) \<Rightarrow> (Some e, s1) | (None, s1) \<Rightarrow> each_item f is s1)"

definition listGVK :: gvk where
  "listGVK = \<lparr>gvk_group = [], gvk_version = ''v1'', gvk_kind = ''List''\<rparr>"

definition exec_document ::
  "'w dependentResourceWatcher \<Rightarrow> unstructured \<Rightarrow> unstructured \<Rightarrow> gvk set \<times> 'w
     \<Rightarrow> go_error option \<times> gvk set \<times> 'w" where
  "exec_document d owner obj s =
     (let depGVK = u_gvk obj
      in if gvk_empty depGVK then (None, s)
         else if depGVK = listGVK
         then each_item (setWatchOnResource d owner depGVK) (ml_items (dw_lib d) obj) s
         else setWatchOnResource d owner depGVK obj s)"

fun exec_resources ::
  "'w dependentResourceWatcher \<Rightarrow> unstructured \<Rightarrow> string list \<Rightarrow> gvk set \<times> 'w
     \<Rightarrow> go_error option \<times> gvk set \<times> 'w" where
  "exec_resources d owner [] s = (None, s)"
| "exec_resources d owner (r # rs) s =
     (case ml_Unmarshal (dw_lib d) r of
        Inl e \<Rightarrow> (Some e, s)
      | Inr obj \<Rightarrow>
          (case exec_document d owner obj s of
             (Some e, s1) \<Rightarrow> (Some e, s1)
           | (None, s1) \<Rightarrow> exec_resources d owner rs s1))"

definition watcher_Exec ::
  "'w dependentResourceWatcher \<Rightarrow> unstructured \<Rightarrow> release \<Rightarrow> gvk set \<times> 'w
     \<Rightarrow> go_error option \<times> gvk set \<times> 'w" where
  "watcher_Exec d owner rel s =
     exec_resources d owner (ml_SplitManifests (dw_lib d) (rel_manifest rel)) s"

end
