(* ===== verification/FakeClient.thy ===== *)
theory FakeClient
  imports DependentWatcher Helm
begin

text \<open>
  The test doubles of the repository: \<open>pkg/reconciler/internal/fake/actionclient.go\<close>, an
  action client that records its calls and answers from handlers, and
  \<open>pkg/internal/fake/controller.go\<close>, a controller that records its watches. The options
  of a call are recorded as they are given; \<open>'w\<close> is the type of worlds that they work on.
\<close>

section \<open>The action client\<close>

record HistoryCall =
  hc_Name :: string
  hc_Opts :: "history_option list"

record GetCall =
  gc_Name :: string
  gc_Opts :: "get_option list"

record 'w InstallCall =
  ic_Name :: string
  ic_Namespace :: string
  ic_Chart :: chart
  ic_Values :: vals
  ic_Opts :: "'w install_option list"

record 'w UpgradeCall =
  uc_Name :: string
  uc_Namespace :: string
  uc_Chart :: chart
  uc_Values :: vals
  uc_Opts :: "'w upgrade_option list"

record UninstallCall =
  nc_Name :: string
  nc_Opts :: "uninstall_option list"

record ReconcileCall =
  rc_Release :: release

datatype ConfigCall = ConfigCall

text \<open>
  A handler takes no arguments; its answer here is the one that it gives to the next call. The
  Helm configuration is the handle on Helm, and nil is \<open>None\<close>.
\<close>

record 'w fake_client =
  Gets :: "GetCall list"
  Histories :: "HistoryCall list"
  Installs :: "'w InstallCall list"
  Upgrades :: "'w UpgradeCall list"
  Uninstalls :: "UninstallCall list"
  Reconciles :: "ReconcileCall list"
  Configs :: "ConfigCall list"
  HandleGet :: "release go_result"
  HandleHistory :: "release list \<times> go_error option"
  HandleInstall :: "release go_result"
  HandleUpgrade :: "release go_result"
  HandleUninstall :: "uninstall_response go_result"
  HandleReconcile :: "go_error option"
  HandleConfig :: "'w helm option"

definition NewActionClient :: "'w fake_client" where
  "NewActionClient =
     \<lparr>Gets = [], Histories = [], Installs = [], Upgrades = [], Uninstalls = [], Reconciles = [], Configs = [],
      HandleGet = (None, Some (ErrMsg ''get not implemented'')),
      HandleHistory = ([], Some (ErrMsg ''history not implemented'')),
      HandleInstall = (None, Some (ErrMsg ''install not implemented'')),
      HandleUpgrade = (None, Some (ErrMsg ''upgrade not implemented'')),
      HandleUninstall = (None, Some (ErrMsg ''uninstall not implemented'')),
      HandleReconcile = Some (ErrMsg ''reconcile not implemented''), HandleConfig = None\<rparr>"

definition fake_Get :: "string \<Rightarrow> get_option list \<Rightarrow> 'w fake_client \<Rightarrow> release go_result \<times> 'w fake_client" where
  "fake_Get name opts c =
     (let c1 = c\<lparr>Gets := Gets c @ [\<lparr>gc_Name = name, gc_Opts = opts\<rparr>]\<rparr> in (HandleGet c1, c1))"

definition fake_History ::
  "string \<Rightarrow> history_option list \<Rightarrow> 'w fake_client \<Rightarrow> (release list \<times> go_error option) \<times> 'w fake_client" where
  "fake_History name opts c =
     (let c1 = c\<lparr>Histories := Histories c @ [\<lparr>hc_Name = name, hc_Opts = opts\<rparr>]\<rparr> in (HandleHistory c1, c1))"

definition fake_Install ::
  "string \<Rightarrow> string \<Rightarrow> chart \<Rightarrow> vals \<Rightarrow> 'w install_option list \<Rightarrow> 'w fake_client
     \<Rightarrow> release go_result \<times> 'w fake_client" where
  "fake_Install name namespace chrt vals opts c =
     (let c1 = c\<lparr>Installs := Installs c @ [\<lparr>ic_Name = name, ic_Namespace = namespace, ic_Chart = chrt,
                                           ic_Values = vals, ic_Opts = opts\<rparr>]\<rparr>
      in (HandleInstall c1, c1))"

definition fake_Upgrade ::
  "string \<Rightarrow> string \<Rightarrow> chart \<Rightarrow> vals \<Rightarrow> 'w upgrade_option list \<Rightarrow> 'w fake_client
     \<Rightarrow> release go_result \<times> 'w fake_client" where
  "fake_Upgrade name namespace chrt vals opts c =
     (let c1 = c\<lparr>Upgrades := Upgrades c @ [\<lparr>uc_Name = name, uc_Namespace = namespace, uc_Chart = chrt,
                                           uc_Values = vals, uc_Opts = opts\<rparr>]\<rparr>
      in (HandleUpgrade c1, c1))"

definition fake_Uninstall ::
  "string \<Rightarrow> uninstall_option list \<Rightarrow> 'w fake_client \<Rightarrow> uninstall_response go_result \<times> 'w fake_client" where
  "fake_Uninstall name opts c =
     (let c1 = c\<lparr>Uninstalls := Uninstalls c @ [\<lparr>nc_Name = name, nc_Opts = opts\<rparr>]\<rparr>
      in (HandleUninstall c1, c1))"

definition fake_Reconcile :: "release \<Rightarrow> 'w fake_client \<Rightarrow> go_error option \<times> 'w fake_client" where
  "fake_Reconcile rel c =
     (let c1 = c\<lparr>Reconciles := Reconciles c @ [\<lparr>rc_Release = rel\<rparr>]\<rparr> in (HandleReconcile c1, c1))"

definition fake_Config :: "'w fake_client \<Rightarrow> 'w helm option \<times> 'w fake_client" where
  "fake_Config c = (let c1 = c\<lparr>Configs := Configs c @ [ConfigCall]\<rparr> in (HandleConfig c1, c1))"

text \<open>The getter gives out the client, or the error it was made with.\<close>

record 'a fakeActionClientGetter =
  fg_actionClient :: 'a
  fg_returnErr :: "go_error option"

definition fake_NewActionClientGetter :: "'a \<Rightarrow> go_error option \<Rightarrow> 'a fakeActionClientGetter" where
  "fake_NewActionClientGetter actionClient orErr = \<lparr>fg_actionClient = actionClient, fg_returnErr = orErr\<rparr>"

definition fake_ActionClientFor :: "'a fakeActionClientGetter \<Rightarrow> unstructured \<Rightarrow> go_error + 'a" where
  "fake_ActionClientFor hcg obj =
     (case fg_returnErr hcg of Some e \<Rightarrow> Inl e | None \<Rightarrow> Inr (fg_actionClient hcg))"

subsection \<open>What it records\<close>

text \<open>Every call, in order, beside the handlers, which stay as they are.\<close>

datatype 'w fake_call =
    CallGet GetCall
  | CallHistory HistoryCall
  | CallInstall "'w InstallCall"
  | CallUpgrade "'w UpgradeCall"
  | CallUninstall UninstallCall
  | CallReconcile ReconcileCall
  | CallConfig

fun fake_step :: "'w fake_call \<Rightarrow> 'w fake_client \<Rightarrow> 'w fake_client" where
  "fake_step (CallGet g) c = snd (fake_Get (gc_Name g) (gc_Opts g) c)"
| "fake_step (CallHistory h) c = snd (fake_History (hc_Name h) (hc_Opts h) c)"
| "fake_step (CallInstall i) c =
     snd (fake_Install (ic_Name i) (ic_Namespace i) (ic_Chart i) (ic_Values i) (ic_Opts i) c)"
| "fake_step (CallUpgrade u) c =
     snd (fake_Upgrade (uc_Name u) (uc_Namespace u) (uc_Chart u) (uc_Values u) (uc_Opts u) c)"
| "fake_step (CallUninstall n) c = snd (fake_Uninstall (nc_Name n) (nc_Opts n) c)"
| "fake_step (CallReconcile r) c = snd (fake_Reconcile (rc_Release r) c)"
| "fake_step CallConfig c = snd (fake_Config c)"

definition only :: "('c \<Rightarrow> 'a option) \<Rightarrow> 'c list \<Rightarrow> 'a list" where
  "only f cs = List.map_filter f cs"

lemma only_simps [simp]:
  "only f [] = []" "only f (c # cs) = (case f c of None \<Rightarrow> only f cs | Some x \<Rightarrow> x # only f cs)"
  by (simp_all add: only_def List.map_filter_simps split: option.splits)

lemmas fake_defs =
  fake_Get_def fake_History_def fake_Install_def fake_Upgrade_def fake_Uninstall_def fake_Reconcile_def
  fake_Config_def

text \<open>Whatever calls are made, each list has the calls of its kind, in the order they were made.\<close>

lemma fake_records:
  "Installs (fold fake_step cs c) = Installs c @ only (\<lambda>x. case x of CallInstall i \<Rightarrow> Some i | _ \<Rightarrow> None) cs"
  "Upgrades (fold fake_step cs c) = Upgrades c @ only (\<lambda>x. case x of CallUpgrade i \<Rightarrow> Some i | _ \<Rightarrow> None) cs"
  "Uninstalls (fold fake_step cs c) = Uninstalls c @ only (\<lambda>x. case x of CallUninstall i \<Rightarrow> Some i | _ \<Rightarrow> None) cs"
  "Reconciles (fold fake_step cs c) = Reconciles c @ only (\<lambda>x. case x of CallReconcile i \<Rightarrow> Some i | _ \<Rightarrow> None) cs"
  "Gets (fold fake_step cs c) = Gets c @ only (\<lambda>x. case x of CallGet i \<Rightarrow> Some i | _ \<Rightarrow> None) cs"
  "Histories (fold fake_step cs c) = Histories c @ only (\<lambda>x. case x of CallHistory i \<Rightarrow> Some i | _ \<Rightarrow> None) cs"
  by (induction cs arbitrary: c; simp add: fake_defs Let_def split: fake_call.splits)+

section \<open>The controller\<close>

record watchCall =
  wc_Source :: watch_source

record fake_controller =
  WatchCalls :: "watchCall list"
  Started :: bool
  ReconcileRequests :: "namespaced_name list"

definition fake_Watch :: "watch_source \<Rightarrow> fake_controller \<Rightarrow> go_error option \<times> fake_controller" where
  "fake_Watch src c = (None, c\<lparr>WatchCalls := WatchCalls c @ [\<lparr>wc_Source = src\<rparr>]\<rparr>)"

text \<open>\<open>ctx_done\<close> is the error of the context once it is done; the start of a context that never is does
  not return.\<close>

definition fake_Start :: "go_error option \<Rightarrow> fake_controller \<Rightarrow> (go_error \<times> fake_controller) option" where
  "fake_Start ctx_done c = map_option (\<lambda>e. (e, c\<lparr>Started := True\<rparr>)) ctx_done"

definition fake_controller_Reconcile :: "namespaced_name \<Rightarrow> fake_controller \<Rightarrow> go_error option \<times> fake_controller" where
  "fake_controller_Reconcile req c = (None, c\<lparr>ReconcileRequests := ReconcileRequests c @ [req]\<rparr>)"

definition controller_double :: "fake_controller controller" where
  "controller_double = \<lparr>ctl_Watch = fake_Watch\<rparr>"

end
