(* ===== verification/WatcherProps.thy ===== *)
theory WatcherProps
  imports DependentWatcher PostRenderer FakeClient
begin

text \<open>
  Properties of the dependent watcher. \<open>log\<close> reads the sources that the controller has
  accepted so far; \<open>watch_ok\<close> says that a successful \<open>Watch\<close> adds its source and a
  failed one adds nothing.
\<close>

definition watch_ok :: "'w controller \<Rightarrow> ('w \<Rightarrow> watch_source list) \<Rightarrow> bool" where
  "watch_ok c log \<longleftrightarrow>
     (\<forall>src w err w'. ctl_Watch c src w = (err, w') \<longrightarrow>
        log w' = (if err = None then log w @ [src] else log w))"

text \<open>The repository's own test double is such a controller.\<close>

lemma controller_double_ok: "watch_ok controller_double (\<lambda>c. map wc_Source (WatchCalls c))"
  by (auto simp: watch_ok_def controller_double_def fake_Watch_def)

text \<open>The state of a watcher that has added the sources \<open>new\<close>, one for each kind.\<close>

definition watches_match :: "('w \<Rightarrow> watch_source list) \<Rightarrow> watch_source list \<Rightarrow> gvk set \<times> 'w \<Rightarrow> bool" where
  "watches_match log base s \<longleftrightarrow>
     (\<exists>new. log (snd s) = base @ new \<and> distinct (map ws_gvk new) \<and> fst s = ws_gvk ` set new)"

definition plain_manifest :: "manifest_lib \<Rightarrow> string \<Rightarrow> bool" where
  "plain_manifest M m \<longleftrightarrow>
     (\<forall>r \<in> set (ml_SplitManifests M m). \<forall>obj. ml_Unmarshal M r = Inr obj \<longrightarrow> u_gvk obj \<noteq> listGVK)"

section \<open>Steps\<close>

lemma dependent_source_gvk [simp]: "ws_gvk (dependent_source owner dep b) = u_gvk dep"
  by (simp add: dependent_source_def)

lemma setWatch_keeps:
  assumes "watch_ok (dw_controller d) log" and "watches_match log base s"
    and "setWatchOnResource d owner (u_gvk dep) dep s = (err, s')"
  shows "watches_match log base s'" and "fst s \<subseteq> fst s'"
    and "err = None \<Longrightarrow> gvk_empty (u_gvk dep) \<or> u_gvk dep \<in> fst s'"
proof -
  have "watches_match log base s' \<and> fst s \<subseteq> fst s' \<and> (err = None \<longrightarrow> gvk_empty (u_gvk dep) \<or> u_gvk dep \<in> fst s')"
  proof (cases "gvk_empty (u_gvk dep) \<or> u_gvk dep \<in> fst s \<or> (\<exists>e. SupportsOwnerReference (dw_restMapper d) owner dep = Inl e)")
    case True
    with assms(2,3) show ?thesis by (auto simp: setWatchOnResource_def split: if_splits)
  next
    case False
    then obtain b where b: "SupportsOwnerReference (dw_restMapper d) owner dep = Inr b"
      by (metis obj_sumE)
    obtain e w1 where w: "ctl_Watch (dw_controller d) (dependent_source owner dep b) (snd s) = (e, w1)"
      by (metis surj_pair)
    from assms(1) w have l: "log w1 = (if e = None then log (snd s) @ [dependent_source owner dep b] else log (snd s))"
      by (auto simp: watch_ok_def)
    from assms(2) obtain new where new: "log (snd s) = base @ new" "distinct (map ws_gvk new)"
      "fst s = ws_gvk ` set new" by (auto simp: watches_match_def)
    show ?thesis
    proof (cases e)
      case None
      with False b w assms(3) have s': "s' = (insert (u_gvk dep) (fst s), w1)" "err = None"
        by (auto simp: setWatchOnResource_def)
      have "watches_match log base s'"
        unfolding watches_match_def s' using l None new False
        by (intro exI [of _ "new @ [dependent_source owner dep b]"]) auto
      with s' show ?thesis by auto
    next
      case (Some x)
      with False b w assms(3) have "s' = (fst s, w1)" "err = Some x"
        by (auto simp: setWatchOnResource_def)
      with l Some new show ?thesis by (auto simp: watches_match_def)
    qed
  qed
  then show "watches_match log base s'" and "fst s \<subseteq> fst s'"
    and "err = None \<Longrightarrow> gvk_empty (u_gvk dep) \<or> u_gvk dep \<in> fst s'" by auto
qed

lemma exec_resources_keeps:
  assumes "watch_ok (dw_controller d) log" and "watches_match log base s"
    and "\<And>r obj. r \<in> set rs \<Longrightarrow> ml_Unmarshal (dw_lib d) r = Inr obj \<Longrightarrow> u_gvk obj \<noteq> listGVK"
    and "exec_resources d owner rs s = (err, s')"
  shows "watches_match log base s' \<and> fst s \<subseteq> fst s' \<and>
    (err = None \<longrightarrow> (\<forall>r \<in> set rs. \<forall>obj. ml_Unmarshal (dw_lib d) r = Inr obj \<longrightarrow>
       gvk_empty (u_gvk obj) \<or> u_gvk obj \<in> fst s'))"
  using assms(2-4)
proof (induction rs arbitrary: s)
  case Nil
  then show ?case by simp
next
  case (Cons r rs)
  show ?case
  proof (cases "ml_Unmarshal (dw_lib d) r")
    case (Inl e)
    with Cons.prems show ?thesis by auto
  next
    case (Inr obj)
    obtain e1 s1 where d1: "exec_document d owner obj s = (e1, s1)" by (metis surj_pair)
    have nl: "u_gvk obj \<noteq> listGVK" using Cons.prems(2) [of r obj] Inr by simp
    have s1: "watches_match log base s1 \<and> fst s \<subseteq> fst s1 \<and> (e1 = None \<longrightarrow> gvk_empty (u_gvk obj) \<or> u_gvk obj \<in> fst s1)"
    proof (cases "gvk_empty (u_gvk obj)")
      case True
      with d1 Cons.prems(1) show ?thesis by (simp add: exec_document_def)
    next
      case False
      with d1 nl have "setWatchOnResource d owner (u_gvk obj) obj s = (e1, s1)"
        by (simp add: exec_document_def)
      from setWatch_keeps [OF assms(1) Cons.prems(1) this] show ?thesis by auto
    qed
    show ?thesis
    proof (cases e1)
      case None
      with Cons.prems(3) Inr d1 have "exec_resources d owner rs s1 = (err, s')" by simp
      moreover have "u_gvk ob \<noteq> listGVK" if "x \<in> set rs" "ml_Unmarshal (dw_lib d) x = Inr ob" for x ob
        using Cons.prems(2) [of x ob] that by simp
      ultimately have "watches_match log base s' \<and> fst s1 \<subseteq> fst s' \<and>
        (err = None \<longrightarrow> (\<forall>r \<in> set rs. \<forall>obj. ml_Unmarshal (dw_lib d) r = Inr obj \<longrightarrow>
           gvk_empty (u_gvk obj) \<or> u_gvk obj \<in> fst s'))" using Cons.IH [of s1] s1 by blast
      with s1 None Inr show ?thesis by auto
    next
      case (Some x)
      with Cons.prems(3) Inr d1 s1 show ?thesis by auto
    qed
  qed
qed

section \<open>Any number of releases\<close>

text \<open>
  The states of a watcher made in the world \<open>w0\<close>, when every release is a list-free
  manifest; between two releases the world changes, but nobody else adds watches.
\<close>

inductive watcher_state ::
  "'w dependentResourceWatcher \<Rightarrow> ('w \<Rightarrow> watch_source list) \<Rightarrow> 'w \<Rightarrow> gvk set \<times> 'w \<Rightarrow> bool"
  for d log w0 where
  made: "watcher_state d log w0 ({}, w0)"
| release: "watcher_state d log w0 s \<Longrightarrow> plain_manifest (dw_lib d) (rel_manifest rel) \<Longrightarrow>
    watcher_Exec d owner rel s = (err, s') \<Longrightarrow> watcher_state d log w0 s'"
| elsewhere: "watcher_state d log w0 s \<Longrightarrow> log w' = log (snd s) \<Longrightarrow> watcher_state d log w0 (fst s, w')"

lemma watcher_state_matches:
  assumes "watch_ok (dw_controller d) log" and "watcher_state d log w0 s"
  shows "watches_match log (log w0) s"
  using assms(2)
proof (induction rule: watcher_state.induct)
  case made
  then show ?case by (simp add: watches_match_def)
next
  case (release s rel owner err s')
  then show ?case
    using exec_resources_keeps [OF assms(1)] unfolding watcher_Exec_def plain_manifest_def by blast
next
  case (elsewhere s w')
  then show ?case by (simp add: watches_match_def)
qed

text \<open>A controller that accepts everything and keeps the list of its sources.\<close>

definition list_controller :: "watch_source list controller" where
  "list_controller = \<lparr>ctl_Watch = (\<lambda>src w. (None, w @ [src]))\<rparr>"

definition namespaced_gvk :: "string \<Rightarrow> gvk" where
  "namespaced_gvk kind = \<lparr>gvk_group = ''apps'', gvk_version = ''v1'', gvk_kind = kind\<rparr>"

definition dependent_of_kind :: "string \<Rightarrow> unstructured" where
  "dependent_of_kind kind =
     \<lparr>u_gvk = namespaced_gvk kind, u_name = ''web'', u_namespace = ''prod'', u_uid = [],
      u_annotations = Map.empty, u_finalizers = [], u_deletion_timestamp = None,
      u_resource_version = [], u_owner_refs = [], u_managed_fields = None, u_spec = None,
      u_status = StAbsent, u_body = []\<rparr>"

text \<open>A document is its kind; the list document has one item of kind \<open>Job\<close>, and a kept object is spelt with a star.\<close>

definition sample_manifest_lib :: manifest_lib where
  "sample_manifest_lib =
     \<lparr>ml_SplitManifests = (\<lambda>m. Split (CHR '','') m),
      ml_Unmarshal = (\<lambda>r. if r = ''List'' then Inr ((dependent_of_kind r)\<lparr>u_gvk := listGVK\<rparr>)
         else if r = ''Job*'' then Inr ((dependent_of_kind ''Job'')\<lparr>u_annotations := [ResourcePolicyAnno \<mapsto> KeepPolicy]\<rparr>)
         else Inr (dependent_of_kind r)),
      ml_items = (\<lambda>u. [Inr (dependent_of_kind ''Job'')])\<rparr>"

definition sample_watcher :: "watch_source list dependentResourceWatcher" where
  "sample_watcher = \<lparr>dw_controller = list_controller, dw_restMapper = (\<lambda>g. Inr NamespaceScope),
      dw_lib = sample_manifest_lib\<rparr>"

definition release_of :: "string \<Rightarrow> release" where
  "release_of m = \<lparr>rel_name = ''web'', rel_namespace = ''prod'', rel_version = 1, rel_manifest = m,
      rel_info = None, rel_labels = Map.empty, rel_rest = JNull\<rparr>"

lemma list_controller_ok: "watch_ok (dw_controller sample_watcher) (\<lambda>w. w)"
  by (simp add: watch_ok_def sample_watcher_def list_controller_def)

lemmas sample_watcher_defs =
  sample_watcher_def sample_manifest_lib_def list_controller_def release_of_def
  dependent_of_kind_def namespaced_gvk_def listGVK_def gvk_empty_def

lemma sample_run:
  "map ws_gvk (snd (snd (watcher_Exec sample_watcher (dependent_of_kind ''Web'')
      (release_of ''Job,Service,Job'') ({}, [])))) = [namespaced_gvk ''Job'', namespaced_gvk ''Service'']"
  by code_simp

section \<open>Properties\<close>



text \<open>C35. The items of a \<open>List\<close> are watched again by every release: the watcher records the kind
  of the list, not of the item, so after \<open>n\<close> releases of a manifest that holds one list with one
  item the controller has been given \<open>n\<close> equal sources for the item's kind, and the watcher still
  does not know that it watches that kind.\<close>

theorem list_items_watched_again:
  assumes "watch_ok (dw_controller d) log" and "\<And>src w. fst (ctl_Watch (dw_controller d) src w) = None"
    and "ml_SplitManifests (dw_lib d) (rel_manifest rel) = [r]" and "ml_Unmarshal (dw_lib d) r = Inr lst"
    and "u_gvk lst = listGVK" and "ml_items (dw_lib d) lst = [Inr dep]"
    and "\<not> gvk_empty (u_gvk dep)" and "u_gvk dep \<noteq> listGVK"
    and "SupportsOwnerReference (dw_restMapper d) owner dep = Inr b"
    and "u_gvk dep \<notin> fst s"
    and "((\<lambda>s. snd (watcher_Exec d owner rel s)) ^^ n) s = s'"
  shows "log (snd s') = log (snd s) @ replicate n (dependent_source owner dep b) \<and> u_gvk dep \<notin> fst s'"
proof -
  have once: "snd (watcher_Exec d owner rel t) =
      (insert listGVK (fst t), snd (ctl_Watch (dw_controller d) (dependent_source owner dep b) (snd t)))"
    if "u_gvk dep \<notin> fst t" for t
  proof -
    obtain w1 where w1: "ctl_Watch (dw_controller d) (dependent_source owner dep b) (snd t) = (None, w1)"
      using assms(2) by (metis prod.collapse)
    have "\<not> gvk_empty listGVK" by (simp add: gvk_empty_def listGVK_def)
    with that w1 show ?thesis
      by (simp add: watcher_Exec_def exec_document_def setWatchOnResource_def assms(3-9))
  qed
  have logged: "log (snd (ctl_Watch (dw_controller d) src w)) = log w @ [src]" for src w
    using assms(1,2) unfolding watch_ok_def by (metis prod.collapse)
  have "log (snd (((\<lambda>s. snd (watcher_Exec d owner rel s)) ^^ n) s)) =
        log (snd s) @ replicate n (dependent_source owner dep b)
      \<and> u_gvk dep \<notin> fst (((\<lambda>s. snd (watcher_Exec d owner rel s)) ^^ n) s)"
    by (induction n) (use assms(8,10) in \<open>auto simp: once logged replicate_append_same\<close>)
  with assms(11) show ?thesis by simp
qed

theorem list_items_watched_again_witness:
  "length (snd (((\<lambda>s. snd (watcher_Exec sample_watcher (dependent_of_kind ''Web'') (release_of ''List'') s)) ^^ 5)
      ({}, []))) = 5"
proof -
  let ?d = sample_watcher and ?o = "dependent_of_kind ''Web''" and ?dep = "dependent_of_kind ''Job''"
  let ?lst = "(dependent_of_kind ''List'')\<lparr>u_gvk := listGVK\<rparr>"
  have accept: "\<And>src w. fst (ctl_Watch (dw_controller ?d) src w) = None"
    and split: "ml_SplitManifests (dw_lib ?d) (rel_manifest (release_of ''List'')) = [''List'']"
    and doc: "ml_Unmarshal (dw_lib ?d) ''List'' = Inr ?lst" and kind: "u_gvk ?lst = listGVK"
    and items: "ml_items (dw_lib ?d) ?lst = [Inr ?dep]"
    and dep: "\<not> gvk_empty (u_gvk ?dep)" "u_gvk ?dep \<noteq> listGVK"
    and owned: "SupportsOwnerReference (dw_restMapper ?d) ?o ?dep = Inr True"
    by (simp_all add: sample_watcher_defs SupportsOwnerReference_def)
  from list_items_watched_again [OF list_controller_ok accept split doc kind items dep owned, of "({}, [])" 5]
  show ?thesis by simp
qed



section \<open>Events of dependents\<close>

text \<open>Drift is never missed: along any sequence of versions of a dependent object, when no
  single update is found worth a reconcile, the last version agrees with the first in the
  spec and in everything else but the status, the resource version and the managed fields of
  the status subresource; in particular events that are merged lose nothing.\<close>

theorem drift_noticed:
  assumes "successively (\<lambda>old updated. \<not> DependentPredicateFuncs (UpdateEvent old updated)) (v # vs)"
  shows "\<not> DependentPredicateFuncs (UpdateEvent v (last (v # vs)))
    \<and> u_spec (last (v # vs)) = u_spec v \<and> u_body (last (v # vs)) = u_body v
    \<and> u_annotations (last (v # vs)) = u_annotations v
    \<and> u_owner_refs (last (v # vs)) = u_owner_refs v"
proof -
  have same: "comparable (last (v # vs)) = comparable v"
    using assms by (induction vs arbitrary: v) (auto simp: successively_Cons)
  moreover from same have "u_spec (last (v # vs)) = u_spec v" "u_body (last (v # vs)) = u_body v"
    "u_annotations (last (v # vs)) = u_annotations v" "u_owner_refs (last (v # vs)) = u_owner_refs v"
    by (metis comparable_fields)+
  ultimately show ?thesis by (simp del: last.simps)
qed

theorem drift_noticed_witness:
  "\<not> DependentPredicateFuncs (UpdateEvent (dependent_of_kind ''Job'')
     ((dependent_of_kind ''Job'')\<lparr>u_status := StMap [], u_resource_version := ''2''\<rparr>))"
proof -
  let ?v = "dependent_of_kind ''Job''"
  let ?vs = "[?v\<lparr>u_resource_version := ''1''\<rparr>, ?v\<lparr>u_status := StMap [], u_resource_version := ''2''\<rparr>]"
  have "successively (\<lambda>old updated. \<not> DependentPredicateFuncs (UpdateEvent old updated)) (?v # ?vs)"
    by (simp add: comparable_def removeStatusManagedField_def)
  from drift_noticed [OF this] show ?thesis by simp
qed

end
