(* ===== verification/WatchesFile.thy ===== *)
theory WatchesFile
  imports DependentWatcher Values Helm
begin

text \<open>
  \<open>pkg/watches/watches.go\<close>: reading the file that lists the kinds to watch. YAML, the
  chart loader and the template engine are parameters; the last two read files, the
  environment or the clock, so they take the world. A Go map is listed in the order of its
  iteration.
\<close>

record watch =
  w_gvk :: gvk
  w_chart_path :: string
  w_watch_dependents :: "bool option"
  w_override_values :: "(string \<times> string) list option"
  w_reconcile_period :: "int option"
  w_max_concurrent :: "int option"
  w_selector :: "label_selector option"
  w_chart :: "chart option"

record 'w watches_lib =
  wl_ReadAll :: "'w \<Rightarrow> (go_error + string) \<times> 'w"
  wl_Unmarshal :: "string \<Rightarrow> go_error + watch list"
  wl_LoadChart :: "string \<Rightarrow> 'w \<Rightarrow> (go_error + chart) \<times> 'w"
  wl_getenv :: "string \<Rightarrow> string"
  wl_Parse :: "string \<Rightarrow> string \<Rightarrow> go_error option"
  wl_Execute :: "string \<Rightarrow> string \<Rightarrow> 'w \<Rightarrow> (go_error + string) \<times> 'w"

definition gvk_string :: "gvk \<Rightarrow> string" where
  "gvk_string g = gvk_group g @ ''/'' @ gvk_version g @ '', Kind='' @ gvk_kind g"

definition empty_selector :: label_selector where
  "empty_selector = \<lparr>ls_match_labels = [], ls_match_expressions = []\<rparr>"

definition verifyGVK :: "gvk \<Rightarrow> go_error option" where
  "verifyGVK g =
     (if gvk_version g = [] then Some (ErrMsg ''version must not be empty'')
      else if gvk_kind g = [] then Some (ErrMsg ''kind must not be empty'')
      else None)"

section \<open>Override values\<close>

fun expand_loop ::
  "'w watches_lib \<Rightarrow> (string \<times> string) list \<Rightarrow> (string \<times> string) list \<Rightarrow> 'w
     \<Rightarrow> (go_error + (string \<times> string) list) \<times> 'w" where
  "expand_loop WL [] out w = (Inr out, w)"
| "expand_loop WL ((k, v) # kvs) out w =
     (let envV = Expand (wl_getenv WL) v
      in (case wl_Parse WL k envV of
            Some e \<Rightarrow> (Inl (ErrMsg (''invalid template string '' @ quoted envV @ '': '' @ error_text e)), w)
          | None \<Rightarrow>
              (case wl_Execute WL k envV w of
                 (Inl e, w1) \<Rightarrow> (Inl (ErrMsg (''failed to execute template '' @ quoted envV @ '': '' @ error_text e)), w1)
               | (Inr t, w1) \<Rightarrow> expand_loop WL kvs (out @ [(k, t)]) w1)))"

definition expandOverrideValues ::
  "'w watches_lib \<Rightarrow> (string \<times> string) list option \<Rightarrow> 'w
     \<Rightarrow> (go_error + (string \<times> string) list option) \<times> 'w" where
  "expandOverrideValues WL ov w =
     (case ov of
        None \<Rightarrow> (Inr None, w)
      | Some kvs \<Rightarrow>
          (case expand_loop WL kvs [] w of
             (Inl e, w1) \<Rightarrow> (Inl e, w1)
           | (Inr out, w1) \<Rightarrow> (Inr (Some out), w1)))"

section \<open>The entries\<close>

text \<open>The body of the loop, up to the map of kinds seen so far.\<close>

definition load_watch ::
  "'w watches_lib \<Rightarrow> gvk set \<Rightarrow> watch \<Rightarrow> 'w \<Rightarrow> (go_error + watch) \<times> 'w" where
  "load_watch WL seen wt w =
     (let g = w_gvk wt
      in (case verifyGVK g of
            Some e \<Rightarrow> (Inl (ErrWrap (''invalid GVK: '' @ gvk_string g @ '': '') e), w)
          | None \<Rightarrow>
              (case wl_LoadChart WL (w_chart_path wt) w of
                 (Inl e, w1) \<Rightarrow> (Inl (ErrWrap (''invalid chart '' @ w_chart_path wt @ '': '') e), w1)
               | (Inr cl, w1) \<Rightarrow>
                   if g \<in> seen then (Inl (ErrMsg (''duplicate GVK: '' @ gvk_string g)), w1)
                   else
                     let dependents = (case w_watch_dependents wt of None \<Rightarrow> Some True | Some b \<Rightarrow> Some b);
                         selector = (case w_selector wt of None \<Rightarrow> Some empty_selector | Some s \<Rightarrow> Some s)
                     in (case expandOverrideValues WL (w_override_values wt) w1 of
                           (Inl e, w2) \<Rightarrow> (Inl (ErrMsg ''failed to expand override values''), w2)
                         | (Inr ov, w2) \<Rightarrow>
                             (Inr (wt\<lparr>w_chart := Some cl, w_watch_dependents := dependents,
                                      w_selector := selector, w_override_values := ov\<rparr>), w2)))))"

fun load_watches ::
  "'w watches_lib \<Rightarrow> gvk set \<Rightarrow> watch list \<Rightarrow> 'w \<Rightarrow> (go_error + watch list) \<times> 'w" where
  "load_watches WL seen [] w = (Inr [], w)"
| "load_watches WL seen (wt # wts) w =
     (case load_watch WL seen wt w of
        (Inl e, w1) \<Rightarrow> (Inl e, w1)
      | (Inr wt', w1) \<Rightarrow>
          (case load_watches WL (insert (w_gvk wt) seen) wts w1 of
             (Inl e, w2) \<Rightarrow> (Inl e, w2)
           | (Inr wts', w2) \<Rightarrow> (Inr (wt' # wts'), w2)))"

definition LoadReader :: "'w watches_lib \<Rightarrow> 'w \<Rightarrow> (go_error + watch list) \<times> 'w" where
  "LoadReader WL w =
     (case wl_ReadAll WL w of
        (Inl e, w1) \<Rightarrow> (Inl e, w1)
      | (Inr b, w1) \<Rightarrow>
          (case wl_Unmarshal WL b of
             Inl e \<Rightarrow> (Inl e, w1)
           | Inr watches \<Rightarrow> load_watches WL {} watches w1))"

text \<open>The file is closed whatever happened; an error of \<open>Close\<close> replaces that of the reader.\<close>

definition Load ::
  "('w \<Rightarrow> go_error option \<times> 'w) \<Rightarrow> ('w \<Rightarrow> go_error option \<times> 'w) \<Rightarrow> 'w watches_lib \<Rightarrow> 'w
     \<Rightarrow> (go_error + watch list) \<times> 'w" where
  "Load os_open os_close WL w =
     (case os_open w of
        (Some e, w1) \<Rightarrow> (Inl (ErrWrap ''could not open watches file: '' e), w1)
      | (None, w1) \<Rightarrow>
          let (res, w2) = LoadReader WL w1
          in (case os_close w2 of
                (Some e, w3) \<Rightarrow> (Inl (ErrWrap ''could not close watches file: '' e), w3)
              | (None, w3) \<Rightarrow> (res, w3)))"

section \<open>Lemmas\<close>

text \<open>What the rest of the program relies on: the pointers of a loaded entry are set.\<close>

definition watch_loaded :: "watch \<Rightarrow> bool" where
  "watch_loaded wt \<longleftrightarrow> gvk_version (w_gvk wt) \<noteq> [] \<and> gvk_kind (w_gvk wt) \<noteq> []
     \<and> w_chart wt \<noteq> None \<and> w_watch_dependents wt \<noteq> None \<and> w_selector wt \<noteq> None"

lemma verifyGVK_None: "verifyGVK g = None \<longleftrightarrow> gvk_version g \<noteq> [] \<and> gvk_kind g \<noteq> []"
  by (simp add: verifyGVK_def)

lemma expand_loop_keys:
  "expand_loop WL kvs out w = (Inr out', w') \<Longrightarrow> map fst out' = map fst out @ map fst kvs"
  by (induction WL kvs out w rule: expand_loop.induct)
     (auto simp: Let_def split: option.splits prod.splits sum.splits)

lemma load_watch_ok:
  assumes "load_watch WL seen wt w = (Inr wt', w')"
  shows "watch_loaded wt'" and "w_gvk wt' = w_gvk wt" and "w_gvk wt \<notin> seen"
    and "map_option (map fst) (w_override_values wt') = map_option (map fst) (w_override_values wt)"
    and "w_watch_dependents wt' = Some (case w_watch_dependents wt of None \<Rightarrow> True | Some b \<Rightarrow> b)"
  using assms
  by (auto simp: load_watch_def watch_loaded_def verifyGVK_None expandOverrideValues_def Let_def
      dest: expand_loop_keys split: option.splits prod.splits sum.splits if_splits)

lemma load_watches_ok:
  assumes "load_watches WL seen wts w = (Inr wts', w')"
  shows "list_all watch_loaded wts' \<and> map w_gvk wts' = map w_gvk wts
    \<and> distinct (map w_gvk wts) \<and> w_gvk ` set wts \<inter> seen = {}
    \<and> map w_watch_dependents wts' = map (\<lambda>wt. Some (case w_watch_dependents wt of None \<Rightarrow> True | Some b \<Rightarrow> b)) wts"
  using assms
proof (induction wts arbitrary: seen w wts' w')
  case Nil
  then show ?case by simp
next
  case (Cons wt wts)
  then obtain wt1 w1 rest w2 where s: "load_watch WL seen wt w = (Inr wt1, w1)"
    "load_watches WL (insert (w_gvk wt) seen) wts w1 = (Inr rest, w2)" "wts' = wt1 # rest"
    by (auto split: prod.splits sum.splits)
  from load_watch_ok [OF s(1)] Cons.IH [OF s(2)] s(3) show ?case by auto
qed

text \<open>
  When reading charts and running templates does not depend on the world, which entries load is
  a condition on the file alone.
\<close>

definition pure_loading ::
  "'w watches_lib \<Rightarrow> (string \<Rightarrow> go_error + chart) \<Rightarrow> (string \<Rightarrow> string \<Rightarrow> go_error + string) \<Rightarrow> bool" where
  "pure_loading WL charts tmpl \<longleftrightarrow>
     (\<forall>p w. wl_LoadChart WL p w = (charts p, w)) \<and> (\<forall>k t w. wl_Execute WL k t w = (tmpl k t, w))"

definition override_ok ::
  "'w watches_lib \<Rightarrow> (string \<Rightarrow> string \<Rightarrow> go_error + string) \<Rightarrow> string \<times> string \<Rightarrow> bool" where
  "override_ok WL tmpl kv \<longleftrightarrow>
     (let envV = Expand (wl_getenv WL) (snd kv)
      in wl_Parse WL (fst kv) envV = None \<and> (\<exists>t. tmpl (fst kv) envV = Inr t))"

definition entry_ok ::
  "'w watches_lib \<Rightarrow> (string \<Rightarrow> go_error + chart) \<Rightarrow> (string \<Rightarrow> string \<Rightarrow> go_error + string) \<Rightarrow> watch \<Rightarrow> bool" where
  "entry_ok WL charts tmpl wt \<longleftrightarrow> gvk_version (w_gvk wt) \<noteq> [] \<and> gvk_kind (w_gvk wt) \<noteq> []
     \<and> (\<exists>c. charts (w_chart_path wt) = Inr c)
     \<and> list_all (override_ok WL tmpl) (case w_override_values wt of None \<Rightarrow> [] | Some kvs \<Rightarrow> kvs)"

lemma expand_loop_iff:
  assumes "pure_loading WL charts tmpl"
  shows "if list_all (override_ok WL tmpl) kvs then \<exists>out'. expand_loop WL kvs out w = (Inr out', w)
    else \<exists>e. expand_loop WL kvs out w = (Inl e, w)"
proof (induction kvs arbitrary: out)
  case Nil
  then show ?case by simp
next
  case (Cons kv kvs)
  obtain k v where kv: "kv = (k, v)" by fastforce
  show ?case
  proof (cases "override_ok WL tmpl kv")
    case True
    then obtain t where t: "tmpl k (Expand (wl_getenv WL) v) = Inr t"
      "wl_Parse WL k (Expand (wl_getenv WL) v) = None"
      by (auto simp: override_ok_def kv Let_def)
    with assms have "expand_loop WL (kv # kvs) out w = expand_loop WL kvs (out @ [(k, t)]) w"
      by (simp add: kv pure_loading_def Let_def)
    with Cons.IH [of "out @ [(k, t)]"] True show ?thesis by simp
  next
    case False
    with assms show ?thesis
      by (auto simp: override_ok_def kv pure_loading_def Let_def split: option.splits sum.splits)
  qed
qed

lemma load_watch_iff:
  assumes "pure_loading WL charts tmpl"
  shows "if entry_ok WL charts tmpl wt \<and> w_gvk wt \<notin> seen then \<exists>wt'. load_watch WL seen wt w = (Inr wt', w)
    else \<exists>e. load_watch WL seen wt w = (Inl e, w)"
proof -
  let ?kvs = "case w_override_values wt of None \<Rightarrow> [] | Some kvs \<Rightarrow> kvs"
  have ov: "if list_all (override_ok WL tmpl) ?kvs then \<exists>x. expandOverrideValues WL (w_override_values wt) w = (Inr x, w)
      else \<exists>e. expandOverrideValues WL (w_override_values wt) w = (Inl e, w)"
  proof (cases "w_override_values wt")
    case None
    then show ?thesis by (simp add: expandOverrideValues_def)
  next
    case (Some kvs)
    with expand_loop_iff [OF assms, of kvs "[]" w] show ?thesis
      by (auto simp: expandOverrideValues_def split: if_splits)
  qed
  have ch: "wl_LoadChart WL (w_chart_path wt) w = (charts (w_chart_path wt), w)"
    using assms by (simp add: pure_loading_def)
  show ?thesis
  proof (cases "verifyGVK (w_gvk wt)")
    case None
    then have g: "gvk_version (w_gvk wt) \<noteq> []" "gvk_kind (w_gvk wt) \<noteq> []" by (simp_all add: verifyGVK_None)
    show ?thesis
    proof (cases "charts (w_chart_path wt)")
      case (Inl e)
      with None ch show ?thesis by (simp add: load_watch_def entry_ok_def)
    next
      case (Inr c)
      with None ch g ov show ?thesis
        by (auto simp: load_watch_def entry_ok_def Let_def split: if_splits)
    qed
  next
    case (Some e)
    then have "gvk_version (w_gvk wt) = [] \<or> gvk_kind (w_gvk wt) = []"
      using verifyGVK_None [of "w_gvk wt"] by auto
    with Some show ?thesis by (auto simp: load_watch_def entry_ok_def)
  qed
qed

lemma load_watches_iff:
  assumes "pure_loading WL charts tmpl"
  shows "if list_all (entry_ok WL charts tmpl) wts \<and> distinct (map w_gvk wts) \<and> w_gvk ` set wts \<inter> seen = {}
    then \<exists>wts'. load_watches WL seen wts w = (Inr wts', w) else \<exists>e. load_watches WL seen wts w = (Inl e, w)"
proof (induction wts arbitrary: seen)
  case Nil
  then show ?case by simp
next
  case (Cons wt wts)
  show ?case
  proof (cases "entry_ok WL charts tmpl wt \<and> w_gvk wt \<notin> seen")
    case True
    with load_watch_iff [OF assms, of wt seen w] obtain wt' where "load_watch WL seen wt w = (Inr wt', w)" by auto
    with Cons.IH [of "insert (w_gvk wt) seen"] True show ?thesis
      by (auto split: if_splits)
  next
    case False
    with load_watch_iff [OF assms, of wt seen w] obtain e where "load_watch WL seen wt w = (Inl e, w)" by auto
    with False show ?thesis by auto
  qed
qed

section \<open>Properties\<close>

definition sample_watches_lib :: "nat watches_lib" where
  "sample_watches_lib =
     \<lparr>wl_ReadAll = (\<lambda>w. (Inr ''file'', w)),
      wl_Unmarshal = (\<lambda>b. Inr
        [\<lparr>w_gvk = \<lparr>gvk_group = ''demo'', gvk_version = ''v1'', gvk_kind = ''Web''\<rparr>,
          w_chart_path = ''charts/web'', w_watch_dependents = Some False,
          w_override_values = Some [(''image.tag'', ''$TAG'')], w_reconcile_period = None,
          w_max_concurrent = None, w_selector = None, w_chart = None\<rparr>]),
      wl_LoadChart = (\<lambda>p w. (Inr \<lparr>ch_name = p, ch_content = JNull\<rparr>, w)),
      wl_getenv = (\<lambda>v. ''1.2''), wl_Parse = (\<lambda>k t. None), wl_Execute = (\<lambda>k t w. (Inr t, w))\<rparr>"



end
