(* ===== verification/ManagerOptions.thy ===== *)
theory ManagerOptions
  imports GoLib
begin

text \<open>
  The options of the controller manager as the command sets them:
  \<open>internal/flags/flag.go\<close> and \<open>pkg/manager/namespace.go\<close>. \<open>manager_options\<close>
  has the fields of \<open>manager.Options\<close> that the repository reads or writes; the parsing of
  flags is pflag's, of which the code uses \<open>Changed\<close>.
\<close>

section \<open>Options\<close>

record tls_config =
  tls_next_protos :: "string list"

type_synonym tls_opt = "tls_config \<Rightarrow> tls_config"

record webhook_options =
  wh_cert_dir :: string
  wh_host :: string
  wh_port :: int
  wh_tls_opts :: "tls_opt list"

record manager_options =
  mo_metrics_bind_address :: string
  mo_metrics_secure_serving :: bool
  mo_metrics_tls_opts :: "tls_opt list"
  mo_probe_bind_address :: string
  mo_leader_election :: bool
  mo_leader_election_id :: string
  mo_leader_election_namespace :: string
  mo_leader_election_lock :: string
  mo_webhook_server :: "webhook_options option"
  mo_default_namespaces :: "(string \<rightharpoonup> unit) option"

text \<open>The zero value of \<open>manager.Options\<close>. A cache configuration is always the empty one.\<close>

definition zero_options :: manager_options where
  "zero_options =
     \<lparr>mo_metrics_bind_address = [], mo_metrics_secure_serving = False, mo_metrics_tls_opts = [],
      mo_probe_bind_address = [], mo_leader_election = False, mo_leader_election_id = [],
      mo_leader_election_namespace = [], mo_leader_election_lock = [], mo_webhook_server = None,
      mo_default_namespaces = None\<rparr>"

section \<open>Flags\<close>

record flags =
  fl_reconcile_period :: int
  fl_watches_file :: string
  fl_metrics_bind_address :: string
  fl_leader_election :: bool
  fl_leader_election_id :: string
  fl_leader_election_namespace :: string
  fl_max_concurrent_reconciles :: int
  fl_probe_addr :: string
  fl_enable_http2 :: bool
  fl_secure_metrics :: bool
  fl_changed :: "(string \<Rightarrow> bool) option"

text \<open>
  \<open>AddTo\<close> registers the flags, which sets each variable to its default, and keeps the flag
  set. Two pairs of flags share a variable. A flag set is its \<open>Changed\<close>.
\<close>

definition flag_names :: "string list" where
  "flag_names =
     [''watches-file'', ''reconcile-period'', ''max-concurrent-reconciles'', ''metrics-addr'',
      ''metrics-bind-address'', ''health-probe-bind-address'', ''enable-leader-election'',
      ''leader-elect'', ''leader-election-id'', ''leader-election-namespace'', ''enable-http2'',
      ''metrics-secure'']"

definition AddTo :: "int \<Rightarrow> (string \<Rightarrow> bool) \<Rightarrow> flags" where
  "AddTo numCPU flagSet =
     \<lparr>fl_reconcile_period = 60 * 1000000000, fl_watches_file = ''./watches.yaml'',
      fl_metrics_bind_address = '':8080'', fl_leader_election = False, fl_leader_election_id = [],
      fl_leader_election_namespace = [], fl_max_concurrent_reconciles = numCPU,
      fl_probe_addr = '':8081'', fl_enable_http2 = False, fl_secure_metrics = False,
      fl_changed = Some flagSet\<rparr>"

definition disableHTTP2 :: tls_opt where
  "disableHTTP2 c = c\<lparr>tls_next_protos := [''http/1.1'']\<rparr>"

abbreviation LeasesResourceLock :: string where "LeasesResourceLock \<equiv> ''leases''"

definition ToManagerOptions :: "flags \<Rightarrow> manager_options \<Rightarrow> manager_options" where
  "ToManagerOptions f opts =
     (let changed = (case fl_changed f of None \<Rightarrow> (\<lambda>_. False) | Some flagSet \<Rightarrow> flagSet);
          o1 = (if changed ''metrics-bind-address'' \<or> changed ''metrics-addr'' \<or> mo_metrics_bind_address opts = []
                then opts\<lparr>mo_metrics_bind_address := fl_metrics_bind_address f\<rparr> else opts);
          o2 = (if changed ''health-probe-bind-address'' \<or> mo_probe_bind_address o1 = []
                then o1\<lparr>mo_probe_bind_address := fl_probe_addr f\<rparr> else o1);
          o3 = (if changed ''leader-elect'' \<or> changed ''enable-leader-election'' \<or> \<not> mo_leader_election o2
                then o2\<lparr>mo_leader_election := fl_leader_election f\<rparr> else o2);
          o4 = (if changed ''leader-election-id'' \<or> mo_leader_election_id o3 = []
                then o3\<lparr>mo_leader_election_id := fl_leader_election_id f\<rparr> else o3);
          o5 = (if changed ''leader-election-namespace'' \<or> mo_leader_election_namespace o4 = []
                then o4\<lparr>mo_leader_election_namespace := fl_leader_election_namespace f\<rparr> else o4);
          o6 = (if mo_leader_election_lock o5 = []
                then o5\<lparr>mo_leader_election_lock := LeasesResourceLock\<rparr> else o5);
          o7 = (if \<not> fl_enable_http2 f
                then o6\<lparr>mo_webhook_server := Some \<lparr>wh_cert_dir = [], wh_host = [], wh_port = 0,
                                                   wh_tls_opts = [disableHTTP2]\<rparr>,
                        mo_metrics_tls_opts := mo_metrics_tls_opts o6 @ [disableHTTP2]\<rparr>
                else o6)
      in o7\<lparr>mo_metrics_secure_serving := fl_secure_metrics f\<rparr>)"

section \<open>Namespaces\<close>

definition splitNamespaces :: "string \<Rightarrow> string list" where
  "splitNamespaces namespaces =
     filter (\<lambda>ns. ns \<noteq> []) (map TrimSpace (Split (CHR '','') namespaces))"

abbreviation WatchNamespaceEnvVar :: string where "WatchNamespaceEnvVar \<equiv> ''WATCH_NAMESPACE''"

text \<open>No namespaces is a nil map, which the cache reads as all namespaces.\<close>

definition ConfigureWatchNamespaces :: "(string \<Rightarrow> string) \<Rightarrow> manager_options \<Rightarrow> manager_options" where
  "ConfigureWatchNamespaces getenv opts =
     (let namespaces = splitNamespaces (getenv WatchNamespaceEnvVar)
      in opts\<lparr>mo_default_namespaces :=
           (if length namespaces \<noteq> 0 then Some (map_of (map (\<lambda>ns. (ns, ())) namespaces)) else None)\<rparr>)"

section \<open>Lemmas\<close>

fun join_comma :: "string list \<Rightarrow> string" where
  "join_comma [] = []"
| "join_comma [n] = n"
| "join_comma (n # ns) = n @ CHR '','' # join_comma ns"

lemma dropWhile_no: "\<forall>c \<in> set s. \<not> P c \<Longrightarrow> dropWhile P s = s"
  by (cases s) auto

lemma TrimSpace_id: "\<forall>c \<in> set s. \<not> isSpace c \<Longrightarrow> TrimSpace s = s"
  by (simp add: TrimSpace_def dropWhile_no)

lemma splitNamespaces_join:
  assumes "\<forall>n \<in> set ns. n \<noteq> [] \<and> CHR '','' \<notin> set n \<and> (\<forall>c \<in> set n. \<not> isSpace c)"
  shows "splitNamespaces (join_comma ns) = ns"
  using assms
  by (induction ns rule: join_comma.induct)
     (auto simp: splitNamespaces_def Split_no_sep Split_append TrimSpace_id TrimSpace_id [of "[]"])

lemma dom_namespaces: "dom (map_of (map (\<lambda>ns. (ns, ())) nss)) = set nss"
  by (induction nss) auto

text \<open>The first namespaces of \<open>TLSOpts\<close> cannot bring HTTP/2 back.\<close>

lemma fold_disableHTTP2: "tls_next_protos (fold (\<lambda>f c. f c) (opts @ [disableHTTP2]) c) = [''http/1.1'']"
  by (simp add: disableHTTP2_def)

section \<open>Properties\<close>

text \<open>Namespaces round-trip through the environment: a comma-separated list of clean names
  restricts the cache to exactly those names, and a list with nothing but blanks between its
  commas leaves the cache unrestricted.\<close>

theorem namespaces_round_trip:
  assumes "\<forall>n \<in> set ns. n \<noteq> [] \<and> CHR '','' \<notin> set n \<and> (\<forall>c \<in> set n. \<not> isSpace c)"
    and "getenv WatchNamespaceEnvVar = join_comma ns"
  shows "(case mo_default_namespaces (ConfigureWatchNamespaces getenv opts) of
            None \<Rightarrow> ns = [] | Some m \<Rightarrow> ns \<noteq> [] \<and> dom m = set ns)
    \<and> (\<forall>env. (\<forall>c \<in> set (env WatchNamespaceEnvVar). isSpace c \<or> c = CHR '','') \<longrightarrow>
         mo_default_namespaces (ConfigureWatchNamespaces env opts) = None)"
proof -
  have blank: "splitNamespaces s = []" if "\<forall>c \<in> set s. isSpace c \<or> c = CHR '',''" for s
  proof -
    have "\<forall>p \<in> set (Split (CHR '','') s). \<forall>c \<in> set p. isSpace c"
      using that
    proof (induction s)
      case (Cons c s)
      then show ?case by (cases "Split (CHR '','') s") (auto split: if_splits)
    qed simp
    then have "\<forall>p \<in> set (Split (CHR '','') s). TrimSpace p = []"
      by (auto simp: TrimSpace_def dest!: set_dropWhileD)
    then show ?thesis by (simp add: splitNamespaces_def filter_empty_conv)
  qed
  with splitNamespaces_join [OF assms(1)] assms(2) show ?thesis
    by (simp add: ConfigureWatchNamespaces_def Let_def dom_namespaces)
qed

theorem namespaces_round_trip_witness:
  "dom (the (mo_default_namespaces (ConfigureWatchNamespaces (\<lambda>v. ''dev,prod'') zero_options))) = {''dev'', ''prod''}"
proof -
  have "\<forall>n \<in> set [''dev'', ''prod'']. n \<noteq> [] \<and> CHR '','' \<notin> set n \<and> (\<forall>c \<in> set n. \<not> isSpace c)"
    by (simp add: isSpace_def)
  from namespaces_round_trip [OF this, of "\<lambda>v. ''dev,prod''" zero_options]
  show ?thesis by (simp split: option.splits)
qed

text \<open>Unless HTTP/2 is enabled on the command line, no server of the manager speaks it: whatever
  TLS options the metrics server was configured with, its TLS configuration ends up with HTTP/1.1
  as the only protocol, and so does that of the webhook server.\<close>

theorem http2_off_by_default:
  assumes "\<not> fl_enable_http2 f"
  shows "tls_next_protos (fold (\<lambda>g c. g c) (mo_metrics_tls_opts (ToManagerOptions f opts)) c) = [''http/1.1'']
    \<and> (\<exists>wh. mo_webhook_server (ToManagerOptions f opts) = Some wh
         \<and> tls_next_protos (fold (\<lambda>g c. g c) (wh_tls_opts wh) c) = [''http/1.1''])"
  using assms by (simp add: ToManagerOptions_def Let_def disableHTTP2_def)

theorem http2_off_by_default_witness:
  "tls_next_protos (fold (\<lambda>g c. g c) (mo_metrics_tls_opts (ToManagerOptions (AddTo 4 (\<lambda>_. False))
      (zero_options\<lparr>mo_metrics_tls_opts := [\<lambda>c. c\<lparr>tls_next_protos := [''h2'']\<rparr>]\<rparr>))) \<lparr>tls_next_protos = []\<rparr>)
   = [''http/1.1'']"
  by (rule conjunct1 [OF http2_off_by_default]) (simp add: AddTo_def)

end
