(* ===== verification/ActionConfig.thy ===== *)
theory ActionConfig
  imports ActionClient Secrets
begin

text \<open>
  \<open>pkg/client/actionconfig.go\<close> and \<open>pkg/client/restclientgetter.go\<close>: how the
  Helm configuration for a custom resource is put together. \<open>'c\<close> is \<open>rest.Config\<close>
  and \<open>'d\<close> a storage driver of Helm. Contexts and the debug logger are left out; a nil
  function is \<open>None\<close>.
\<close>

section \<open>REST client getters\<close>

text \<open>The cached discovery client is the library's; it is known by the configuration it was made for.\<close>

datatype 'c cached_discovery = MemCacheClient (cd_config: 'c)

record 'c restClientGetter =
  rcg_restConfig :: 'c
  rcg_restMapper :: "gvk \<Rightarrow> go_error + rest_scope"
  rcg_cachedDiscoveryClient :: "'c cached_discovery"

record namespaceClientConfig =
  ncc_namespace :: string

record 'c namespacedRCG = "'c restClientGetter" +
  rcg_namespaceConfig :: namespaceClientConfig

definition newRESTClientGetter ::
  "'c \<Rightarrow> (gvk \<Rightarrow> go_error + rest_scope) \<Rightarrow> 'c cached_discovery \<Rightarrow> string \<Rightarrow> 'c namespacedRCG" where
  "newRESTClientGetter cfg rm cachedDiscoveryClient ns =
     \<lparr>rcg_restConfig = cfg, rcg_restMapper = rm, rcg_cachedDiscoveryClient = cachedDiscoveryClient,
      rcg_namespaceConfig = \<lparr>ncc_namespace = ns\<rparr>\<rparr>"

text \<open>\<open>rest.CopyConfig\<close> makes an equal configuration.\<close>

definition ToRESTConfig :: "('c, 'z) restClientGetter_scheme \<Rightarrow> go_error + 'c" where
  "ToRESTConfig c = Inr (rcg_restConfig c)"

definition ToDiscoveryClient :: "('c, 'z) restClientGetter_scheme \<Rightarrow> go_error + 'c cached_discovery" where
  "ToDiscoveryClient c = Inr (rcg_cachedDiscoveryClient c)"

definition ToRESTMapper :: "('c, 'z) restClientGetter_scheme \<Rightarrow> go_error + (gvk \<Rightarrow> go_error + rest_scope)" where
  "ToRESTMapper c = Inr (rcg_restMapper c)"

text \<open>\<open>ForNamespace\<close> keeps the embedded getter and puts a new namespace beside it.\<close>

definition ForNamespace :: "string \<Rightarrow> ('c, 'z) restClientGetter_scheme \<Rightarrow> 'c namespacedRCG" where
  "ForNamespace ns c =
     \<lparr>rcg_restConfig = rcg_restConfig c, rcg_restMapper = rcg_restMapper c,
      rcg_cachedDiscoveryClient = rcg_cachedDiscoveryClient c, rcg_namespaceConfig = \<lparr>ncc_namespace = ns\<rparr>\<rparr>"

definition ToRawKubeConfigLoader :: "'c namespacedRCG \<Rightarrow> namespaceClientConfig" where
  "ToRawKubeConfigLoader c = rcg_namespaceConfig c"

text \<open>
  The client configuration knows its namespace and nothing else: the raw configuration is the
  zero value of \<open>clientcmdapi.Config\<close>, an argument here, and two of its methods return nil.
\<close>

definition ncc_RawConfig :: "'k \<Rightarrow> namespaceClientConfig \<Rightarrow> 'k \<times> go_error option" where
  "ncc_RawConfig zero_config c = (zero_config, None)"

definition ncc_ClientConfig :: "namespaceClientConfig \<Rightarrow> 'c option \<times> go_error option" where
  "ncc_ClientConfig c = (None, None)"

definition ncc_Namespace :: "namespaceClientConfig \<Rightarrow> string \<times> bool \<times> go_error option" where
  "ncc_Namespace c = (ncc_namespace c, False, None)"

definition ncc_ConfigAccess :: "namespaceClientConfig \<Rightarrow> 'a option" where
  "ncc_ConfigAccess c = None"

section \<open>The storage driver\<close>

type_synonym 'w ObjectToStringMapper = "unstructured \<Rightarrow> 'w \<Rightarrow> (go_error + string) \<times> 'w"
type_synonym ('c, 'w) ObjectToRestConfigMapper = "unstructured \<Rightarrow> 'c \<Rightarrow> 'w \<Rightarrow> (go_error + 'c) \<times> 'w"
type_synonym ('c, 'd, 'w) ObjectToStorageDriverMapper = "unstructured \<Rightarrow> 'c \<Rightarrow> 'w \<Rightarrow> (go_error + 'd) \<times> 'w"

text \<open>The typed clients of client-go, Helm's secrets driver, and \<open>metav1.NewControllerRef\<close>.\<close>

record ('c, 'd, 'w) storage_lib =
  st_NewForConfig :: "'c \<Rightarrow> go_error + (string \<Rightarrow> 'w secret_client)"
  st_NewControllerRef :: "unstructured \<Rightarrow> gvk \<Rightarrow> owner_ref"
  st_NewSecrets :: "'w secret_client \<Rightarrow> 'd"

definition getObjectNamespace :: "'w ObjectToStringMapper" where
  "getObjectNamespace obj w = (Inr (u_namespace obj), w)"

record 'w SecretsStorageDriverOpts =
  so_DisableOwnerRefInjection :: bool
  so_StorageNamespaceMapper :: "'w ObjectToStringMapper option"

definition storage_client ::
  "('c, 'd, 'w) storage_lib \<Rightarrow> bool \<Rightarrow> unstructured \<Rightarrow> 'w secret_client \<Rightarrow> 'w secret_client" where
  "storage_client S disable obj secretClient =
     (if \<not> disable
      then NewOwnerRefSecretClient secretClient [st_NewControllerRef S obj (u_gvk obj)] (Some MatchAllSecrets)
      else secretClient)"

definition DefaultSecretsStorageDriver ::
  "('c, 'd, 'w) storage_lib \<Rightarrow> 'w SecretsStorageDriverOpts \<Rightarrow> ('c, 'd, 'w) ObjectToStorageDriverMapper" where
  "DefaultSecretsStorageDriver S opts obj restConfig w =
     (let nsMapper = (case so_StorageNamespaceMapper opts of None \<Rightarrow> getObjectNamespace | Some m \<Rightarrow> m)
      in (case nsMapper obj w of
            (Inl e, w1) \<Rightarrow> (Inl (ErrMsg (''get storage namespace for object: '' @ error_text e)), w1)
          | (Inr storageNamespace, w1) \<Rightarrow>
              (case st_NewForConfig S restConfig of
                 Inl e \<Rightarrow> (Inl (ErrMsg (''create secrets client for storage: '' @ error_text e)), w1)
               | Inr secrets \<Rightarrow>
                   (Inr (st_NewSecrets S
                      (storage_client S (so_DisableOwnerRefInjection opts) obj (secrets storageNamespace))), w1))))"

section \<open>The getter and its options\<close>

record ('c, 'd, 'w) actionConfigGetter =
  ag_baseRestConfig :: 'c
  ag_restMapper :: "gvk \<Rightarrow> go_error + rest_scope"
  ag_discoveryClient :: "'c cached_discovery"
  ag_objectToClientRestConfig :: "('c, 'w) ObjectToRestConfigMapper option"
  ag_objectToClientNamespace :: "'w ObjectToStringMapper option"
  ag_objectToStorageRestConfig :: "('c, 'w) ObjectToRestConfigMapper option"
  ag_objectToStorageDriver :: "('c, 'd, 'w) ObjectToStorageDriverMapper option"
  ag_objectToStorageNamespace :: "'w ObjectToStringMapper option"
  ag_disableStorageOwnerRefInjection :: bool

type_synonym ('c, 'd, 'w) ActionConfigGetterOption =
  "('c, 'd, 'w) actionConfigGetter \<Rightarrow> ('c, 'd, 'w) actionConfigGetter"

definition ClientRestConfigMapper ::
  "('c, 'w) ObjectToRestConfigMapper option \<Rightarrow> ('c, 'd, 'w) ActionConfigGetterOption" where
  "ClientRestConfigMapper f getter = getter\<lparr>ag_objectToClientRestConfig := f\<rparr>"

definition ClientNamespaceMapper ::
  "'w ObjectToStringMapper option \<Rightarrow> ('c, 'd, 'w) ActionConfigGetterOption" where
  "ClientNamespaceMapper m getter = getter\<lparr>ag_objectToClientNamespace := m\<rparr>"

definition StorageRestConfigMapper ::
  "('c, 'w) ObjectToRestConfigMapper option \<Rightarrow> ('c, 'd, 'w) ActionConfigGetterOption" where
  "StorageRestConfigMapper f getter = getter\<lparr>ag_objectToStorageRestConfig := f\<rparr>"

definition StorageDriverMapper ::
  "('c, 'd, 'w) ObjectToStorageDriverMapper option \<Rightarrow> ('c, 'd, 'w) ActionConfigGetterOption" where
  "StorageDriverMapper f getter = getter\<lparr>ag_objectToStorageDriver := f\<rparr>"

definition StorageNamespaceMapper ::
  "'w ObjectToStringMapper option \<Rightarrow> ('c, 'd, 'w) ActionConfigGetterOption" where
  "StorageNamespaceMapper m getter = getter\<lparr>ag_objectToStorageNamespace := m\<rparr>"

definition DisableStorageOwnerRefInjection :: "bool \<Rightarrow> ('c, 'd, 'w) ActionConfigGetterOption" where
  "DisableStorageOwnerRefInjection v getter = getter\<lparr>ag_disableStorageOwnerRefInjection := v\<rparr>"

definition RestConfigMapper ::
  "('c, 'w) ObjectToRestConfigMapper option \<Rightarrow> ('c, 'd, 'w) ActionConfigGetterOption" where
  "RestConfigMapper f getter =
     getter\<lparr>ag_objectToClientRestConfig := f, ag_objectToStorageRestConfig := f\<rparr>"

definition copy_base_config :: "('c, 'w) ObjectToRestConfigMapper" where
  "copy_base_config obj baseRestConfig w = (Inr baseRestConfig, w)"

abbreviation or_default :: "'a option \<Rightarrow> 'a \<Rightarrow> 'a option" where
  "or_default x d \<equiv> (case x of None \<Rightarrow> Some d | Some y \<Rightarrow> Some y)"

definition fill_getter ::
  "('c, 'd, 'w) storage_lib \<Rightarrow> ('c, 'd, 'w) actionConfigGetter \<Rightarrow> ('c, 'd, 'w) actionConfigGetter" where
  "fill_getter S acg0 =
     (let acg1 = acg0\<lparr>ag_objectToClientNamespace := or_default (ag_objectToClientNamespace acg0) getObjectNamespace\<rparr>;
          acg2 = acg1\<lparr>ag_objectToClientRestConfig := or_default (ag_objectToClientRestConfig acg1) copy_base_config\<rparr>;
          acg3 = acg2\<lparr>ag_objectToStorageRestConfig := or_default (ag_objectToStorageRestConfig acg2) copy_base_config\<rparr>
      in (case ag_objectToStorageDriver acg3 of
            Some _ \<Rightarrow> acg3
          | None \<Rightarrow>
              let ns = or_default (ag_objectToStorageNamespace acg3) getObjectNamespace
              in acg3\<lparr>ag_objectToStorageNamespace := ns,
                      ag_objectToStorageDriver := Some (DefaultSecretsStorageDriver S
                        \<lparr>so_DisableOwnerRefInjection = ag_disableStorageOwnerRefInjection acg3,
                         so_StorageNamespaceMapper = ns\<rparr>)\<rparr>))"

text \<open>\<open>discovery\<close> is the error of making the discovery client.\<close>

definition NewActionConfigGetter ::
  "('c, 'd, 'w) storage_lib \<Rightarrow> ('c \<Rightarrow> go_error option) \<Rightarrow> 'c \<Rightarrow> (gvk \<Rightarrow> go_error + rest_scope)
     \<Rightarrow> ('c, 'd, 'w) ActionConfigGetterOption list \<Rightarrow> go_error + ('c, 'd, 'w) actionConfigGetter" where
  "NewActionConfigGetter S discovery baseRestConfig rm opts =
     (case discovery baseRestConfig of
        Some e \<Rightarrow> Inl (ErrMsg (''create discovery client: '' @ error_text e))
      | None \<Rightarrow> Inr (fill_getter S (fold (\<lambda>o1 acg0. o1 acg0) opts
          \<lparr>ag_baseRestConfig = baseRestConfig, ag_restMapper = rm,
           ag_discoveryClient = MemCacheClient baseRestConfig, ag_objectToClientRestConfig = None,
           ag_objectToClientNamespace = None, ag_objectToStorageRestConfig = None,
           ag_objectToStorageDriver = None, ag_objectToStorageNamespace = None,
           ag_disableStorageOwnerRefInjection = False\<rparr>)))"

section \<open>The configuration for a resource\<close>

text \<open>
  An \<open>action.Configuration\<close>: the REST client getter, the storage over a driver, and the
  namespace of the kube client, which is made from the same getter.
\<close>

record ('c, 'd) configuration =
  ac_RESTClientGetter :: "'c namespacedRCG"
  ac_Releases :: 'd
  ac_KubeClient_namespace :: string

text \<open>A nil mapper is a panic; \<open>NewActionConfigGetter\<close> leaves none.\<close>

definition call_mapper :: "'a option \<Rightarrow> ('a \<Rightarrow> 'w \<Rightarrow> (go_error + 'b) \<times> 'w) \<Rightarrow> 'w \<Rightarrow> (go_error + 'b) exit \<times> 'w" where
  "call_mapper m g w =
     (case m of
        None \<Rightarrow> (Panic ''invalid memory address or nil pointer dereference'', w)
      | Some f \<Rightarrow> let (r, w') = g f w in (Ret r, w'))"

definition ActionConfigFor ::
  "('c, 'd, 'w) actionConfigGetter \<Rightarrow> unstructured \<Rightarrow> 'w \<Rightarrow> (go_error + ('c, 'd) configuration) exit \<times> 'w" where
  "ActionConfigFor acg0 obj w =
     (case call_mapper (ag_objectToClientRestConfig acg0) (\<lambda>f. f obj (ag_baseRestConfig acg0)) w of
        (Panic m, w1) \<Rightarrow> (Panic m, w1)
      | (Ret (Inl e), w1) \<Rightarrow> (Ret (Inl (ErrMsg (''get client rest config for object: '' @ error_text e))), w1)
      | (Ret (Inr clientRestConfig), w1) \<Rightarrow>
          (case call_mapper (ag_objectToClientNamespace acg0) (\<lambda>f. f obj) w1 of
             (Panic m, w2) \<Rightarrow> (Panic m, w2)
           | (Ret (Inl e), w2) \<Rightarrow> (Ret (Inl (ErrMsg (''get client namespace for object: '' @ error_text e))), w2)
           | (Ret (Inr clientNamespace), w2) \<Rightarrow>
               let clientRCG = newRESTClientGetter clientRestConfig (ag_restMapper acg0)
                                 (ag_discoveryClient acg0) clientNamespace
               in (case call_mapper (ag_objectToStorageRestConfig acg0) (\<lambda>f. f obj (ag_baseRestConfig acg0)) w2 of
                     (Panic m, w3) \<Rightarrow> (Panic m, w3)
                   | (Ret (Inl e), w3) \<Rightarrow>
                       (Ret (Inl (ErrMsg (''get storage rest config for object: '' @ error_text e))), w3)
                   | (Ret (Inr storageRestConfig), w3) \<Rightarrow>
                       (case call_mapper (ag_objectToStorageDriver acg0) (\<lambda>f. f obj storageRestConfig) w3 of
                          (Panic m, w4) \<Rightarrow> (Panic m, w4)
                        | (Ret (Inl e), w4) \<Rightarrow>
                            (Ret (Inl (ErrMsg (''get storage driver for object: '' @ error_text e))), w4)
                        | (Ret (Inr d), w4) \<Rightarrow>
                            (Ret (Inr \<lparr>ac_RESTClientGetter = clientRCG, ac_Releases = d,
                                       ac_KubeClient_namespace = clientNamespace\<rparr>), w4)))))"

section \<open>Lemmas\<close>

lemma call_mapper_Some [simp]: "call_mapper (Some f) g w = (let (r, w') = g f w in (Ret r, w'))"
  by (simp add: call_mapper_def)

text \<open>After \<open>NewActionConfigGetter\<close> no mapper is nil, so \<open>ActionConfigFor\<close> returns.\<close>

definition getter_complete :: "('c, 'd, 'w) actionConfigGetter \<Rightarrow> bool" where
  "getter_complete g \<longleftrightarrow> ag_objectToClientRestConfig g \<noteq> None \<and> ag_objectToClientNamespace g \<noteq> None
     \<and> ag_objectToStorageRestConfig g \<noteq> None \<and> ag_objectToStorageDriver g \<noteq> None"

lemma fill_getter_complete: "getter_complete (fill_getter S g)"
  by (simp add: fill_getter_def getter_complete_def Let_def split: option.splits)

lemma NewActionConfigGetter_complete:
  "NewActionConfigGetter S disc cfg rm opts = Inr g \<Longrightarrow> getter_complete g"
  by (auto simp: NewActionConfigGetter_def fill_getter_complete split: option.splits)

lemma ActionConfigFor_returns:
  assumes "getter_complete g"
  shows "\<exists>r w'. ActionConfigFor g obj w = (Ret r, w')"
  using assms
  by (auto simp: ActionConfigFor_def getter_complete_def Let_def call_mapper_def
      split: prod.splits sum.splits option.splits exit.splits)

lemma ActionConfigFor_driver:
  assumes "ActionConfigFor g obj w = (Ret (Inr cf), w')"
  obtains f cfg w1 where "ag_objectToStorageDriver g = Some f" and "f obj cfg w1 = (Inr (ac_Releases cf), w')"
  using assms
  by (auto simp: ActionConfigFor_def Let_def call_mapper_def
      split: prod.splits sum.splits option.splits exit.splits)

lemma owned_client_create:
  "sc_Create (NewOwnerRefSecretClient C refs (Some MatchAllSecrets)) s w = sc_Create C (appendMissingOwnerRefs refs s) w"
  "sc_Update (NewOwnerRefSecretClient C refs (Some MatchAllSecrets)) s w = sc_Update C (appendMissingOwnerRefs refs s) w"
  by (simp_all add: NewOwnerRefSecretClient_def ownerRef_Create_def ownerRef_Update_def
      ownerRef_prepare_def MatchAllSecrets_def)

lemma stored_as_appendMissing: "stored_as s (appendMissingOwnerRefs refs s)"
  using appendMissingOwnerRefs_frame [of refs s] by (auto simp: stored_as_def)

text \<open>An option that has nothing to do with the storage.\<close>

definition keeps_storage :: "('c, 'd, 'w) ActionConfigGetterOption \<Rightarrow> bool" where
  "keeps_storage opt \<longleftrightarrow> (\<forall>g. ag_objectToStorageDriver (opt g) = ag_objectToStorageDriver g
     \<and> ag_disableStorageOwnerRefInjection (opt g) = ag_disableStorageOwnerRefInjection g)"

lemma client_options_keep_storage:
  "keeps_storage (ClientRestConfigMapper f)" "keeps_storage (ClientNamespaceMapper m)"
  "keeps_storage (StorageRestConfigMapper f)" "keeps_storage (StorageNamespaceMapper m)"
  "keeps_storage (RestConfigMapper f)"
  by (simp_all add: keeps_storage_def ClientRestConfigMapper_def ClientNamespaceMapper_def
      StorageRestConfigMapper_def StorageNamespaceMapper_def RestConfigMapper_def)

lemma fold_keeps_storage:
  assumes "list_all keeps_storage opts"
  shows "ag_objectToStorageDriver (fold (\<lambda>o1 g. o1 g) opts g) = ag_objectToStorageDriver g
    \<and> ag_disableStorageOwnerRefInjection (fold (\<lambda>o1 g. o1 g) opts g) = ag_disableStorageOwnerRefInjection g"
  using assms by (induction opts arbitrary: g) (auto simp: keeps_storage_def)

lemma default_driver:
  assumes "NewActionConfigGetter S disc cfg rm opts = Inr g" and "list_all keeps_storage opts"
  obtains nsm where "ag_objectToStorageDriver g = Some (DefaultSecretsStorageDriver S
    \<lparr>so_DisableOwnerRefInjection = False, so_StorageNamespaceMapper = nsm\<rparr>)"
  using assms fold_keeps_storage [OF assms(2)]
  by (auto simp: NewActionConfigGetter_def fill_getter_def Let_def split: option.splits)

lemma default_driver_client:
  assumes "DefaultSecretsStorageDriver S \<lparr>so_DisableOwnerRefInjection = False, so_StorageNamespaceMapper = nsm\<rparr>
      obj cfg w = (Inr d, w')"
  obtains secrets ns where "st_NewForConfig S cfg = Inr secrets"
    and "d = st_NewSecrets S (NewOwnerRefSecretClient (secrets ns) [st_NewControllerRef S obj (u_gvk obj)]
               (Some MatchAllSecrets))"
  using assms
  by (auto simp: DefaultSecretsStorageDriver_def storage_client_def split: prod.splits sum.splits)

section \<open>What the clients of a resource share\<close>

text \<open>The options of the package.\<close>

inductive action_config_option :: "('c, 'd, 'w) ActionConfigGetterOption \<Rightarrow> bool" where
  "action_config_option (ClientRestConfigMapper f)"
| "action_config_option (ClientNamespaceMapper m)"
| "action_config_option (StorageRestConfigMapper f)"
| "action_config_option (StorageDriverMapper d)"
| "action_config_option (StorageNamespaceMapper m)"
| "action_config_option (DisableStorageOwnerRefInjection v)"
| "action_config_option (RestConfigMapper f)"

definition same_base :: "('c, 'd, 'w) actionConfigGetter \<Rightarrow> ('c, 'd, 'w) actionConfigGetter \<Rightarrow> bool" where
  "same_base g g' \<longleftrightarrow> ag_baseRestConfig g = ag_baseRestConfig g' \<and> ag_restMapper g = ag_restMapper g'
     \<and> ag_discoveryClient g = ag_discoveryClient g'"

lemma action_config_option_base: "action_config_option opt \<Longrightarrow> same_base (opt g) g"
  by (induction rule: action_config_option.induct)
     (simp_all add: same_base_def ClientRestConfigMapper_def ClientNamespaceMapper_def
       StorageRestConfigMapper_def StorageDriverMapper_def StorageNamespaceMapper_def
       DisableStorageOwnerRefInjection_def RestConfigMapper_def)

lemma fold_options_base: "list_all action_config_option opts \<Longrightarrow> same_base (fold (\<lambda>o1 g. o1 g) opts g) g"
proof (induction opts arbitrary: g)
  case Nil
  then show ?case by (simp add: same_base_def)
next
  case (Cons opt opts)
  from Cons.IH [of "opt g"] Cons.prems action_config_option_base [of opt g] show ?case
    by (simp add: same_base_def)
qed

lemma fill_getter_base: "same_base (fill_getter S g) g"
  by (simp add: same_base_def fill_getter_def Let_def split: option.split)

text \<open>
  Whatever the mappers say of one resource, its Helm client maps kinds and discovers the API with
  the clients of the base configuration; only the configuration and the namespace are its own.
\<close>

lemma ActionConfigFor_getter:
  assumes "NewActionConfigGetter S disc cfg rm opts = Inr g" and "list_all action_config_option opts"
    and "ActionConfigFor g obj w = (Ret (Inr cf), w')"
  shows "ToDiscoveryClient (ac_RESTClientGetter cf) = Inr (MemCacheClient cfg)"
    and "ToRESTMapper (ac_RESTClientGetter cf) = Inr rm"
    and "ncc_Namespace (ToRawKubeConfigLoader (ac_RESTClientGetter cf)) = (ac_KubeClient_namespace cf, False, None)"
proof -
  define g0 :: "('a, 'b, 'c) actionConfigGetter" where
    "g0 = \<lparr>ag_baseRestConfig = cfg, ag_restMapper = rm, ag_discoveryClient = MemCacheClient cfg,
       ag_objectToClientRestConfig = None, ag_objectToClientNamespace = None,
       ag_objectToStorageRestConfig = None, ag_objectToStorageDriver = None,
       ag_objectToStorageNamespace = None, ag_disableStorageOwnerRefInjection = False\<rparr>"
  have "g = fill_getter S (fold (\<lambda>o1 g. o1 g) opts g0)"
    using assms(1) by (auto simp: NewActionConfigGetter_def g0_def split: option.splits)
  with fill_getter_base [of S "fold (\<lambda>o1 g. o1 g) opts g0"] fold_options_base [OF assms(2), of g0]
  have "ag_restMapper g = rm" "ag_discoveryClient g = MemCacheClient cfg"
    by (simp_all add: same_base_def g0_def)
  with assms(3) show "ToDiscoveryClient (ac_RESTClientGetter cf) = Inr (MemCacheClient cfg)"
    and "ToRESTMapper (ac_RESTClientGetter cf) = Inr rm"
    and "ncc_Namespace (ToRawKubeConfigLoader (ac_RESTClientGetter cf)) = (ac_KubeClient_namespace cf, False, None)"
    by (auto simp: ActionConfigFor_def Let_def call_mapper_def newRESTClientGetter_def ToDiscoveryClient_def
        ToRESTMapper_def ncc_Namespace_def ToRawKubeConfigLoader_def
        split: prod.splits sum.splits option.splits exit.splits)
qed

section \<open>Properties\<close>

definition sample_storage_lib :: "(string, nat secret_client, nat) storage_lib" where
  "sample_storage_lib =
     \<lparr>st_NewForConfig = (\<lambda>cfg. Inr (\<lambda>ns.
        \<lparr>sc_Get = (\<lambda>n w. (Inl (ErrApi NotFound n), w)), sc_Create = (\<lambda>s w. (Inr s, w + 1)),
         sc_Update = (\<lambda>s w. (Inr s, w)), sc_DeleteCollection = (\<lambda>sel w. (None, w)),
         sc_List = (\<lambda>sel w. (Inr [], w))\<rparr>)),
      st_NewControllerRef = (\<lambda>obj g. \<lparr>or_api_version = gvk_version g, or_kind = gvk_kind g,
         or_name = u_name obj, or_uid = u_uid obj, or_controller = Some True,
         or_block_owner_deletion = Some True\<rparr>),
      st_NewSecrets = (\<lambda>C. C)\<rparr>"


definition sample_owner :: unstructured where
  "sample_owner =
     \<lparr>u_gvk = \<lparr>gvk_group = ''demo'', gvk_version = ''v1'', gvk_kind = ''Web''\<rparr>, u_name = ''web'',
      u_namespace = ''prod'', u_uid = ''42'', u_annotations = Map.empty, u_finalizers = [],
      u_deletion_timestamp = None, u_resource_version = [], u_owner_refs = [],
      u_managed_fields = None, u_spec = None, u_status = StAbsent, u_body = []\<rparr>"

definition sample_getter :: "(string, nat secret_client, nat) actionConfigGetter" where
  "sample_getter = projr (NewActionConfigGetter sample_storage_lib (\<lambda>c. None) ''cluster'' (\<lambda>g. Inr NamespaceScope)
     [ClientNamespaceMapper (Some (\<lambda>obj w. (Inr ''other'', w)))])"

definition plain_secret :: secret where
  "plain_secret = \<lparr>s_name = ''web.v1'', s_type = [], s_labels = Map.empty, s_owner_refs = [], s_uid = [],
     s_immutable = None, s_data = Map.empty\<rparr>"


end
