(* ===== verification/Setup.thy ===== *)
theory Setup
  imports Reconcile DependentWatcher ActionConfig
begin

text \<open>
  The configuration of a reconciler, \<open>pkg/reconciler/reconciler.go\<close> up to
  \<open>SetupWithManager\<close>: the options, \<open>New\<close>, the defaults and the watches, and how
  the result becomes the \<open>runtime\<close> that the loop works on. A nil field is \<open>None\<close>; the
  logger is left out.
\<close>

section \<open>The reconciler\<close>

type_synonym 'w ControllerSetupFunc = "'w controller \<Rightarrow> 'w \<Rightarrow> go_error option \<times> 'w"

record 'w reconciler =
  c_client :: "'w kube_client option"
  c_actionClientGetter :: "(unstructured \<Rightarrow> 'w \<Rightarrow> (go_error + 'w action_interface) \<times> 'w) option"
  c_valueTranslator :: "'w translator option"
  c_valueMapper :: "(vals \<Rightarrow> vals) option"
  c_eventRecorder :: "'w event_recorder option"
  c_preHooks :: "'w pre_hook list"
  c_postHooks :: "'w post_hook list"
  c_gvk :: "gvk option"
  c_chrt :: "chart option"
  c_labelSelector :: label_selector
  c_overrideValues :: "(string \<times> string) list"
  c_skipDependentWatches :: bool
  c_maxConcurrentReconciles :: int
  c_reconcilePeriod :: int
  c_waitForDeletionTimeout :: int
  c_maxReleaseHistory :: "int option"
  c_skipPrimaryGVKSchemeRegistration :: bool
  c_controllerSetupFuncs :: "'w ControllerSetupFunc list"
  c_pauseHandler :: "'w pause_handler option"
  c_annotations :: "string list"
  c_installAnnotations :: "(string \<times> 'w install_annotation) list"
  c_upgradeAnnotations :: "(string \<times> 'w upgrade_annotation) list"
  c_uninstallAnnotations :: "(string \<times> uninstall_annotation) list"

type_synonym 'w Option = "'w reconciler \<Rightarrow> go_error + 'w reconciler"

text \<open>The zero \<open>Reconciler\<close> after \<open>setupAnnotationMaps\<close>.\<close>

definition setupAnnotationMaps :: "'w reconciler" where
  "setupAnnotationMaps =
     \<lparr>c_client = None, c_actionClientGetter = None, c_valueTranslator = None, c_valueMapper = None,
      c_eventRecorder = None, c_preHooks = [], c_postHooks = [], c_gvk = None, c_chrt = None,
      c_labelSelector = \<lparr>ls_match_labels = [], ls_match_expressions = []\<rparr>, c_overrideValues = [],
      c_skipDependentWatches = False, c_maxConcurrentReconciles = 0, c_reconcilePeriod = 0,
      c_waitForDeletionTimeout = 0, c_maxReleaseHistory = None,
      c_skipPrimaryGVKSchemeRegistration = False, c_controllerSetupFuncs = [], c_pauseHandler = None,
      c_annotations = [], c_installAnnotations = [], c_upgradeAnnotations = [],
      c_uninstallAnnotations = []\<rparr>"

section \<open>Options\<close>

definition WithClient :: "'w kube_client \<Rightarrow> 'w Option" where
  "WithClient cl r = Inr (r\<lparr>c_client := Some cl\<rparr>)"

definition WithActionClientGetter ::
  "(unstructured \<Rightarrow> 'w \<Rightarrow> (go_error + 'w action_interface) \<times> 'w) \<Rightarrow> 'w Option" where
  "WithActionClientGetter getter r = Inr (r\<lparr>c_actionClientGetter := Some getter\<rparr>)"

definition WithEventRecorder :: "'w event_recorder \<Rightarrow> 'w Option" where
  "WithEventRecorder er r = Inr (r\<lparr>c_eventRecorder := Some er\<rparr>)"

definition WithGroupVersionKind :: "gvk \<Rightarrow> 'w Option" where
  "WithGroupVersionKind g r = Inr (r\<lparr>c_gvk := Some g\<rparr>)"

definition WithChart :: "chart \<Rightarrow> 'w Option" where
  "WithChart chrt r = Inr (r\<lparr>c_chrt := Some chrt\<rparr>)"

text \<open>The overrides are tried out on a resource with an empty spec.\<close>

definition WithOverrideValues :: "value_lib \<Rightarrow> (string \<times> string) list \<Rightarrow> 'w Option" where
  "WithOverrideValues V overrides r =
     (let obj = (new_object \<lparr>gvk_group = [], gvk_version = [], gvk_kind = []\<rparr>)\<lparr>u_spec := Some (JObj [])\<rparr>
      in (case ApplyOverrides V overrides obj of
            (Some e, _) \<Rightarrow> Inl e
          | (None, _) \<Rightarrow> Inr (r\<lparr>c_overrideValues := overrides\<rparr>)))"

definition SkipDependentWatches :: "bool \<Rightarrow> 'w Option" where
  "SkipDependentWatches skip r = Inr (r\<lparr>c_skipDependentWatches := skip\<rparr>)"

definition SkipPrimaryGVKSchemeRegistration :: "bool \<Rightarrow> 'w Option" where
  "SkipPrimaryGVKSchemeRegistration skip r = Inr (r\<lparr>c_skipPrimaryGVKSchemeRegistration := skip\<rparr>)"

definition WithMaxConcurrentReconciles :: "int \<Rightarrow> 'w Option" where
  "WithMaxConcurrentReconciles v r =
     (if v < 1 then Inl (ErrMsg ''maxConcurrentReconciles must be at least 1'')
      else Inr (r\<lparr>c_maxConcurrentReconciles := v\<rparr>))"

definition WithWaitForDeletionTimeout :: "int \<Rightarrow> 'w Option" where
  "WithWaitForDeletionTimeout timeout r =
     (if timeout \<le> 0 then Inl (ErrMsg ''wait for deletion timeout must be a positive value'')
      else Inr (r\<lparr>c_waitForDeletionTimeout := timeout\<rparr>))"

definition WithReconcilePeriod :: "int \<Rightarrow> 'w Option" where
  "WithReconcilePeriod rp r =
     (if rp < 0 then Inl (ErrMsg ''reconcile period must not be negative'')
      else Inr (r\<lparr>c_reconcilePeriod := rp\<rparr>))"

definition WithMaxReleaseHistory :: "int \<Rightarrow> 'w Option" where
  "WithMaxReleaseHistory maxHistory r =
     (if maxHistory < 0 then Inl (ErrMsg ''maximum Helm release history size must not be negative'')
      else Inr (r\<lparr>c_maxReleaseHistory := Some maxHistory\<rparr>))"

text \<open>
  The three loops over annotations: a name that any of the three maps has is refused, and the
  map of all names gets it. \<open>add\<close> writes one of the maps.
\<close>

fun add_annotations ::
  "('a \<Rightarrow> string) \<Rightarrow> (string \<times> 'a \<Rightarrow> 'w reconciler \<Rightarrow> 'w reconciler) \<Rightarrow> 'a list \<Rightarrow> 'w Option" where
  "add_annotations nm add [] r = Inr r"
| "add_annotations nm add (a # as) r =
     (if nm a \<in> set (c_annotations r)
      then Inl (ErrMsg (''annotation '' @ quoted (nm a) @ '' already exists''))
      else add_annotations nm add as (add (nm a, a) (r\<lparr>c_annotations := c_annotations r @ [nm a]\<rparr>)))"

definition add_install :: "string \<times> 'w install_annotation \<Rightarrow> 'w reconciler \<Rightarrow> 'w reconciler" where
  "add_install na r = r\<lparr>c_installAnnotations := c_installAnnotations r @ [na]\<rparr>"

definition add_upgrade :: "string \<times> 'w upgrade_annotation \<Rightarrow> 'w reconciler \<Rightarrow> 'w reconciler" where
  "add_upgrade na r = r\<lparr>c_upgradeAnnotations := c_upgradeAnnotations r @ [na]\<rparr>"

definition add_uninstall :: "string \<times> uninstall_annotation \<Rightarrow> 'w reconciler \<Rightarrow> 'w reconciler" where
  "add_uninstall na r = r\<lparr>c_uninstallAnnotations := c_uninstallAnnotations r @ [na]\<rparr>"

definition WithInstallAnnotations :: "'w install_annotation list \<Rightarrow> 'w Option" where
  "WithInstallAnnotations as r = add_annotations inst_Name add_install as r"

definition WithUpgradeAnnotations :: "'w upgrade_annotation list \<Rightarrow> 'w Option" where
  "WithUpgradeAnnotations as r = add_annotations up_Name add_upgrade as r"

definition WithUninstallAnnotations :: "uninstall_annotation list \<Rightarrow> 'w Option" where
  "WithUninstallAnnotations as r = add_annotations un_Name add_uninstall as r"

definition WithPauseReconcileHandler :: "'w pause_handler \<Rightarrow> 'w Option" where
  "WithPauseReconcileHandler handler r = Inr (r\<lparr>c_pauseHandler := Some handler\<rparr>)"

definition PauseReconcileIfAnnotationTrue :: "string \<Rightarrow> 'w pause_handler" where
  "PauseReconcileIfAnnotationTrue annotationName obj w =
     (((u_annotations obj annotationName = Some ''true'', None), obj), w)"

definition WithPreHook :: "'w pre_hook \<Rightarrow> 'w Option" where
  "WithPreHook h r = Inr (r\<lparr>c_preHooks := c_preHooks r @ [h]\<rparr>)"

definition WithPostHook :: "'w post_hook \<Rightarrow> 'w Option" where
  "WithPostHook h r = Inr (r\<lparr>c_postHooks := c_postHooks r @ [h]\<rparr>)"

definition WithValueTranslator :: "'w translator \<Rightarrow> 'w Option" where
  "WithValueTranslator t r = Inr (r\<lparr>c_valueTranslator := Some t\<rparr>)"

definition WithValueMapper :: "(vals \<Rightarrow> vals) \<Rightarrow> 'w Option" where
  "WithValueMapper m r = Inr (r\<lparr>c_valueMapper := Some m\<rparr>)"

definition WithSelector :: "label_selector \<Rightarrow> 'w Option" where
  "WithSelector s r = Inr (r\<lparr>c_labelSelector := s\<rparr>)"

definition WithControllerSetupFunc :: "'w ControllerSetupFunc \<Rightarrow> 'w Option" where
  "WithControllerSetupFunc f r = Inr (r\<lparr>c_controllerSetupFuncs := c_controllerSetupFuncs r @ [f]\<rparr>)"

section \<open>New\<close>

definition validate :: "'w reconciler \<Rightarrow> go_error option" where
  "validate r =
     (if c_gvk r = None then Some (ErrMsg ''gvk must not be nil'')
      else if c_chrt r = None then Some (ErrMsg ''chart must not be nil'')
      else None)"

definition New_reconciler :: "'w Option list \<Rightarrow> go_error + 'w reconciler" where
  "New_reconciler opts =
     (case run_options opts setupAnnotationMaps of
        Inl e \<Rightarrow> Inl e
      | Inr r \<Rightarrow> (case validate r of Some e \<Rightarrow> Inl e | None \<Rightarrow> Inr r))"

section \<open>The manager\<close>

text \<open>
  What the code uses of \<open>ctrl.Manager\<close>, of the controller constructor and of label
  selectors, and the libraries that the default action client needs. The map of the dependent
  watcher lives in the world: \<open>mgr_watches\<close> and \<open>mgr_set_watches\<close> read and write it.
\<close>

record ('c, 'd, 'w) manager =
  mgr_GetClient :: "'w kube_client"
  mgr_GetConfig :: 'c
  mgr_GetRESTMapper :: "gvk \<Rightarrow> go_error + rest_scope"
  mgr_GetEventRecorderFor :: "string \<Rightarrow> 'w event_recorder"
  mgr_NewController :: "string \<Rightarrow> int \<Rightarrow> 'w \<Rightarrow> (go_error + 'w controller) \<times> 'w"
  mgr_AddKnownTypeWithName :: "gvk \<Rightarrow> 'w \<Rightarrow> 'w"
  mgr_AddToGroupVersion :: "string \<times> string \<Rightarrow> 'w \<Rightarrow> 'w"
  mgr_selector_Size :: "label_selector \<Rightarrow> int"
  mgr_check_selector :: "label_selector \<Rightarrow> go_error option"
  mgr_manifest_lib :: manifest_lib
  mgr_watches :: "'w \<Rightarrow> gvk set"
  mgr_set_watches :: "gvk set \<Rightarrow> 'w \<Rightarrow> 'w"
  mgr_storage_lib :: "('c, 'd, 'w) storage_lib"
  mgr_discovery :: "'c \<Rightarrow> go_error option"
  mgr_helm :: "('c, 'd) configuration \<Rightarrow> 'w helm"
  mgr_pr_lib :: pr_lib
  mgr_patch_lib :: patch_lib

section \<open>Defaults\<close>

text \<open>
  The action configuration as the action client getter sees it. A getter made by
  \<open>NewActionConfigGetter\<close> has no nil mapper, so the last case does not arise.
\<close>

definition config_for ::
  "(('c, 'd) configuration \<Rightarrow> 'w helm) \<Rightarrow> ('c, 'd, 'w) actionConfigGetter \<Rightarrow> unstructured \<Rightarrow> 'w
     \<Rightarrow> (go_error + 'w action_config) \<times> 'w" where
  "config_for helm_of acg0 obj w =
     (case ActionConfigFor acg0 obj w of
        (Ret (Inl e), w1) \<Rightarrow> (Inl e, w1)
      | (Ret (Inr cf), w1) \<Rightarrow>
          (Inr \<lparr>cfg_helm = helm_of cf, cfg_ToRESTMapper = ToRESTMapper (ac_RESTClientGetter cf)\<rparr>, w1)
      | (Panic m, w1) \<Rightarrow> (Inl (ErrMsg m), w1))"

definition default_getter ::
  "('c, 'd, 'w) manager \<Rightarrow> go_error + (unstructured \<Rightarrow> 'w \<Rightarrow> (go_error + 'w action_interface) \<times> 'w)" where
  "default_getter mgr =
     (case NewActionConfigGetter (mgr_storage_lib mgr) (mgr_discovery mgr) (mgr_GetConfig mgr)
             (mgr_GetRESTMapper mgr) [] of
        Inl e \<Rightarrow> Inl (ErrWrap ''creating action config getter: '' e)
      | Inr acg0 \<Rightarrow>
          (case NewActionClientGetter (config_for (mgr_helm mgr) acg0) [] of
             Inl e \<Rightarrow> Inl (ErrMsg (''creating action client getter: '' @ error_text e))
           | Inr hcg \<Rightarrow>
               Inr (\<lambda>obj w. case ActionClientFor (mgr_pr_lib mgr) hcg obj w of
                      (Inl e, w1) \<Rightarrow> (Inl e, w1)
                    | (Inr c, w1) \<Rightarrow> (Inr (action_interface_of (mgr_patch_lib mgr) c), w1))))"

definition set_default :: "'a \<Rightarrow> 'a option \<Rightarrow> 'a option" where
  "set_default d x = (case x of None \<Rightarrow> Some d | Some y \<Rightarrow> Some y)"

definition addDefaults ::
  "('c, 'd, 'w) manager \<Rightarrow> string \<Rightarrow> 'w reconciler \<Rightarrow> go_error option \<times> 'w reconciler" where
  "addDefaults mgr controllerName r =
     (let r1 = r\<lparr>c_client := set_default (mgr_GetClient mgr) (c_client r)\<rparr>
      in (case (case c_actionClientGetter r1 of Some g \<Rightarrow> Inr g | None \<Rightarrow> default_getter mgr) of
            Inl e \<Rightarrow> (Some e, r1)
          | Inr g \<Rightarrow>
              (None, r1\<lparr>c_actionClientGetter := Some g,
                 c_eventRecorder := set_default (mgr_GetEventRecorderFor mgr controllerName) (c_eventRecorder r),
                 c_valueTranslator := set_default (\<lambda>u w. ((DefaultTranslator u, u), w)) (c_valueTranslator r),
                 c_valueMapper := set_default DefaultMapper (c_valueMapper r),
                 c_waitForDeletionTimeout :=
                   (if c_waitForDeletionTimeout r = 0 then DefaultWaitForDeletionTimeout
                    else c_waitForDeletionTimeout r),
                 c_maxReleaseHistory := set_default DefaultMaxReleaseHistory (c_maxReleaseHistory r)\<rparr>)))"

section \<open>Watches\<close>

definition setupScheme :: "('c, 'd, 'w) manager \<Rightarrow> gvk \<Rightarrow> 'w \<Rightarrow> 'w" where
  "setupScheme mgr g w =
     mgr_AddToGroupVersion mgr (gvk_group g, gvk_version g) (mgr_AddKnownTypeWithName mgr g w)"

definition secretGVK :: gvk where
  "secretGVK = \<lparr>gvk_group = [], gvk_version = ''v1'', gvk_kind = ''Secret''\<rparr>"

definition primary_source :: "gvk \<Rightarrow> watch_predicate list \<Rightarrow> watch_source" where
  "primary_source g preds = \<lparr>ws_gvk = g, ws_handler = EnqueueRequestForObject, ws_predicates = preds\<rparr>"

definition secret_source :: "gvk \<Rightarrow> watch_predicate list \<Rightarrow> watch_source" where
  "secret_source g preds = \<lparr>ws_gvk = secretGVK, ws_handler = EnqueueRequestForOwner g, ws_predicates = preds\<rparr>"

text \<open>The watcher as a post-hook: its map is read before and written after each release.\<close>

definition watcher_hook ::
  "('c, 'd, 'w) manager \<Rightarrow> 'w dependentResourceWatcher \<Rightarrow> 'w post_hook" where
  "watcher_hook mgr d owner rel w =
     (let (err, ws, w') = watcher_Exec d owner rel (mgr_watches mgr w, w)
      in ((err, owner), mgr_set_watches mgr ws w'))"

definition setupWatches ::
  "('c, 'd, 'w) manager \<Rightarrow> 'w controller \<Rightarrow> gvk \<Rightarrow> 'w reconciler \<Rightarrow> 'w
     \<Rightarrow> (go_error option \<times> 'w reconciler) \<times> 'w" where
  "setupWatches mgr c g r w =
     (case (if mgr_selector_Size mgr (c_labelSelector r) > 0
            then (case mgr_check_selector mgr (c_labelSelector r) of
                    Some e \<Rightarrow> Inl e | None \<Rightarrow> Inr [LabelSelectorPredicate (c_labelSelector r)])
            else Inr []) of
        Inl e \<Rightarrow> ((Some e, r), w)
      | Inr preds \<Rightarrow>
          (case ctl_Watch c (primary_source g preds) w of
             (Some e, w1) \<Rightarrow> ((Some e, r), w1)
           | (None, w1) \<Rightarrow>
               (case ctl_Watch c (secret_source g preds) w1 of
                  (Some e, w2) \<Rightarrow> ((Some e, r), w2)
                | (None, w2) \<Rightarrow>
                    if \<not> c_skipDependentWatches r
                    then let (d, watches) = NewDependentResourceWatcher c (mgr_GetRESTMapper mgr) (mgr_manifest_lib mgr)
                         in ((None, r\<lparr>c_postHooks := watcher_hook mgr d # c_postHooks r\<rparr>),
                             mgr_set_watches mgr watches w2)
                    else ((None, r), w2))))"

fun run_setup_funcs :: "'w controller \<Rightarrow> 'w ControllerSetupFunc list \<Rightarrow> 'w \<Rightarrow> go_error option \<times> 'w" where
  "run_setup_funcs c [] w = (None, w)"
| "run_setup_funcs c (f # fs) w =
     (case f c w of
        (Some e, w1) \<Rightarrow>
          (Some (ErrMsg (''failed to execute custom controller setup function: '' @ error_text e)), w1)
      | (None, w1) \<Rightarrow> run_setup_funcs c fs w1)"

definition SetupWithManager ::
  "('c, 'd, 'w) manager \<Rightarrow> 'w reconciler \<Rightarrow> 'w \<Rightarrow> (go_error option exit \<times> 'w reconciler) \<times> 'w" where
  "SetupWithManager mgr r w =
     (case c_gvk r of
        None \<Rightarrow> ((nil_deref, r), w)
      | Some g \<Rightarrow>
          let controllerName = ToLower (gvk_kind g) @ ''-controller''
          in (case addDefaults mgr controllerName r of
                (Some e, r1) \<Rightarrow> ((Ret (Some e), r1), w)
              | (None, r1) \<Rightarrow>
                  let w1 = (if \<not> c_skipPrimaryGVKSchemeRegistration r1 then setupScheme mgr g w else w)
                  in (case mgr_NewController mgr controllerName (c_maxConcurrentReconciles r1) w1 of
                        (Inl e, w2) \<Rightarrow> ((Ret (Some e), r1), w2)
                      | (Inr c, w2) \<Rightarrow>
                          (case setupWatches mgr c g r1 w2 of
                             ((Some e, r2), w3) \<Rightarrow> ((Ret (Some e), r2), w3)
                           | ((None, r2), w3) \<Rightarrow>
                               let (err, w4) = run_setup_funcs c (c_controllerSetupFuncs r2) w3
                               in ((Ret err, r2), w4)))))"

text \<open>What the loop works on, once nothing that it needs is nil.\<close>

definition runtime_of :: "'w reconciler \<Rightarrow> 'w runtime option" where
  "runtime_of r =
     (case (c_client r, c_actionClientGetter r, c_valueTranslator r, c_valueMapper r, c_eventRecorder r,
            c_gvk r, c_chrt r, c_maxReleaseHistory r) of
        (Some cl, Some acg0, Some tr, Some mp, Some er, Some g, Some ch, Some mh) \<Rightarrow>
          Some \<lparr>rt_client = cl, rt_actionClientGetter = acg0, rt_valueTranslator = tr, rt_valueMapper = mp,
                rt_eventRecorder = er, rt_preHooks = c_preHooks r, rt_postHooks = c_postHooks r, rt_gvk = g,
                rt_chrt = ch, rt_overrideValues = c_overrideValues r, rt_reconcilePeriod = c_reconcilePeriod r,
                rt_waitForDeletionTimeout = c_waitForDeletionTimeout r, rt_maxReleaseHistory = mh,
                rt_pauseHandler = c_pauseHandler r, rt_installAnnotations = c_installAnnotations r,
                rt_upgradeAnnotations = c_upgradeAnnotations r,
                rt_uninstallAnnotations = c_uninstallAnnotations r\<rparr>
      | _ \<Rightarrow> None)"

end
