(* ===== verification/SetupProps.thy ===== *)
theory SetupProps
  imports Setup WatcherProps
begin

text \<open>
  What a configured reconciler looks like: the invariant of \<open>New\<close> over any options, and
  that \<open>SetupWithManager\<close> leaves nothing nil that the loop reads.
\<close>

section \<open>The options as one family\<close>

inductive reconciler_option :: "value_lib \<Rightarrow> 'w Option \<Rightarrow> bool" for V where
  "reconciler_option V (WithClient cl)"
| "reconciler_option V (WithActionClientGetter g)"
| "reconciler_option V (WithEventRecorder er)"
| "reconciler_option V (WithGroupVersionKind g)"
| "reconciler_option V (WithChart ch)"
| "reconciler_option V (WithOverrideValues V ov)"
| "reconciler_option V (SkipDependentWatches b)"
| "reconciler_option V (SkipPrimaryGVKSchemeRegistration b)"
| "reconciler_option V (WithMaxConcurrentReconciles n)"
| "reconciler_option V (WithWaitForDeletionTimeout t)"
| "reconciler_option V (WithReconcilePeriod t)"
| "reconciler_option V (WithMaxReleaseHistory n)"
| "reconciler_option V (WithInstallAnnotations ias)"
| "reconciler_option V (WithUpgradeAnnotations uas)"
| "reconciler_option V (WithUninstallAnnotations nas)"
| "reconciler_option V (WithPauseReconcileHandler h)"
| "reconciler_option V (WithPreHook pre)"
| "reconciler_option V (WithPostHook post)"
| "reconciler_option V (WithValueTranslator tr)"
| "reconciler_option V (WithValueMapper mp)"
| "reconciler_option V (WithSelector sel)"
| "reconciler_option V (WithControllerSetupFunc f)"

lemmas option_defs =
  WithClient_def WithActionClientGetter_def WithEventRecorder_def WithGroupVersionKind_def
  WithChart_def WithOverrideValues_def SkipDependentWatches_def SkipPrimaryGVKSchemeRegistration_def
  WithMaxConcurrentReconciles_def WithWaitForDeletionTimeout_def WithReconcilePeriod_def
  WithMaxReleaseHistory_def WithPauseReconcileHandler_def WithPreHook_def WithPostHook_def
  WithValueTranslator_def WithValueMapper_def WithSelector_def WithControllerSetupFunc_def

lemmas annotation_option_defs =
  WithInstallAnnotations_def WithUpgradeAnnotations_def WithUninstallAnnotations_def

lemmas add_defs = add_install_def add_upgrade_def add_uninstall_def

section \<open>The invariant\<close>

definition annotation_names :: "'w reconciler \<Rightarrow> string list" where
  "annotation_names r = map fst (c_installAnnotations r) @ map fst (c_upgradeAnnotations r)
     @ map fst (c_uninstallAnnotations r)"

definition annotations_wf :: "'w reconciler \<Rightarrow> bool" where
  "annotations_wf r \<longleftrightarrow> set (annotation_names r) = set (c_annotations r) \<and> distinct (annotation_names r)
     \<and> (\<forall>(n, a) \<in> set (c_installAnnotations r). n = inst_Name a)
     \<and> (\<forall>(n, a) \<in> set (c_upgradeAnnotations r). n = up_Name a)
     \<and> (\<forall>(n, a) \<in> set (c_uninstallAnnotations r). n = un_Name a)"

definition settings_wf :: "'w reconciler \<Rightarrow> bool" where
  "settings_wf r \<longleftrightarrow> 0 \<le> c_maxConcurrentReconciles r \<and> 0 \<le> c_reconcilePeriod r
     \<and> 0 \<le> c_waitForDeletionTimeout r \<and> (\<forall>n. c_maxReleaseHistory r = Some n \<longrightarrow> 0 \<le> n)"

text \<open>The other fields do not matter.\<close>

lemma annotations_wf_updates [simp]:
  "annotations_wf (r\<lparr>c_client := x0\<rparr>) = annotations_wf r"
  "annotations_wf (r\<lparr>c_actionClientGetter := x1\<rparr>) = annotations_wf r"
  "annotations_wf (r\<lparr>c_valueTranslator := x2\<rparr>) = annotations_wf r"
  "annotations_wf (r\<lparr>c_valueMapper := x3\<rparr>) = annotations_wf r"
  "annotations_wf (r\<lparr>c_eventRecorder := x4\<rparr>) = annotations_wf r"
  "annotations_wf (r\<lparr>c_preHooks := x5\<rparr>) = annotations_wf r"
  "annotations_wf (r\<lparr>c_postHooks := x6\<rparr>) = annotations_wf r"
  "annotations_wf (r\<lparr>c_gvk := x7\<rparr>) = annotations_wf r"
  "annotations_wf (r\<lparr>c_chrt := x8\<rparr>) = annotations_wf r"
  "annotations_wf (r\<lparr>c_labelSelector := x9\<rparr>) = annotations_wf r"
  "annotations_wf (r\<lparr>c_overrideValues := x10\<rparr>) = annotations_wf r"
  "annotations_wf (r\<lparr>c_skipDependentWatches := x11\<rparr>) = annotations_wf r"
  "annotations_wf (r\<lparr>c_maxConcurrentReconciles := x12\<rparr>) = annotations_wf r"
  "annotations_wf (r\<lparr>c_reconcilePeriod := x13\<rparr>) = annotations_wf r"
  "annotations_wf (r\<lparr>c_waitForDeletionTimeout := x14\<rparr>) = annotations_wf r"
  "annotations_wf (r\<lparr>c_maxReleaseHistory := x15\<rparr>) = annotations_wf r"
  "annotations_wf (r\<lparr>c_skipPrimaryGVKSchemeRegistration := x16\<rparr>) = annotations_wf r"
  "annotations_wf (r\<lparr>c_controllerSetupFuncs := x17\<rparr>) = annotations_wf r"
  "annotations_wf (r\<lparr>c_pauseHandler := x18\<rparr>) = annotations_wf r"
  by (simp_all add: annotations_wf_def annotation_names_def)

lemma add_annotations_keeps:
  assumes "add_annotations nm add as r = Inr r'" and "P r"
    and "\<And>a x. a \<in> set as \<Longrightarrow> nm a \<notin> set (c_annotations x) \<Longrightarrow> P x \<Longrightarrow>
           P (add (nm a, a) (x\<lparr>c_annotations := c_annotations x @ [nm a]\<rparr>))"
  shows "P r'"
  using assms
proof (induction as arbitrary: r)
  case Nil
  then show ?case by simp
next
  case (Cons a as)
  then show ?case by (auto split: if_splits)
qed

lemma option_keeps_settings:
  assumes "reconciler_option V opt" and "opt r = Inr r'" and "settings_wf r"
  shows "settings_wf r'"
  using assms
  by (cases rule: reconciler_option.cases)
     (auto simp: option_defs annotation_option_defs settings_wf_def add_defs Let_def
        split: if_splits option.splits prod.splits elim!: add_annotations_keeps)

lemma option_keeps_annotations:
  assumes "reconciler_option V opt" and "opt r = Inr r'" and "annotations_wf r"
  shows "annotations_wf r'"
proof -
  have ann: "annotations_wf r'"
    if "add_annotations nm add as r = Inr r'"
      and "\<And>a x. a \<in> set as \<Longrightarrow> nm a \<notin> set (c_annotations x) \<Longrightarrow> annotations_wf x \<Longrightarrow>
           annotations_wf (add (nm a, a) (x\<lparr>c_annotations := c_annotations x @ [nm a]\<rparr>))"
    for nm :: "'z \<Rightarrow> string" and add as
    using add_annotations_keeps [of nm add as r r' annotations_wf] that assms(3) by blast
  show ?thesis
    using assms(1)
  proof cases
    case (13 ias)
    with assms(2) show ?thesis
      by (intro ann [of inst_Name add_install ias])
         (auto simp: annotation_option_defs annotations_wf_def annotation_names_def add_defs)
  next
    case (14 uas)
    with assms(2) show ?thesis
      by (intro ann [of up_Name add_upgrade uas])
         (auto simp: annotation_option_defs annotations_wf_def annotation_names_def add_defs)
  next
    case (15 nas)
    with assms(2) show ?thesis
      by (intro ann [of un_Name add_uninstall nas])
         (auto simp: annotation_option_defs annotations_wf_def annotation_names_def add_defs)
  qed (use assms(2,3) in \<open>auto simp: option_defs Let_def split: if_splits option.splits prod.splits\<close>)
qed

lemma setup_maps_wf: "annotations_wf setupAnnotationMaps" "settings_wf setupAnnotationMaps"
  by (simp_all add: setupAnnotationMaps_def annotations_wf_def annotation_names_def settings_wf_def)

lemma New_reconciler_wf:
  assumes "New_reconciler opts = Inr r" and "list_all (reconciler_option V) opts"
  shows "annotations_wf r" and "settings_wf r" and "c_gvk r \<noteq> None" and "c_chrt r \<noteq> None"
proof -
  from assms(1) have run: "run_options opts setupAnnotationMaps = Inr r" and v: "validate r = None"
    by (auto simp: New_reconciler_def split: sum.splits option.splits)
  from v show "c_gvk r \<noteq> None" and "c_chrt r \<noteq> None" by (auto simp: validate_def split: if_splits)
  from assms(2) have ok: "\<And>opt. opt \<in> set opts \<Longrightarrow> reconciler_option V opt" by (simp add: list_all_iff)
  show "annotations_wf r"
    by (rule run_options_invariant [OF run, of annotations_wf])
       (use setup_maps_wf ok option_keeps_annotations in blast)+
  show "settings_wf r"
    by (rule run_options_invariant [OF run, of settings_wf])
       (use setup_maps_wf ok option_keeps_settings in blast)+
qed

section \<open>Setting up\<close>

lemma addDefaults_form:
  assumes "addDefaults mgr nm r = (None, r1)"
  obtains g where "c_actionClientGetter r = Some g \<or> default_getter mgr = Inr g"
    and "r1 = r\<lparr>c_client := set_default (mgr_GetClient mgr) (c_client r), c_actionClientGetter := Some g,
      c_eventRecorder := set_default (mgr_GetEventRecorderFor mgr nm) (c_eventRecorder r),
      c_valueTranslator := set_default (\<lambda>u w. ((DefaultTranslator u, u), w)) (c_valueTranslator r),
      c_valueMapper := set_default DefaultMapper (c_valueMapper r),
      c_waitForDeletionTimeout := (if c_waitForDeletionTimeout r = 0 then DefaultWaitForDeletionTimeout
        else c_waitForDeletionTimeout r),
      c_maxReleaseHistory := set_default DefaultMaxReleaseHistory (c_maxReleaseHistory r)\<rparr>"
proof -
  let ?src = "case c_actionClientGetter r of Some g \<Rightarrow> Inr g | None \<Rightarrow> default_getter mgr"
  from assms obtain g where g: "?src = Inr g"
    by (cases ?src) (simp_all add: addDefaults_def Let_def)
  then have "c_actionClientGetter r = Some g \<or> default_getter mgr = Inr g"
    by (simp split: option.splits)
  moreover from g assms have "r1 = r\<lparr>c_client := set_default (mgr_GetClient mgr) (c_client r), c_actionClientGetter := Some g,
      c_eventRecorder := set_default (mgr_GetEventRecorderFor mgr nm) (c_eventRecorder r),
      c_valueTranslator := set_default (\<lambda>u w. ((DefaultTranslator u, u), w)) (c_valueTranslator r),
      c_valueMapper := set_default DefaultMapper (c_valueMapper r),
      c_waitForDeletionTimeout := (if c_waitForDeletionTimeout r = 0 then DefaultWaitForDeletionTimeout
        else c_waitForDeletionTimeout r),
      c_maxReleaseHistory := set_default DefaultMaxReleaseHistory (c_maxReleaseHistory r)\<rparr>"
    by (simp add: addDefaults_def Let_def del: if_split)
  ultimately show ?thesis by (rule that)
qed

lemma set_default_simps [simp]:
  "set_default d x \<noteq> None" "set_default d x = Some (case x of None \<Rightarrow> d | Some y \<Rightarrow> y)"
  by (simp_all add: set_default_def split: option.split)

lemma addDefaults_ok:
  assumes "addDefaults mgr nm r = (None, r1)"
  shows "\<exists>g. c_actionClientGetter r1 = Some g \<and> (c_actionClientGetter r = Some g \<or> default_getter mgr = Inr g)"
    and "c_client r1 = Some (case c_client r of None \<Rightarrow> mgr_GetClient mgr | Some cl \<Rightarrow> cl)"
    and "c_eventRecorder r1 \<noteq> None" and "c_valueTranslator r1 \<noteq> None" and "c_valueMapper r1 \<noteq> None"
    and "c_maxReleaseHistory r1 = Some (case c_maxReleaseHistory r of None \<Rightarrow> 10 | Some n \<Rightarrow> n)"
    and "c_waitForDeletionTimeout r1 =
      (if c_waitForDeletionTimeout r = 0 then 30000000000 else c_waitForDeletionTimeout r)"
    and "c_gvk r1 = c_gvk r" and "c_chrt r1 = c_chrt r" and "c_preHooks r1 = c_preHooks r"
    and "c_postHooks r1 = c_postHooks r" and "c_skipDependentWatches r1 = c_skipDependentWatches r"
    and "c_reconcilePeriod r1 = c_reconcilePeriod r" and "c_labelSelector r1 = c_labelSelector r"
    and "c_controllerSetupFuncs r1 = c_controllerSetupFuncs r"
    and "c_overrideValues r1 = c_overrideValues r"
    and "c_installAnnotations r1 = c_installAnnotations r" and "c_upgradeAnnotations r1 = c_upgradeAnnotations r"
    and "c_uninstallAnnotations r1 = c_uninstallAnnotations r"
  by (rule addDefaults_form [OF assms], force simp: DefaultWaitForDeletionTimeout_def DefaultMaxReleaseHistory_def)+

lemma setupWatches_ok:
  assumes "setupWatches mgr c g r w = ((None, r2), w')"
  shows "\<exists>preds w1 w2. ctl_Watch c (primary_source g preds) w = (None, w1)
      \<and> ctl_Watch c (secret_source g preds) w1 = (None, w2)
      \<and> (if c_skipDependentWatches r then r2 = r \<and> w' = w2
         else \<exists>d. d = fst (NewDependentResourceWatcher c (mgr_GetRESTMapper mgr) (mgr_manifest_lib mgr))
           \<and> r2 = r\<lparr>c_postHooks := watcher_hook mgr d # c_postHooks r\<rparr> \<and> w' = mgr_set_watches mgr {} w2)"
  using assms
  by (auto simp: setupWatches_def NewDependentResourceWatcher_def split: sum.splits option.splits prod.splits if_splits)

lemma SetupWithManager_ok:
  assumes "SetupWithManager mgr r w = ((Ret None, r'), w')"
  obtains g nm r1 w1 w2 w3 c where "c_gvk r = Some g" and "addDefaults mgr nm r = (None, r1)"
    and "mgr_NewController mgr nm (c_maxConcurrentReconciles r1) w1 = (Inr c, w2)"
    and "setupWatches mgr c g r1 w2 = ((None, r'), w3)"
    and "run_setup_funcs c (c_controllerSetupFuncs r') w3 = (None, w')"
  using assms
  by (auto simp: SetupWithManager_def Let_def split: option.splits sum.splits prod.splits)

text \<open>The post-hooks after the setup: the watcher in front, unless it is switched off.\<close>

definition hooks_after_setup :: "('c, 'd, 'w) manager \<Rightarrow> 'w controller \<Rightarrow> 'w reconciler \<Rightarrow> 'w post_hook list" where
  "hooks_after_setup mgr c r =
     (if c_skipDependentWatches r then c_postHooks r
      else watcher_hook mgr (fst (NewDependentResourceWatcher c (mgr_GetRESTMapper mgr) (mgr_manifest_lib mgr)))
           # c_postHooks r)"

lemma setup_runtime:
  assumes "SetupWithManager mgr r w = ((Ret None, r'), w')" and "c_chrt r \<noteq> None" and "settings_wf r"
  shows "\<exists>rt c. runtime_of r' = Some rt
    \<and> rt_client rt = (case c_client r of None \<Rightarrow> mgr_GetClient mgr | Some cl \<Rightarrow> cl)
    \<and> Some (rt_gvk rt) = c_gvk r \<and> Some (rt_chrt rt) = c_chrt r
    \<and> rt_preHooks rt = c_preHooks r \<and> rt_postHooks rt = hooks_after_setup mgr c r
    \<and> rt_maxReleaseHistory rt = (case c_maxReleaseHistory r of None \<Rightarrow> 10 | Some n \<Rightarrow> n)
    \<and> 0 \<le> rt_maxReleaseHistory rt \<and> 0 < rt_waitForDeletionTimeout rt
    \<and> rt_reconcilePeriod rt = c_reconcilePeriod r \<and> 0 \<le> rt_reconcilePeriod rt
    \<and> rt_installAnnotations rt = c_installAnnotations r \<and> rt_upgradeAnnotations rt = c_upgradeAnnotations r
    \<and> rt_uninstallAnnotations rt = c_uninstallAnnotations r"
proof -
  obtain g nm r1 w1 w2 w3 c where s: "c_gvk r = Some g" "addDefaults mgr nm r = (None, r1)"
    "setupWatches mgr c g r1 w2 = ((None, r'), w3)"
    by (rule SetupWithManager_ok [OF assms(1)])
  note d = addDefaults_ok [OF s(2)]
  have hooks: "r' = r1\<lparr>c_postHooks := hooks_after_setup mgr c r1\<rparr>"
    using setupWatches_ok [OF s(3)] by (auto simp: hooks_after_setup_def split: if_splits)
  obtain ch where ch: "c_chrt r = Some ch" using assms(2) by auto
  obtain ag where ag: "c_actionClientGetter r1 = Some ag" using d(1) by blast
  obtain tr mp er where f: "c_valueTranslator r1 = Some tr" "c_valueMapper r1 = Some mp" "c_eventRecorder r1 = Some er"
    using d(3-5) by auto
  have "hooks_after_setup mgr c r1 = hooks_after_setup mgr c r"
    by (simp add: hooks_after_setup_def d)
  then have "runtime_of r' = Some \<lparr>rt_client = (case c_client r of None \<Rightarrow> mgr_GetClient mgr | Some cl \<Rightarrow> cl),
      rt_actionClientGetter = ag, rt_valueTranslator = tr, rt_valueMapper = mp, rt_eventRecorder = er,
      rt_preHooks = c_preHooks r, rt_postHooks = hooks_after_setup mgr c r, rt_gvk = g, rt_chrt = ch,
      rt_overrideValues = c_overrideValues r, rt_reconcilePeriod = c_reconcilePeriod r,
      rt_waitForDeletionTimeout = c_waitForDeletionTimeout r1,
      rt_maxReleaseHistory = the (c_maxReleaseHistory r1), rt_pauseHandler = c_pauseHandler r1,
      rt_installAnnotations = c_installAnnotations r, rt_upgradeAnnotations = c_upgradeAnnotations r,
      rt_uninstallAnnotations = c_uninstallAnnotations r\<rparr>"
    using s(1) ch ag f by (simp add: runtime_of_def hooks d)
  moreover have "0 < c_waitForDeletionTimeout r1" "0 \<le> the (c_maxReleaseHistory r1)" "0 \<le> c_reconcilePeriod r"
    using assms(3) d(6,7) by (auto simp: settings_wf_def split: option.splits)
  moreover have "the (c_maxReleaseHistory r1) = (case c_maxReleaseHistory r of None \<Rightarrow> 10 | Some n \<Rightarrow> n)"
    by (simp add: d(6))
  ultimately show ?thesis using s(1) ch by (intro exI [of _ c] exI) auto
qed

end
