(* ===== verification/Version.thy ===== *)
theory Version
  imports Prelude
begin

text \<open>
  \<open>internal/version\<close> and \<open>internal/metrics\<close>: what the binary says of itself. The build may set
  \<open>GitVersion\<close> and \<open>GitCommit\<close>, so they are arguments; the gauge is a record, and the registry
  of the metrics library a parameter whose error is a panic.
\<close>

section \<open>The version\<close>

definition Unknown_version :: string where
  "Unknown_version = ''unknown''"

definition modulePath :: string where
  "modulePath = ''github.com/operator-framework/helm-operator-plugins''"

record version_context =
  vc_Name :: string
  vc_Version :: string
  vc_Commit :: string

definition Version :: "string \<Rightarrow> string \<Rightarrow> version_context" where
  "Version gitVersion gitCommit =
     \<lparr>vc_Name = modulePath, vc_Version = gitVersion, vc_Commit = gitCommit\<rparr>"

definition Context_String :: "version_context \<Rightarrow> string" where
  "Context_String vc = vc_Version vc @ '' <commit: '' @ vc_Commit vc @ ''>''"

text \<open>A build that sets nothing.\<close>

lemma default_version:
  "Context_String (Version Unknown_version Unknown_version) = ''unknown <commit: unknown>''"
  by (simp add: Context_String_def Version_def Unknown_version_def)

section \<open>The build information\<close>

record gauge =
  ga_Subsystem :: string
  ga_Name :: string
  ga_ConstLabels :: "(string \<times> string) list"
  ga_value :: int

definition buildInfo :: "string \<Rightarrow> string \<Rightarrow> gauge" where
  "buildInfo gitVersion gitCommit =
     \<lparr>ga_Subsystem = ''helm_operator'', ga_Name = ''build_info'',
      ga_ConstLabels = [(''commit'', gitCommit), (''version'', gitVersion)], ga_value = 0\<rparr>"

definition RegisterBuildInfo ::
  "(gauge \<Rightarrow> 'w \<Rightarrow> go_error option \<times> 'w) \<Rightarrow> gauge \<Rightarrow> 'w \<Rightarrow> unit exit \<times> 'w" where
  "RegisterBuildInfo register g w =
     (case register (g\<lparr>ga_value := 1\<rparr>) w of
        (Some e, w1) \<Rightarrow> (Panic (error_text e), w1)
      | (None, w1) \<Rightarrow> (Ret (), w1))"

end
