(* ===== verification/RunCmd.thy ===== *)
theory RunCmd
  imports Setup WatchesFile ManagerOptions Version
begin

text \<open>
  \<open>internal/cmd/helm-operator/run/cmd.go\<close>: the command that reads the watches file, makes
  a reconciler for every entry, sets it up with the manager and starts the manager. Of the log
  only the version banner is modelled. \<open>os.Exit\<close> ends the run.
\<close>

section \<open>Checks\<close>

text \<open>
  \<open>exitIfUnsupported\<close> exits whenever a webhook server is set; the keys that it collects
  only go into the message.
\<close>

definition unsupported_keys :: "webhook_options \<Rightarrow> string list" where
  "unsupported_keys wh =
     (if wh_cert_dir wh \<noteq> [] then [''certDir''] else []) @ (if wh_host wh \<noteq> [] then [''host''] else [])
     @ (if wh_port wh \<noteq> 0 then [''port''] else [])"

definition exitIfUnsupported :: "manager_options \<Rightarrow> string list option" where
  "exitIfUnsupported opts = map_option unsupported_keys (mo_webhook_server opts)"

section \<open>The environment of the command\<close>

text \<open>
  What the command reads of the process and calls of the libraries; the Go runtime and the version
  that the build set are constants of the process. \<open>crmetrics.Registry\<close> is a registry of the
  metrics library, of which \<open>MustRegister\<close> panics with the error of \<open>Register\<close>. The logger is
  the one that the flags of zap describe.
\<close>

record ('c, 'd, 'w) run_env =
  re_go_version :: string
  re_GOOS :: string
  re_GOARCH :: string
  re_GitVersion :: string
  re_GitCommit :: string
  re_SetLogger :: "'w \<Rightarrow> 'w"
  re_log_Info :: "string \<Rightarrow> (string \<times> string) list \<Rightarrow> 'w \<Rightarrow> 'w"
  re_Register :: "gauge \<Rightarrow> 'w \<Rightarrow> go_error option \<times> 'w"
  re_GetConfig :: "'w \<Rightarrow> (go_error + 'c) \<times> 'w"
  re_LookupEnv :: "string \<Rightarrow> string option"
  re_NewManager :: "'c \<Rightarrow> manager_options \<Rightarrow> 'w \<Rightarrow> (go_error + ('c, 'd, 'w) manager) \<times> 'w"
  re_AddHealthzCheck :: "'w \<Rightarrow> go_error option \<times> 'w"
  re_AddReadyzCheck :: "'w \<Rightarrow> go_error option \<times> 'w"
  re_open :: "string \<Rightarrow> 'w \<Rightarrow> go_error option \<times> 'w"
  re_close :: "'w \<Rightarrow> go_error option \<times> 'w"
  re_watches_lib :: "'w watches_lib"
  re_values :: value_lib
  re_Start :: "'w \<Rightarrow> go_error option \<times> 'w"

definition env_value :: "('c, 'd, 'w) run_env \<Rightarrow> string \<Rightarrow> string" where
  "env_value R v = (case re_LookupEnv R v of None \<Rightarrow> [] | Some x \<Rightarrow> x)"

definition printVersion :: "('c, 'd, 'w) run_env \<Rightarrow> 'w \<Rightarrow> 'w" where
  "printVersion R =
     re_log_Info R ''Version''
       [(''Go Version'', re_go_version R), (''GOOS'', re_GOOS R), (''GOARCH'', re_GOARCH R),
        (''helm-operator'', re_GitVersion R), (''commit'', re_GitCommit R)]"

datatype run_result = Returned | OsExit int | RunPanic string

section \<open>Manager options\<close>

text \<open>The deprecated \<open>OPERATOR_NAME\<close> is the election id unless the flag was given.\<close>

definition operator_name_option :: "('c, 'd, 'w) run_env \<Rightarrow> (string \<Rightarrow> bool) \<Rightarrow> manager_options \<Rightarrow> manager_options" where
  "operator_name_option R changed opts =
     (case re_LookupEnv R ''OPERATOR_NAME'' of
        None \<Rightarrow> opts
      | Some operatorName \<Rightarrow>
          if changed ''leader-election-id'' then opts
          else if mo_leader_election_id opts = [] then opts\<lparr>mo_leader_election_id := operatorName\<rparr>
          else opts)"

text \<open>\<open>None\<close> is an exit because of a pair of flags that exclude each other.\<close>

definition run_options_of :: "('c, 'd, 'w) run_env \<Rightarrow> flags \<Rightarrow> (string \<Rightarrow> bool) \<Rightarrow> manager_options option" where
  "run_options_of R f changed =
     (let opts = operator_name_option R changed zero_options
      in if changed ''leader-elect'' \<and> changed ''enable-leader-election'' then None
         else if changed ''metrics-addr'' \<and> changed ''metrics-bind-address'' then None
         else Some (ConfigureWatchNamespaces (env_value R) (ToManagerOptions f opts)))"

section \<open>The reconcilers\<close>

text \<open>The options for one entry, with its pointers already followed.\<close>

definition watch_options ::
  "value_lib \<Rightarrow> flags \<Rightarrow> watch \<Rightarrow> chart \<Rightarrow> label_selector \<Rightarrow> bool \<Rightarrow> 'w Option list" where
  "watch_options V f wt chrt sel dependents =
     [WithChart chrt,
      WithGroupVersionKind (w_gvk wt),
      WithOverrideValues V (case w_override_values wt of None \<Rightarrow> [] | Some kvs \<Rightarrow> kvs),
      WithSelector sel,
      SkipDependentWatches dependents,
      WithMaxConcurrentReconciles (fl_max_concurrent_reconciles f),
      WithReconcilePeriod (fl_reconcile_period f),
      WithInstallAnnotations DefaultInstallAnnotations,
      WithUpgradeAnnotations DefaultUpgradeAnnotations,
      WithUninstallAnnotations DefaultUninstallAnnotations]"

definition setup_watch ::
  "value_lib \<Rightarrow> flags \<Rightarrow> ('c, 'd, 'w) manager \<Rightarrow> watch \<Rightarrow> 'w \<Rightarrow> run_result option \<times> 'w" where
  "setup_watch V f mgr wt w =
     (case (w_chart wt, w_selector wt, w_watch_dependents wt) of
        (Some chrt, Some sel, Some dependents) \<Rightarrow>
          (case New_reconciler (watch_options V f wt chrt sel dependents) of
             Inl e \<Rightarrow> (Some (OsExit 1), w)
           | Inr r \<Rightarrow>
               (case SetupWithManager mgr r w of
                  ((Panic m, _), w1) \<Rightarrow> (Some (RunPanic m), w1)
                | ((Ret (Some e), _), w1) \<Rightarrow> (Some (OsExit 1), w1)
                | ((Ret None, _), w1) \<Rightarrow> (None, w1)))
      | _ \<Rightarrow> (Some (RunPanic ''invalid memory address or nil pointer dereference''), w))"

fun setup_all ::
  "value_lib \<Rightarrow> flags \<Rightarrow> ('c, 'd, 'w) manager \<Rightarrow> watch list \<Rightarrow> 'w \<Rightarrow> run_result option \<times> 'w" where
  "setup_all V f mgr [] w = (None, w)"
| "setup_all V f mgr (wt # wts) w =
     (case setup_watch V f mgr wt w of
        (Some r, w1) \<Rightarrow> (Some r, w1)
      | (None, w1) \<Rightarrow> setup_all V f mgr wts w1)"

section \<open>The command\<close>

definition exit_on_error :: "go_error option \<times> 'w \<Rightarrow> ('w \<Rightarrow> run_result \<times> 'w) \<Rightarrow> run_result \<times> 'w" where
  "exit_on_error s k = (case s of (Some e, w) \<Rightarrow> (OsExit 1, w) | (None, w) \<Rightarrow> k w)"

text \<open>What \<open>run\<close> does after the version and the build information.\<close>

definition run_operator :: "('c, 'd, 'w) run_env \<Rightarrow> flags \<Rightarrow> (string \<Rightarrow> bool) \<Rightarrow> 'w \<Rightarrow> run_result \<times> 'w" where
  "run_operator R f changed w0 =
     (case exitIfUnsupported zero_options of
        Some keys \<Rightarrow> (OsExit 1, w0)
      | None \<Rightarrow>
          (case re_GetConfig R w0 of
             (Inl e, w1) \<Rightarrow> (OsExit 1, w1)
           | (Inr cfg, w1) \<Rightarrow>
               (case run_options_of R f changed of
                  None \<Rightarrow> (OsExit 1, w1)
                | Some opts \<Rightarrow>
                    (case re_NewManager R cfg opts w1 of
                       (Inl e, w2) \<Rightarrow> (OsExit 1, w2)
                     | (Inr mgr, w2) \<Rightarrow>
                         exit_on_error (re_AddHealthzCheck R w2) (\<lambda>w3.
                         exit_on_error (re_AddReadyzCheck R w3) (\<lambda>w4.
                           (case Load (re_open R (fl_watches_file f)) (re_close R) (re_watches_lib R) w4 of
                              (Inl e, w5) \<Rightarrow> (OsExit 1, w5)
                            | (Inr ws, w5) \<Rightarrow>
                                (case setup_all (re_values R) f mgr ws w5 of
                                   (Some r, w6) \<Rightarrow> (r, w6)
                                 | (None, w6) \<Rightarrow>
                                     exit_on_error (re_Start R w6) (\<lambda>w7. (Returned, w7))))))))))"

definition run :: "('c, 'd, 'w) run_env \<Rightarrow> flags \<Rightarrow> (string \<Rightarrow> bool) \<Rightarrow> 'w \<Rightarrow> run_result \<times> 'w" where
  "run R f changed w0 =
     (case RegisterBuildInfo (re_Register R) (buildInfo (re_GitVersion R) (re_GitCommit R)) (printVersion R w0) of
        (Panic m, w1) \<Rightarrow> (RunPanic m, w1)
      | (Ret _, w1) \<Rightarrow> run_operator R f changed w1)"

end
