(* ===== verification/RunProps.thy ===== *)
theory RunProps
  imports RunCmd SetupProps
begin

text \<open>Properties of the configuration of a reconciler, by code and by the command.\<close>

section \<open>A manager to run on\<close>

text \<open>
  The world is the list of the sources that the controller was given and the map of the
  dependent watcher. The API server is empty and Helm knows nothing.
\<close>

type_synonym watch_world = "watch_source list \<times> gvk set"

definition empty_client :: "'w kube_client" where
  "empty_client =
     \<lparr>kc_get = (\<lambda>k (obj, w). (Some (ErrApi NotFound ''not found''), obj, w)),
      kc_update = (\<lambda>(obj, w). (Some (ErrApi NotFound ''not found''), obj, w)),
      kc_status_update = (\<lambda>(obj, w). (Some (ErrApi NotFound ''not found''), obj, w))\<rparr>"

definition idle_helm :: "'w helm" where
  "idle_helm =
     \<lparr>helm_NewGet = \<lparr>ga_version = 0\<rparr>, helm_NewHistory = \<lparr>hia_max = 0\<rparr>,
      helm_NewInstall = \<lparr>ia_release_name = [], ia_namespace = [], ia_disable_hooks = False,
        ia_description = [], ia_post_renderer = None\<rparr>,
      helm_NewUpgrade = \<lparr>ua_namespace = [], ua_disable_hooks = False, ua_force = False,
        ua_description = [], ua_max_history = 0, ua_dry_run = False, ua_dry_run_option = [],
        ua_post_renderer = None\<rparr>,
      helm_NewUninstall = \<lparr>una_disable_hooks = False, una_description = []\<rparr>,
      helm_NewRollback = \<lparr>ra_force = False, ra_max_history = 0\<rparr>,
      helm_Get = (\<lambda>g n w. ((None, Some ErrReleaseNotFound), w)),
      helm_History = (\<lambda>h n w. (([], None), w)),
      helm_Install = (\<lambda>i c v w. ((None, Some (ErrMsg ''idle'')), w)),
      helm_Upgrade = (\<lambda>u n c v w. ((None, Some (ErrMsg ''idle'')), w)),
      helm_Uninstall = (\<lambda>u n w. ((None, Some ErrReleaseNotFound), w)),
      helm_Rollback = (\<lambda>r n w. (None, w)), helm_SortByRevision = (\<lambda>rs. rs),
      helm_Build = (\<lambda>m w. (Inr [], w)), helm_ObjGet = (\<lambda>i w. (Inl (ErrMsg ''idle''), w)),
      helm_ObjCreate = (\<lambda>i w. (None, w)), helm_ObjPatch = (\<lambda>i t p w. (None, w))\<rparr>"

definition sample_manager :: "(unit, unit, watch_world) manager" where
  "sample_manager =
     \<lparr>mgr_GetClient = empty_client, mgr_GetConfig = (), mgr_GetRESTMapper = (\<lambda>g. Inr NamespaceScope),
      mgr_GetEventRecorderFor = (\<lambda>n obj t r m w. w),
      mgr_NewController = (\<lambda>n k w. (Inr \<lparr>ctl_Watch = (\<lambda>src w. (None, (fst w @ [src], snd w)))\<rparr>, w)),
      mgr_AddKnownTypeWithName = (\<lambda>g w. w), mgr_AddToGroupVersion = (\<lambda>gv w. w),
      mgr_selector_Size = (\<lambda>s. int (length (ls_match_labels s))), mgr_check_selector = (\<lambda>s. None),
      mgr_manifest_lib = sample_manifest_lib, mgr_watches = snd, mgr_set_watches = (\<lambda>ws w. (fst w, ws)),
      mgr_storage_lib =
        \<lparr>st_NewForConfig = (\<lambda>c. Inl (ErrMsg ''no cluster'')),
         st_NewControllerRef = (\<lambda>obj g. \<lparr>or_api_version = gvk_version g, or_kind = gvk_kind g,
            or_name = u_name obj, or_uid = u_uid obj, or_controller = Some True,
            or_block_owner_deletion = Some True\<rparr>),
         st_NewSecrets = (\<lambda>C. ())\<rparr>,
      mgr_discovery = (\<lambda>c. None), mgr_helm = (\<lambda>cf. idle_helm),
      mgr_pr_lib =
        \<lparr>pl_ToUnstructured = (\<lambda>j. Inl (ErrMsg ''idle'')),
         pl_NewControllerRef = (\<lambda>obj g. \<lparr>or_api_version = gvk_version g, or_kind = gvk_kind g,
            or_name = u_name obj, or_uid = u_uid obj, or_controller = Some True,
            or_block_owner_deletion = Some True\<rparr>),
         pl_SetOwnerAnnotations = (\<lambda>o1 u. Inr u), pl_YamlMarshal = (\<lambda>u. Inr [])\<rparr>,
      mgr_patch_lib =
        \<lparr>pt_Marshal = (\<lambda>j. Inr []), pt_AsVersioned = (\<lambda>i. VUnstructured), pt_CreatePatch = (\<lambda>x y. Inr []),
         pt_MarshalOps = (\<lambda>ops. Inr []), pt_NewPatchMeta = (\<lambda>i. None),
         pt_ThreeWayMerge = (\<lambda>a b c i. Inr [])\<rparr>\<rparr>"

definition web_gvk :: gvk where
  "web_gvk = \<lparr>gvk_group = ''demo'', gvk_version = ''v1'', gvk_kind = ''Web''\<rparr>"

definition web_chart :: chart where
  "web_chart = \<lparr>ch_name = ''web'', ch_content = JNull\<rparr>"

definition lenient_values :: value_lib where
  "lenient_values = \<lparr>vl_getenv = (\<lambda>v. []), vl_ParseInto = (\<lambda>l m. (None, m))\<rparr>"

text \<open>With an upgrade annotation whose name an install annotation already has, nothing is made.\<close>

definition sample_options :: "watch_world Option list" where
  "sample_options =
     [WithChart web_chart, WithGroupVersionKind web_gvk, WithInstallAnnotations DefaultInstallAnnotations,
      WithUpgradeAnnotations [UpgradeForce ''my.domain/force''], WithMaxReleaseHistory 0,
      WithReconcilePeriod 60]"

lemma sample_options_ok: "list_all (reconciler_option lenient_values) sample_options"
  by (simp add: sample_options_def reconciler_option.intros)

lemma sample_setup:
  assumes "c_gvk r = Some g" and "c_client r = None" and "c_actionClientGetter r = None"
    and "c_controllerSetupFuncs r = []" and "c_labelSelector r = \<lparr>ls_match_labels = [], ls_match_expressions = []\<rparr>"
  shows "\<exists>r' w'. SetupWithManager sample_manager r ([], {}) = ((Ret None, r'), w')"
proof -
  have "\<exists>g. default_getter sample_manager = Inr g"
    by (simp add: default_getter_def NewActionConfigGetter_def NewActionClientGetter_def sample_manager_def)
  with assms show ?thesis
    by (auto simp: SetupWithManager_def addDefaults_def setupWatches_def setupScheme_def
        NewDependentResourceWatcher_def sample_manager_def Let_def)
qed

section \<open>What New accepts\<close>

text \<open>C32. Whatever options are given, in whatever order and however often, a reconciler that
  \<open>New\<close> returns is well formed: it has a kind and a chart; each annotation name is
  configured once in one of the three maps and is the name of the annotation it leads to; and
  the reconcile period, the deletion timeout, the history limit and the concurrency are never
  negative.\<close>

theorem new_reconciler_valid:
  assumes "New_reconciler opts = Inr r" and "list_all (reconciler_option V) opts"
  shows "c_gvk r \<noteq> None \<and> c_chrt r \<noteq> None
    \<and> distinct (map fst (c_installAnnotations r) @ map fst (c_upgradeAnnotations r) @ map fst (c_uninstallAnnotations r))
    \<and> map fst (c_installAnnotations r) = map (inst_Name \<circ> snd) (c_installAnnotations r)
    \<and> map fst (c_upgradeAnnotations r) = map (up_Name \<circ> snd) (c_upgradeAnnotations r)
    \<and> map fst (c_uninstallAnnotations r) = map (un_Name \<circ> snd) (c_uninstallAnnotations r)
    \<and> 0 \<le> c_reconcilePeriod r \<and> 0 \<le> c_waitForDeletionTimeout r \<and> 0 \<le> c_maxConcurrentReconciles r
    \<and> 0 \<le> (case c_maxReleaseHistory r of None \<Rightarrow> 0 | Some n \<Rightarrow> n)"
  using New_reconciler_wf [OF assms]
  by (auto simp: annotations_wf_def annotation_names_def settings_wf_def split: option.split)

theorem new_reconciler_valid_witness:
  "\<exists>r. New_reconciler sample_options = Inr r \<and> c_maxReleaseHistory r = Some 0
     \<and> distinct (map fst (c_installAnnotations r) @ map fst (c_upgradeAnnotations r) @ map fst (c_uninstallAnnotations r))"
proof -
  obtain r where r: "New_reconciler sample_options = Inr r" and h: "c_maxReleaseHistory r = Some 0"
    by (auto simp: New_reconciler_def sample_options_def option_defs annotation_option_defs add_defs
        DefaultInstallAnnotations_def annotation_defs default_name_defs setupAnnotationMaps_def validate_def)
  from new_reconciler_valid [OF r sample_options_ok] r h show ?thesis by blast
qed

text \<open>After \<open>SetupWithManager\<close> succeeds nothing is nil that the loop reads: there is a
  runtime, with the configured client or the manager's, a positive deletion timeout, a history
  limit of ten unless another was configured, the annotations as configured, and the configured
  post-hooks, behind the watcher of dependents unless that was switched off.\<close>

theorem setup_gives_runtime:
  assumes "New_reconciler opts = Inr r" and "list_all (reconciler_option V) opts"
    and "SetupWithManager mgr r w = ((Ret None, r'), w')"
  shows "\<exists>rt c. runtime_of r' = Some rt
    \<and> rt_client rt = (case c_client r of None \<Rightarrow> mgr_GetClient mgr | Some cl \<Rightarrow> cl)
    \<and> Some (rt_gvk rt) = c_gvk r \<and> Some (rt_chrt rt) = c_chrt r
    \<and> 0 < rt_waitForDeletionTimeout rt \<and> 0 \<le> rt_reconcilePeriod rt
    \<and> rt_maxReleaseHistory rt = (case c_maxReleaseHistory r of None \<Rightarrow> 10 | Some n \<Rightarrow> n)
    \<and> 0 \<le> rt_maxReleaseHistory rt
    \<and> rt_preHooks rt = c_preHooks r \<and> rt_postHooks rt = hooks_after_setup mgr c r
    \<and> rt_installAnnotations rt = c_installAnnotations r \<and> rt_upgradeAnnotations rt = c_upgradeAnnotations r
    \<and> rt_uninstallAnnotations rt = c_uninstallAnnotations r"
proof -
  from setup_runtime [OF assms(3) New_reconciler_wf(4) New_reconciler_wf(2), OF assms(1,2,1,2)]
  obtain rt c where rt: "runtime_of r' = Some rt"
    "rt_client rt = (case c_client r of None \<Rightarrow> mgr_GetClient mgr | Some cl \<Rightarrow> cl)"
    "Some (rt_gvk rt) = c_gvk r" "Some (rt_chrt rt) = c_chrt r" "rt_preHooks rt = c_preHooks r"
    "rt_postHooks rt = hooks_after_setup mgr c r"
    "rt_maxReleaseHistory rt = (case c_maxReleaseHistory r of None \<Rightarrow> 10 | Some n \<Rightarrow> n)"
    "0 \<le> rt_maxReleaseHistory rt" "0 < rt_waitForDeletionTimeout rt" "0 \<le> rt_reconcilePeriod rt"
    "rt_installAnnotations rt = c_installAnnotations r" "rt_upgradeAnnotations rt = c_upgradeAnnotations r"
    "rt_uninstallAnnotations rt = c_uninstallAnnotations r" by auto
  show ?thesis by (intro exI [of _ rt] exI [of _ c] conjI rt)
qed

theorem setup_gives_runtime_witness:
  "\<exists>r r' w' rt. New_reconciler sample_options = Inr r \<and> SetupWithManager sample_manager r ([], {}) = ((Ret None, r'), w')
     \<and> runtime_of r' = Some rt \<and> rt_waitForDeletionTimeout rt > 0 \<and> length (rt_postHooks rt) = 1"
proof -
  obtain r where r: "New_reconciler sample_options = Inr r" "c_gvk r = Some web_gvk" "c_client r = None"
      "c_actionClientGetter r = None" "c_skipDependentWatches r = False" "c_postHooks r = []"
      "c_controllerSetupFuncs r = []" "c_labelSelector r = \<lparr>ls_match_labels = [], ls_match_expressions = []\<rparr>"
    by (auto simp: New_reconciler_def sample_options_def option_defs annotation_option_defs add_defs
        DefaultInstallAnnotations_def annotation_defs default_name_defs setupAnnotationMaps_def validate_def)
  obtain r' w' where sm: "SetupWithManager sample_manager r ([], {}) = ((Ret None, r'), w')"
    using sample_setup [OF r(2,3,4,7,8)] by blast
  from setup_gives_runtime [OF r(1) sample_options_ok sm] obtain rt c where
    "runtime_of r' = Some rt" "0 < rt_waitForDeletionTimeout rt" "rt_postHooks rt = hooks_after_setup sample_manager c r"
    by blast
  with r sm show ?thesis by (auto simp: hooks_after_setup_def)
qed

section \<open>The command\<close>

lemma New_watch_options:
  "New_reconciler (watch_options V f wt chrt sel dependents :: 'w Option list) =
     (case ApplyOverrides V (case w_override_values wt of None \<Rightarrow> [] | Some kvs \<Rightarrow> kvs)
        ((new_object \<lparr>gvk_group = [], gvk_version = [], gvk_kind = []\<rparr>)\<lparr>u_spec := Some (JObj [])\<rparr>) of
        (Some e, _) \<Rightarrow> Inl e
      | (None, _) \<Rightarrow>
          if fl_max_concurrent_reconciles f < 1 then Inl (ErrMsg ''maxConcurrentReconciles must be at least 1'')
          else if fl_reconcile_period f < 0 then Inl (ErrMsg ''reconcile period must not be negative'')
          else Inr (setupAnnotationMaps\<lparr>c_chrt := Some chrt, c_gvk := Some (w_gvk wt),
             c_overrideValues := (case w_override_values wt of None \<Rightarrow> [] | Some kvs \<Rightarrow> kvs),
             c_labelSelector := sel, c_skipDependentWatches := dependents,
             c_maxConcurrentReconciles := fl_max_concurrent_reconciles f,
             c_reconcilePeriod := fl_reconcile_period f,
             c_annotations := map inst_Name (DefaultInstallAnnotations :: 'w install_annotation list) @ map up_Name (DefaultUpgradeAnnotations :: 'w upgrade_annotation list)
               @ map un_Name DefaultUninstallAnnotations,
             c_installAnnotations := map (\<lambda>a. (inst_Name a, a)) DefaultInstallAnnotations,
             c_upgradeAnnotations := map (\<lambda>a. (up_Name a, a)) DefaultUpgradeAnnotations,
             c_uninstallAnnotations := map (\<lambda>a. (un_Name a, a)) DefaultUninstallAnnotations\<rparr>))"
  by (simp add: New_reconciler_def watch_options_def option_defs annotation_option_defs add_defs Let_def
      DefaultInstallAnnotations_def DefaultUpgradeAnnotations_def DefaultUninstallAnnotations_def
      annotation_defs default_name_defs setupAnnotationMaps_def validate_def
      split: option.split prod.split)

lemma New_watch_options_fields:
  assumes "New_reconciler (watch_options V f wt chrt sel dependents) = Inr r"
  shows "c_gvk r = Some (w_gvk wt)" and "c_chrt r = Some chrt" and "c_skipDependentWatches r = dependents"
    and "c_postHooks r = []" and "c_reconcilePeriod r = fl_reconcile_period f" and "settings_wf r"
    and "c_maxConcurrentReconciles r = fl_max_concurrent_reconciles f"
  using assms
  by (auto simp: New_watch_options setupAnnotationMaps_def settings_wf_def split: prod.splits option.splits if_splits)

lemma SetupWithManager_no_panic:
  "c_gvk r \<noteq> None \<Longrightarrow> SetupWithManager mgr r w \<noteq> ((Panic m, r'), w')"
  by (auto simp: SetupWithManager_def Let_def split: option.splits sum.splits prod.splits)

lemma setup_watch_no_panic:
  fixes mgr :: "('c, 'd, 'w) manager"
  assumes "watch_loaded wt"
  shows "fst (setup_watch V f mgr wt w) \<noteq> Some (RunPanic m)"
proof -
  from assms obtain chrt sel dependents where wt: "w_chart wt = Some chrt" "w_selector wt = Some sel"
    "w_watch_dependents wt = Some dependents" by (auto simp: watch_loaded_def)
  show ?thesis
  proof (cases "New_reconciler (watch_options V f wt chrt sel dependents :: 'w Option list)")
    case (Inl e)
    with wt show ?thesis by (simp add: setup_watch_def)
  next
    case (Inr r)
    obtain out r' w' where s: "SetupWithManager mgr r w = ((out, r'), w')" by (metis surj_pair)
    have "out \<noteq> Panic m'" for m'
      using SetupWithManager_no_panic [of r mgr w m' r' w'] New_watch_options_fields(1) [OF Inr] s by auto
    with wt Inr s show ?thesis
      by (cases out) (auto simp: setup_watch_def split: option.splits)
  qed
qed

lemma setup_all_no_panic:
  assumes "list_all watch_loaded wts"
  shows "fst (setup_all V f mgr wts w) \<noteq> Some (RunPanic m)"
  using assms
proof (induction wts arbitrary: w)
  case (Cons wt wts)
  with setup_watch_no_panic [of wt V f mgr w m] show ?case
    by (auto split: prod.splits option.splits)
qed simp

lemma Load_loaded:
  assumes "Load os_open os_close WL w = (Inr ws, w')"
  shows "list_all watch_loaded ws"
  using assms
  by (auto simp: Load_def LoadReader_def Let_def split: prod.splits option.splits sum.splits
      dest!: load_watches_ok)

lemma exit_on_error_panic:
  "fst (exit_on_error s k) = RunPanic m \<Longrightarrow> \<exists>w. fst (k w) = RunPanic m"
  by (auto simp: exit_on_error_def split: prod.splits option.splits)

section \<open>What the command does\<close>


definition loaded_watch :: watch where
  "loaded_watch =
     \<lparr>w_gvk = web_gvk, w_chart_path = ''charts/web'', w_watch_dependents = Some True,
      w_override_values = None, w_reconcile_period = Some 5, w_max_concurrent = Some 7,
      w_selector = Some \<lparr>ls_match_labels = [], ls_match_expressions = []\<rparr>, w_chart = Some web_chart\<rparr>"


lemma run_operator_no_panic:
  fixes R :: "('c, 'd, 'w) run_env"
  shows "fst (run_operator R f changed w) \<noteq> RunPanic m"
proof
  assume "fst (run_operator R f changed w) = RunPanic m"
  then obtain mgr :: "('c, 'd, 'w) manager" and w4 ws w5 w6 where
    "Load (re_open R (fl_watches_file f)) (re_close R) (re_watches_lib R) w4 = (Inr ws, w5)"
    and "setup_all (re_values R) f mgr ws w5 = (Some (RunPanic m), w6)"
    by (auto simp: run_operator_def exit_on_error_def split: option.splits sum.splits prod.splits)
  with setup_all_no_panic [OF Load_loaded, of _ _ _ _ ws w5 "re_values R" f mgr w5 m] show False by simp
qed

text \<open>The command never dereferences a nil pointer: whatever the watches file, the environment,
  the flags and the cluster are, it returns or exits with a code, since the entries that it loads
  have their pointers set and the reconcilers that it makes have a kind. It panics exactly when the
  metrics registry refuses the build information, before anything else is done, and with that error.\<close>

theorem run_never_panics:
  "fst (run R f changed w) = RunPanic m
     \<longleftrightarrow> (\<exists>e. fst (re_Register R ((buildInfo (re_GitVersion R) (re_GitCommit R))\<lparr>ga_value := 1\<rparr>) (printVersion R w)) = Some e
            \<and> m = error_text e)"
  by (auto simp: run_def RegisterBuildInfo_def run_operator_no_panic split: prod.split option.split)

end
