(* ===== verification/Diff.thy ===== *)
theory Diff
  imports GoLib
begin

text \<open>
  \<open>pkg/reconciler/internal/diff/diff.go\<close>: the coloured difference of two manifests that the
  reconciler prints. The library that computes the differences is a parameter; \<open>diff_ok\<close>
  states its documentation. Replacing the match of \<open>^\<close> in one line puts the prefix before
  it, since none of the three prefixes has a dollar sign.
\<close>

section \<open>Definitions\<close>

datatype diff_op = DiffDelete | DiffInsert | DiffEqual

text \<open>\<open>lines_diff\<close> stands for the three calls that go through runes and back to lines.\<close>

type_synonym lines_diff = "string \<Rightarrow> string \<Rightarrow> (diff_op \<times> string) list"

abbreviation newline :: char where "newline \<equiv> CHR 0x0A"

definition prefixLines :: "string \<Rightarrow> string \<Rightarrow> string" where
  "prefixLines str prefix =
     concat (map (\<lambda>line. prefix @ line @ [newline]) (butlast (Split newline str)))"

fun write_diff :: "diff_op \<times> string \<Rightarrow> string" where
  "write_diff (DiffInsert, t) = CHR 0x1B # ''[32m'' @ prefixLines t ''+'' @ CHR 0x1B # ''[0m''"
| "write_diff (DiffDelete, t) = CHR 0x1B # ''[31m'' @ prefixLines t ''-'' @ CHR 0x1B # ''[0m''"
| "write_diff (DiffEqual, t) = prefixLines t '' ''"

definition Generate :: "lines_diff \<Rightarrow> string \<Rightarrow> string \<Rightarrow> string" where
  "Generate D a b = concat (map write_diff (D a b))"

section \<open>What is shown\<close>

text \<open>
  The parts of a diff without the insertions are the first text, without the deletions the
  second, and each part is made of lines of one of them.
\<close>

definition side :: "diff_op \<Rightarrow> (diff_op \<times> string) list \<Rightarrow> string" where
  "side op ds = concat (map snd (filter (\<lambda>(o1, _). o1 = op \<or> o1 = DiffEqual) ds))"

definition whole_lines :: "string \<Rightarrow> bool" where
  "whole_lines s \<longleftrightarrow> s = [] \<or> last s = newline"

definition diff_ok :: "lines_diff \<Rightarrow> bool" where
  "diff_ok D \<longleftrightarrow> (\<forall>a b. side DiffDelete (D a b) = a \<and> side DiffInsert (D a b) = b
     \<and> (whole_lines a \<and> whole_lines b \<longrightarrow> (\<forall>(o1, t) \<in> set (D a b). whole_lines t)))"

text \<open>The marked lines that the output shows, and the text of those with given marks.\<close>

definition shown_lines :: "(diff_op \<times> string) list \<Rightarrow> (diff_op \<times> string) list" where
  "shown_lines ds = concat (map (\<lambda>(o1, t). map (Pair o1) (butlast (Split newline t))) ds)"

definition shown_text :: "diff_op \<Rightarrow> (diff_op \<times> string) list \<Rightarrow> string" where
  "shown_text op ls =
     concat (map (\<lambda>(o1, l). l @ [newline]) (filter (\<lambda>(o1, _). o1 = op \<or> o1 = DiffEqual) ls))"

lemma Split_snoc: "Split sep (s @ [sep]) = Split sep s @ [[]]"
proof (induction s)
  case Nil
  show ?case by simp
next
  case (Cons c cs)
  then show ?case by (cases "Split sep cs") auto
qed

lemma prefixLines_whole:
  assumes "whole_lines t"
  shows "concat (map (\<lambda>l. l @ [newline]) (butlast (Split newline t))) = t"
proof (cases "t = []")
  case False
  with assms obtain s where t: "t = s @ [newline]" by (metis append_butlast_last_id whole_lines_def)
  show ?thesis unfolding t Split_snoc by (simp add: Split_join)
qed simp

text \<open>Manifests that end with a newline can be read back from what is shown, on both sides.\<close>

lemma shown_both_sides:
  assumes "diff_ok D" and "whole_lines a" and "whole_lines b"
  shows "shown_text DiffDelete (shown_lines (D a b)) = a"
    and "shown_text DiffInsert (shown_lines (D a b)) = b"
proof -
  have "shown_text op (shown_lines ds) = side op ds" if "\<forall>(o1, t) \<in> set ds. whole_lines t" for op ds
    using that
  proof (induction ds)
    case Nil
    then show ?case by (simp add: shown_text_def shown_lines_def side_def)
  next
    case (Cons d ds)
    obtain o1 t where d: "d = (o1, t)" by fastforce
    have "shown_text op (map (Pair o1) (butlast (Split newline t))) = (if o1 = op \<or> o1 = DiffEqual then t else [])"
      using prefixLines_whole [of t] Cons.prems d
      by (auto simp: shown_text_def filter_map comp_def split: prod.splits)
    with Cons d show ?case by (simp add: shown_text_def shown_lines_def side_def)
  qed
  with assms show "shown_text DiffDelete (shown_lines (D a b)) = a"
    and "shown_text DiffInsert (shown_lines (D a b)) = b"
    by (auto simp: diff_ok_def)
qed

text \<open>A last line without a newline is not shown at all.\<close>

lemma last_line_lost:
  assumes "newline \<notin> set l"
  shows "prefixLines (s @ newline # l) p = prefixLines (s @ [newline]) p"
proof -
  have "Split newline (s @ newline # l) = Split newline s @ [l]"
  proof (induction s)
    case Nil
    with Split_no_sep [OF assms] show ?case by simp
  next
    case (Cons c cs)
    then show ?case by (cases "Split newline cs") auto
  qed
  with Split_snoc [of newline s] show ?thesis by (simp add: prefixLines_def)
qed

end
