(* ===== verification/StorageSpec.thy ===== *)
theory StorageSpec
  imports ChunkedFacts
begin

text \<open>
  The contract of the release storage: a map from keys to releases. An operation that fails may
  leave its own key in an unknown state, never another one, and a failed create leaves a stored
  release as it is. The simulation relates the map to the secrets that the driver of
  \<open>ChunkedSecrets\<close> keeps; it needs keys that cannot be the name of a chunk, which Helm's keys
  are not.
\<close>

section \<open>The specification\<close>

datatype key_state = Absent | Stored release | Unknown

datatype driver_op =
    OpCreate string release
  | OpUpdate string release
  | OpGet string
  | OpDelete string

datatype driver_answer = AnsWrite "go_error option exit" | AnsRead "go_error + release"

fun op_key :: "driver_op \<Rightarrow> string" where
  "op_key (OpCreate k r) = k"
| "op_key (OpUpdate k r) = k"
| "op_key (OpGet k) = k"
| "op_key (OpDelete k) = k"

text \<open>What a stored release reads back as.\<close>

definition as_read :: "release \<Rightarrow> release" where
  "as_read rls = rls\<lparr>rel_labels := filterSystemLabels (rel_labels rls)\<rparr>"

text \<open>The states that an operation on a key in a given state may answer with, and lead to.\<close>

inductive spec_step :: "driver_op \<Rightarrow> key_state \<Rightarrow> driver_answer \<Rightarrow> key_state \<Rightarrow> bool" where
  created: "\<nexists>x. st = Stored x \<Longrightarrow>
     spec_step (OpCreate k r) st (AnsWrite (Ret None)) (Stored (as_read r))"
| create_failed: "a \<noteq> Ret None \<Longrightarrow> \<nexists>x. st = Stored x \<Longrightarrow>
     spec_step (OpCreate k r) st (AnsWrite a) Unknown"
| create_refused: "a \<noteq> Ret None \<Longrightarrow> spec_step (OpCreate k r) (Stored x) (AnsWrite a) (Stored x)"
| updated: "st \<noteq> Absent \<Longrightarrow> spec_step (OpUpdate k r) st (AnsWrite (Ret None)) (Stored (as_read r))"
| update_absent: "spec_step (OpUpdate k r) Absent
     (AnsWrite (Ret (Some (ErrWrap ''update: '' ErrReleaseNotFound)))) Absent"
| update_failed: "a \<noteq> Ret None \<Longrightarrow> st \<noteq> Absent \<Longrightarrow> spec_step (OpUpdate k r) st (AnsWrite a) Unknown"
| got: "spec_step (OpGet k) (Stored x) (AnsRead (Inr x)) (Stored x)"
| got_nothing: "spec_step (OpGet k) Absent (AnsRead (Inl (ErrWrap ''get: '' ErrReleaseNotFound))) Absent"
| got_anything: "spec_step (OpGet k) Unknown (AnsRead a) Unknown"
| deleted: "spec_step (OpDelete k) (Stored x) (AnsRead (Inr x)) Absent"
| deleted_anything: "spec_step (OpDelete k) Unknown (AnsRead (Inr x)) Absent"
| delete_absent: "spec_step (OpDelete k) Absent (AnsRead (Inl ErrReleaseNotFound)) Absent"
| delete_failed: "st \<noteq> Absent \<Longrightarrow> spec_step (OpDelete k) st (AnsRead (Inl e)) Unknown"

text \<open>A history that the specification allows, from the state of every key.\<close>

inductive spec_accepts ::
  "(string \<Rightarrow> key_state) \<Rightarrow> (driver_op \<times> driver_answer) list \<Rightarrow> (string \<Rightarrow> key_state) \<Rightarrow> bool" where
  accepts_none: "spec_accepts M [] M"
| accepts_step: "spec_step op (M (op_key op)) a st \<Longrightarrow> spec_accepts (M(op_key op := st)) h M' \<Longrightarrow>
     spec_accepts M ((op, a) # h) M'"

section \<open>Running the driver\<close>

text \<open>\<open>None\<close> is an encoding that does not return.\<close>

fun driver_step :: "'w chunkedSecrets \<Rightarrow> driver_op \<Rightarrow> 'w \<Rightarrow> (driver_answer \<times> 'w) option" where
  "driver_step c (OpCreate k r) w = map_option (\<lambda>(a, w'). (AnsWrite a, w')) (cs_Create c k r w)"
| "driver_step c (OpUpdate k r) w = map_option (\<lambda>(a, w'). (AnsWrite a, w')) (cs_Update c k r w)"
| "driver_step c (OpGet k) w = (let (a, w') = cs_Get c k w in Some (AnsRead a, w'))"
| "driver_step c (OpDelete k) w = (let (a, w') = cs_Delete c k w in Some (AnsRead a, w'))"

fun driver_run :: "'w chunkedSecrets \<Rightarrow> driver_op list \<Rightarrow> 'w \<Rightarrow> ((driver_op \<times> driver_answer) list \<times> 'w) option" where
  "driver_run c [] w = Some ([], w)"
| "driver_run c (op # ops) w =
     (case driver_step c op w of
        None \<Rightarrow> None
      | Some (a, w1) \<Rightarrow>
          (case driver_run c ops w1 of None \<Rightarrow> None | Some (h, w2) \<Rightarrow> Some ((op, a) # h, w2)))"

section \<open>Keys and the names of chunks\<close>

definition plain_key :: "string \<Rightarrow> bool" where
  "plain_key k \<longleftrightarrow> CHR ''.'' \<in> set (drop (length k - 13) k)"

lemma plain_key_no_chunk: "plain_key k \<Longrightarrow> k \<noteq> ck_name (chunk_of k' d)"
proof
  assume p: "plain_key k" and eq: "k = ck_name (chunk_of k' d)"
  have "length (hashForData d) = 13" using hashForData_shape by blast
  then have "drop (length k - 13) k = hashForData d" by (simp add: eq)
  with p have "CHR ''.'' \<in> set base32_alphabet" using hashForData_shape [of d] by (auto simp: plain_key_def)
  then show False by (simp add: base32_alphabet_def)
qed

section \<open>A store whose failures stay local\<close>

text \<open>
  A call changes no secret but the ones it names, also when it fails, and a create never
  overwrites; secrets are stored under their names.
\<close>

locale careful_store = reliable_store C lookup for C :: "'w secret_client" and lookup +
  assumes named: "lookup w n = Some s \<Longrightarrow> s_name s = n"
    and create_any: "sc_Create C s w = (r, w') \<Longrightarrow> (\<forall>n. n \<noteq> s_name s \<longrightarrow> lookup w' n = lookup w n)
      \<and> (lookup w (s_name s) \<noteq> None \<longrightarrow> lookup w' = lookup w)
      \<and> (\<forall>t. lookup w' (s_name s) = Some t \<longrightarrow> lookup w (s_name s) = Some t \<or> stored_as s t)"
    and update_any: "sc_Update C s w = (r, w') \<Longrightarrow> (\<forall>n. n \<noteq> s_name s \<longrightarrow> lookup w' n = lookup w n)
      \<and> (\<forall>t. lookup w' (s_name s) = Some t \<longrightarrow> lookup w (s_name s) = Some t \<or> stored_as s t)"
    and delete_any: "sc_DeleteCollection C sel w = (de, w') \<Longrightarrow> lookup w' n = lookup w n
      \<or> lookup w' n = None \<and> (\<exists>s. lookup w n = Some s \<and> selector_matches sel (s_labels s))"
begin

text \<open>
  What an operation on a key may do to a store: other secrets that do not belong to the key stay,
  new ones have the key or the name of a chunk of it, and what has the key belongs to it.
\<close>

definition touches :: "string \<Rightarrow> string \<Rightarrow> 'w \<Rightarrow> 'w \<Rightarrow> bool" where
  "touches owner k w w' \<longleftrightarrow>
     (\<forall>n s. lookup w n = Some s \<longrightarrow> n \<noteq> k \<longrightarrow> \<not> owned_by owner k s \<longrightarrow> lookup w' n = Some s)
     \<and> (\<forall>n. n \<noteq> k \<longrightarrow> lookup w' n \<noteq> None \<longrightarrow> lookup w n = None \<longrightarrow> (\<exists>d. n = ck_name (chunk_of k d)))
     \<and> (\<forall>s. lookup w' k = Some s \<longrightarrow> lookup w k = Some s \<or> owned_by owner k s)"

lemma touches_same: "lookup w' = lookup w \<Longrightarrow> touches owner k w w'"
  by (auto simp: touches_def)

lemma touchesD:
  assumes "touches owner k w w'"
  shows "lookup w n = Some s \<Longrightarrow> n \<noteq> k \<Longrightarrow> \<not> owned_by owner k s \<Longrightarrow> lookup w' n = Some s"
    and "n \<noteq> k \<Longrightarrow> lookup w' n \<noteq> None \<Longrightarrow> lookup w n = None \<Longrightarrow> \<exists>d. n = ck_name (chunk_of k d)"
    and "lookup w' k = Some s \<Longrightarrow> lookup w k = Some s \<or> owned_by owner k s"
  using assms unfolding touches_def by blast+

lemma touches_trans:
  assumes a: "touches owner k w1 w2" and b: "touches owner k w2 w3"
  shows "touches owner k w1 w3"
  unfolding touches_def
proof (intro conjI allI impI)
  show "lookup w1 n = Some s \<Longrightarrow> n \<noteq> k \<Longrightarrow> \<not> owned_by owner k s \<Longrightarrow> lookup w3 n = Some s" for n s
    by (intro touchesD(1) [OF b] touchesD(1) [OF a])
  show "n \<noteq> k \<Longrightarrow> lookup w3 n \<noteq> None \<Longrightarrow> lookup w1 n = None \<Longrightarrow> \<exists>d. n = ck_name (chunk_of k d)" for n
    using touchesD(2) [OF a, of n] touchesD(2) [OF b, of n] by blast
  show "lookup w3 k = Some s \<Longrightarrow> lookup w1 k = Some s \<or> owned_by owner k s" for s
    using touchesD(3) [OF a, of s] touchesD(3) [OF b, of s] by blast
qed

lemma touches_create:
  assumes "sc_Create C s w = (r, w')" and "s_name s = k \<or> (\<exists>d. s_name s = ck_name (chunk_of k d))"
    and "s_labels s ''owner'' = Some owner" and "s_labels s ''key'' = Some k"
  shows "touches owner k w w'"
proof -
  note a = create_any [OF assms(1)]
  have own: "stored_as s t \<Longrightarrow> owned_by owner k t" for t
    using assms(3,4) by (simp add: stored_as_def owned_by_def)
  show ?thesis
    unfolding touches_def
  proof (intro conjI allI impI)
    fix n t assume "lookup w n = Some t" "n \<noteq> k" "\<not> owned_by owner k t"
    then show "lookup w' n = Some t" using a by (cases "n = s_name s") auto
  next
    fix n assume "n \<noteq> k" "lookup w' n \<noteq> None" "lookup w n = None"
    then show "\<exists>d. n = ck_name (chunk_of k d)" using a assms(2) by (cases "n = s_name s") auto
  next
    fix t assume "lookup w' k = Some t"
    then show "lookup w k = Some t \<or> owned_by owner k t" using a own by (cases "k = s_name s") auto
  qed
qed

lemma touches_create_chunks:
  assumes "create_chunks C mk num i chs w = (err, w')"
    and "\<And>ch. ch \<in> set chs \<Longrightarrow> \<exists>d. s_name (mk ch) = ck_name (chunk_of k d)"
    and "\<And>ch. s_labels (mk ch) ''owner'' = Some owner \<and> s_labels (mk ch) ''key'' = Some k"
  shows "touches owner k w w'"
  using assms(1,2)
proof (induction chs arbitrary: i w)
  case Nil
  then show ?case by (simp add: touches_same)
next
  case (Cons ch chs)
  obtain r w1 where c: "sc_Create C (mk ch) w = (r, w1)" by fastforce
  have t: "touches owner k w w1"
    by (rule touches_create [OF c]) (use Cons.prems(2) assms(3) in auto)
  show ?case
  proof (cases r)
    case (Inl e)
    with Cons.prems(1) c t show ?thesis by simp
  next
    case (Inr x)
    with Cons.prems c have "touches owner k w1 w'" by (intro Cons.IH) auto
    with t show ?thesis by (rule touches_trans)
  qed
qed

lemma touches_update:
  assumes "sc_Update C s w = (r, w')" and "s_name s = k"
    and "s_labels s ''owner'' = Some owner" and "s_labels s ''key'' = Some k"
  shows "touches owner k w w'"
  using update_any [OF assms(1)] assms(2-4)
  unfolding touches_def by (auto simp: stored_as_def owned_by_def)

lemma touches_delete:
  assumes "sc_DeleteCollection C sel w = (r, w')"
    and "\<And>s. selector_matches sel (s_labels s) \<Longrightarrow> owned_by owner k s"
  shows "touches owner k w w'"
  unfolding touches_def
proof (intro conjI allI impI)
  fix n s assume "lookup w n = Some s" "n \<noteq> k" "\<not> owned_by owner k s"
  then show "lookup w' n = Some s" using delete_any [OF assms(1), of n] assms(2) by auto
next
  fix n assume "lookup w' n \<noteq> None" "lookup w n = None"
  then show "\<exists>d. n = ck_name (chunk_of k d)" using delete_any [OF assms(1), of n] by auto
next
  fix s assume "lookup w' k = Some s"
  then show "lookup w k = Some s \<or> owned_by owner k s" using delete_any [OF assms(1), of k] by auto
qed

text \<open>The operations of the driver touch only what belongs to their key.\<close>

lemma getIndex_keeps: "cs_client c = C \<Longrightarrow> getIndex c key w = (r, w') \<Longrightarrow> lookup w' = lookup w"
  using get_keeps [of key w] by (auto simp: getIndex_def split: prod.splits sum.splits)

lemma getIndex_found:
  assumes "cs_client c = C" and "getIndex c key w = (Inr s, w')"
  shows "lookup w key = Some s" and "s_name s = key"
proof -
  from assms get_ok [of key w s w'] show "lookup w key = Some s"
    by (auto simp: getIndex_def split: prod.splits sum.splits)
  then show "s_name s = key" by (rule named)
qed

lemma getIndex_missing:
  assumes "cs_client c = C" and "lookup w key = None"
  shows "\<exists>w'. getIndex c key w = (Inl ErrReleaseNotFound, w')"
  using get_absent [OF assms(2)] assms(1) by (auto simp: getIndex_def)

lemma create_touches:
  assumes c: "cs_client c = C" and "0 < cs_ChunkSize c" and "cs_Create c k rls w = Some (a, w')"
  shows "touches (cs_owner c) k w w'"
proof (cases "\<exists>chunks s. encodeReleaseAsChunks c k rls = Some (Ret (Inr chunks))
    \<and> indexSecretFromChunks c k rls chunks = Ret s")
  case False
  with assms(3) have "w' = w"
    by (auto simp: cs_Create_def split: option.splits exit.splits sum.splits)
  then show ?thesis by (simp add: touches_same)
next
  case True
  then obtain chunks s where e: "encodeReleaseAsChunks c k rls = Some (Ret (Inr chunks))"
    and s: "indexSecretFromChunks c k rls chunks = Ret s" by blast
  from encode_Inr [OF assms(2) e] obtain data where
    chs: "chunks = map (chunk_of k) (pieces (nat (cs_ChunkSize c)) data)" by blast
  from s obtain ch chs' where cons: "chunks = ch # chs'"
    by (cases chunks) (auto simp: indexSecretFromChunks_def)
  note ixs = index_secret [OF s [unfolded cons]]
  let ?s = "with_label ''createdAt'' (Itoa (cs_now c w)) s"
  obtain r w1 where i: "sc_Create C ?s w = (r, w1)" by fastforce
  have t1: "touches (cs_owner c) k w w1"
    by (rule touches_create [OF i]) (simp_all add: ixs)
  show ?thesis
  proof (cases r)
    case (Inl x)
    with assms(3) e s i c have "w' = w1" by (auto simp: cs_Create_def Let_def)
    with t1 show ?thesis by simp
  next
    case (Inr ix)
    with create_ok [of ?s w ix w1] i have nm: "s_name ix = k" by (simp add: stored_as_def ixs)
    from assms(3) e s i c Inr obtain err where
      r: "create_chunks C (\<lambda>ch. with_label ''createdAt'' (Itoa (cs_now c w)) (chunkSecretFromChunk c ix ch))
            (length chunks) 0 (tl chunks) w1 = (err, w')"
      by (auto simp: cs_Create_def Let_def split: prod.splits)
    have "touches (cs_owner c) k w1 w'"
      by (rule touches_create_chunks [OF r])
         (auto simp: chs newChunkLabels_def nm chunkSecretFromChunk_def map_tl [symmetric] dest: list.set_sel(2))
    with t1 show ?thesis by (rule touches_trans)
  qed
qed

lemma update_touches:
  assumes c: "cs_client c = C" and "0 < cs_ChunkSize c" and "cs_Update c k rls w = Some (a, w')"
  shows "touches (cs_owner c) k w w'"
proof -
  obtain g w1 where g: "getIndex c k w = (g, w1)" by fastforce
  have t1: "touches (cs_owner c) k w w1" by (rule touches_same [OF getIndex_keeps [OF c g]])
  show ?thesis
  proof (cases g)
    case (Inl e)
    with assms(3) g t1 show ?thesis by (simp add: cs_Update_def)
  next
    case (Inr old)
    then have nm: "s_name old = k" using getIndex_found(2) [OF c] g by simp
    obtain de w2 where dl: "sc_DeleteCollection C (newListChunksForKeySelector (cs_owner c) k) w1 = (de, w2)"
      by fastforce
    have "touches (cs_owner c) k w1 w2"
      by (rule touches_delete [OF dl])
         (auto simp: selector_matches_def newListChunksForKeySelector_def owned_by_def)
    with t1 have t2: "touches (cs_owner c) k w w2" by (rule touches_trans)
    show ?thesis
    proof (cases "w' = w2")
      case True
      with t2 show ?thesis by simp
    next
      case False
      with assms(3) g Inr dl nm c obtain chunks s where
        e: "encodeReleaseAsChunks c k rls = Some (Ret (Inr chunks))"
        and s: "indexSecretFromChunks c k rls chunks = Ret s" and de: "de = None"
        by (auto simp: cs_Update_def Let_def split: option.splits exit.splits sum.splits)
      let ?s = "with_label ''modifiedAt'' (Itoa (cs_now c w2))
         (with_label ''createdAt'' (label_value (s_labels old) ''createdAt'') s)"
      from encode_Inr [OF assms(2) e] obtain data where
        chs: "chunks = map (chunk_of k) (pieces (nat (cs_ChunkSize c)) data)" by blast
      from s obtain ch chs' where cons: "chunks = ch # chs'"
        by (cases chunks) (auto simp: indexSecretFromChunks_def)
      note ixs = index_secret [OF s [unfolded cons]]
      obtain r w3 where u: "sc_Update C ?s w2 = (r, w3)" by fastforce
      have "touches (cs_owner c) k w2 w3"
        by (rule touches_update [OF u]) (simp_all add: ixs)
      with t2 have t3: "touches (cs_owner c) k w w3" by (rule touches_trans)
      show ?thesis
      proof (cases r)
        case Inl': (Inl x)
        with assms(3) g Inr dl nm c de e s u have "w' = w3" by (auto simp: cs_Update_def Let_def)
        with t3 show ?thesis by simp
      next
        case Inr': (Inr ix)
        with update_ok [of ?s w2 ix w3] u have nm': "s_name ix = k" by (simp add: stored_as_def ixs)
        from assms(3) g Inr dl nm c de e s u Inr' obtain err where
          r: "create_chunks C (chunkSecretFromChunk c ix) (length chunks) 0 (tl chunks) w3 = (err, w')"
          by (auto simp: cs_Update_def Let_def split: prod.splits)
        have "touches (cs_owner c) k w3 w'"
          by (rule touches_create_chunks [OF r])
             (auto simp: chs newChunkLabels_def nm' chunkSecretFromChunk_def map_tl [symmetric] dest: list.set_sel(2))
        with t3 show ?thesis by (rule touches_trans)
      qed
    qed
  qed
qed

lemma delete_touches:
  assumes c: "cs_client c = C" and "cs_Delete c k w = (a, w')"
  shows "touches (cs_owner c) k w w'"
proof -
  obtain g w1 where g: "getIndexAndRelease c k w = (g, w1)" by fastforce
  have t1: "touches (cs_owner c) k w w1" by (rule touches_same [OF index_and_release_keeps [OF c g]])
  obtain de w2 where dl: "sc_DeleteCollection C (newListAllForKeySelector (cs_owner c) k) w1 = (de, w2)"
    by fastforce
  have "touches (cs_owner c) k w1 w2"
    by (rule touches_delete [OF dl]) (simp add: owned_by_selector)
  with t1 have t2: "touches (cs_owner c) k w w2" by (rule touches_trans)
  have "w' = w1 \<or> w' = w2"
    using assms(2) g dl c by (auto simp: cs_Delete_def split: sum.splits prod.splits option.splits)
  with t1 t2 show ?thesis by blast
qed

lemma Get_keeps: "cs_client c = C \<Longrightarrow> cs_Get c k w = (a, w') \<Longrightarrow> lookup w' = lookup w"
  using index_and_release_keeps [of c k w] by (auto simp: cs_Get_def split: prod.splits sum.splits)

end

section \<open>The simulation\<close>

text \<open>
  What the store holds for a key in a state of the specification. Whatever has the key as its
  name belongs to it.
\<close>

definition key_sim :: "'w chunkedSecrets \<Rightarrow> (string \<Rightarrow> secret option) \<Rightarrow> string \<Rightarrow> key_state \<Rightarrow> bool" where
  "key_sim c L k st \<longleftrightarrow>
     (\<forall>s. L k = Some s \<longrightarrow> owned_by (cs_owner c) k s)
     \<and> (case st of
          Absent \<Rightarrow> L k = None
        | Unknown \<Rightarrow> True
        | Stored r \<Rightarrow> (\<exists>ds rls. holds_release L (cs_owner c) k ds \<and> r = as_read rls
            \<and> cd_Encode (cs_codec c) (wrapRelease rls) = Inr (concat ds)
            \<and> (cs_MaxReadChunks c \<le> 0 \<or> int (length ds) \<le> cs_MaxReadChunks c)))"

text \<open>A release that may be written may be read.\<close>

definition limits_ok :: "'w chunkedSecrets \<Rightarrow> bool" where
  "limits_ok c \<longleftrightarrow> 0 < cs_ChunkSize c
     \<and> (cs_MaxReadChunks c \<le> 0 \<or> 0 < cs_MaxWriteChunks c \<and> cs_MaxWriteChunks c \<le> cs_MaxReadChunks c)"

lemma encode_returns: "0 < cs_ChunkSize c \<Longrightarrow> encodeReleaseAsChunks c key rls \<noteq> None"
  using encode_pieces [of c rls _ key]
  by (cases "cd_Encode (cs_codec c) (wrapRelease rls)") (auto simp: encodeReleaseAsChunks_def Let_def)

lemma create_returns:
  assumes "0 < cs_ChunkSize c"
  shows "\<exists>a w'. cs_Create c k r w = Some (a, w')"
proof -
  from encode_returns [OF assms] obtain x where x: "encodeReleaseAsChunks c k r = Some x" by blast
  have "cs_Create c k r w \<noteq> None"
    by (simp add: cs_Create_def x Let_def split: exit.split sum.split prod.split)
  then show ?thesis by (metis not_None_eq prod.exhaust)
qed

lemma update_returns:
  assumes "0 < cs_ChunkSize c"
  shows "\<exists>a w'. cs_Update c k r w = Some (a, w')"
proof -
  from encode_returns [OF assms] obtain x where x: "encodeReleaseAsChunks c k r = Some x" by blast
  have "cs_Update c k r w \<noteq> None"
    by (simp add: cs_Update_def x Let_def split: exit.split sum.split prod.split option.split)
  then show ?thesis by (metis not_None_eq prod.exhaust)
qed

context careful_store begin

lemma sim_other:
  assumes t: "touches (cs_owner c) k w w'" and sim: "key_sim c (lookup w) k' st"
    and ne: "k' \<noteq> k" and p: "plain_key k" "plain_key k'"
  shows "key_sim c (lookup w') k' st"
proof -
  have keep: "lookup w' n = Some s"
    if "lookup w n = Some s" "owned_by (cs_owner c) k' s" "n \<noteq> k" for n s
    by (rule touchesD(1) [OF t that(1,3)]) (use that(2) ne in \<open>auto simp: owned_by_def\<close>)
  have none: "lookup w' k' = None" if "lookup w k' = None"
    using touchesD(2) [OF t ne] that plain_key_no_chunk [OF p(2)] by blast
  have here: "lookup w' k' = lookup w k'"
    using sim keep [of k'] none ne by (cases "lookup w k'") (auto simp: key_sim_def)
  have "holds_release (lookup w') (cs_owner c) k' ds" if "holds_release (lookup w) (cs_owner c) k' ds" for ds
  proof -
    from that obtain d ds' s where ds: "ds = d # ds'" and ix: "lookup w k' = Some s" "owned_by (cs_owner c) k' s"
      "s_data s = [''extraChunks'' \<mapsto> MarshalNames (map (\<lambda>d. ck_name (chunk_of k' d)) ds'), ''chunk'' \<mapsto> d]"
      and ch: "\<And>d. d \<in> set ds' \<Longrightarrow> \<exists>s. lookup w (ck_name (chunk_of k' d)) = Some s
        \<and> owned_by (cs_owner c) k' s \<and> s_data s ''chunk'' = Some d"
      unfolding holds_release_def by blast
    have "\<exists>s. lookup w' (ck_name (chunk_of k' d)) = Some s \<and> owned_by (cs_owner c) k' s
        \<and> s_data s ''chunk'' = Some d" if "d \<in> set ds'" for d
      using ch [OF that] keep plain_key_no_chunk [OF p(1), symmetric] by blast
    with ds ix show ?thesis unfolding holds_release_def here by blast
  qed
  with sim here show ?thesis by (fastforce simp: key_sim_def split: key_state.splits)
qed

text \<open>One operation, on its own key.\<close>

lemma create_present:
  assumes c: "cs_client c = C" and "lookup w k \<noteq> None" and "cs_Create c k rls w = Some (a, w')"
  shows "lookup w' = lookup w"
proof (cases "\<exists>chunks s. encodeReleaseAsChunks c k rls = Some (Ret (Inr chunks))
    \<and> indexSecretFromChunks c k rls chunks = Ret s")
  case False
  with assms(3) show ?thesis
    by (auto simp: cs_Create_def split: option.splits exit.splits sum.splits)
next
  case True
  then obtain chunks s where e: "encodeReleaseAsChunks c k rls = Some (Ret (Inr chunks))"
    and s: "indexSecretFromChunks c k rls chunks = Ret s" by blast
  then obtain ch chs' where cons: "chunks = ch # chs'"
    by (cases chunks) (auto simp: indexSecretFromChunks_def)
  note ixs = index_secret [OF s [unfolded cons]]
  let ?s = "with_label ''createdAt'' (Itoa (cs_now c w)) s"
  obtain r w1 where i: "sc_Create C ?s w = (r, w1)" by fastforce
  then obtain x where "r = Inl x"
    using create_ok [of ?s w _ w1] assms(2) by (cases r) (auto simp: ixs)
  with assms(3) e s i c have "w' = w1" by (auto simp: cs_Create_def Let_def)
  with create_any [OF i] assms(2) show ?thesis by (simp add: ixs)
qed

lemma sim_holds:
  assumes "holds_release L (cs_owner c) k ds" and "cd_Encode (cs_codec c) (wrapRelease rls) = Inr (concat ds)"
    and "cs_MaxWriteChunks c > 0 \<longrightarrow> int (length ds) \<le> cs_MaxWriteChunks c" and "limits_ok c"
  shows "key_sim c L k (Stored (as_read rls))"
proof -
  have "cs_MaxReadChunks c \<le> 0 \<or> int (length ds) \<le> cs_MaxReadChunks c"
    using assms(3,4) by (auto simp: limits_ok_def)
  with assms(1,2) show ?thesis by (auto simp: key_sim_def holds_release_def)
qed

lemma sim_unknown:
  assumes "touches (cs_owner c) k w w'" and "key_sim c (lookup w) k st"
  shows "key_sim c (lookup w') k Unknown"
  using touchesD(3) [OF assms(1)] assms(2) by (auto simp: key_sim_def)

lemma sim_reads:
  assumes "key_sim c (lookup w) k (Stored r)" and "cs_client c = C" and "codec_ok (cs_codec c)"
  shows "\<exists>w'. cs_Get c k w = (Inr r, w')"
  using assms read_release [OF _ assms(2,3), of w k] by (fastforce simp: key_sim_def as_read_def)

lemma step_create:
  assumes c: "cs_client c = C" "codec_ok (cs_codec c)" "limits_ok c" and sim: "key_sim c (lookup w) k st"
    and step: "cs_Create c k rls w = Some (a, w')"
  shows "\<exists>st'. spec_step (OpCreate k rls) st (AnsWrite a) st' \<and> key_sim c (lookup w') k st'"
proof -
  have pos: "0 < cs_ChunkSize c" using c(3) by (simp add: limits_ok_def)
  show ?thesis
  proof (cases "a = Ret None")
    case True
    from create_holds [OF step [unfolded True] c(1) pos c(2)] obtain ds where ds:
      "cd_Encode (cs_codec c) (wrapRelease rls) = Inr (concat ds)"
      "holds_release (lookup w') (cs_owner c) k ds" "lookup w k = None"
      "cs_MaxWriteChunks c > 0 \<longrightarrow> int (length ds) \<le> cs_MaxWriteChunks c" by blast
    have "\<nexists>x. st = Stored x" using sim ds(3) by (auto simp: key_sim_def holds_release_def)
    then show ?thesis
      unfolding True using sim_holds [OF ds(2,1,4) c(3)] spec_step.created by blast
  next
    case False
    note unknown = sim_unknown [OF create_touches [OF c(1) pos step] sim]
    show ?thesis
    proof (cases "\<exists>x. st = Stored x")
      case True
      then obtain x where x: "st = Stored x" by blast
      have "lookup w k \<noteq> None" using sim x by (auto simp: key_sim_def holds_release_def)
      then have "lookup w' = lookup w" by (rule create_present [OF c(1) _ step])
      with sim x False show ?thesis by (auto intro: create_refused)
    next
      case absent: False
      with False unknown show ?thesis by (blast intro: create_failed)
    qed
  qed
qed

lemma step_update:
  assumes c: "cs_client c = C" "codec_ok (cs_codec c)" "limits_ok c" and sim: "key_sim c (lookup w) k st"
    and step: "cs_Update c k rls w = Some (a, w')"
  shows "\<exists>st'. spec_step (OpUpdate k rls) st (AnsWrite a) st' \<and> key_sim c (lookup w') k st'"
proof -
  have pos: "0 < cs_ChunkSize c" using c(3) by (simp add: limits_ok_def)
  consider "a = Ret None" | "a \<noteq> Ret None" "st = Absent" | "a \<noteq> Ret None" "st \<noteq> Absent" by blast
  then show ?thesis
  proof cases
    case 1
    from update_holds [OF step [unfolded 1] c(1) pos c(2)] obtain ds where ds:
      "cd_Encode (cs_codec c) (wrapRelease rls) = Inr (concat ds)"
      "holds_release (lookup w') (cs_owner c) k ds" "lookup w k \<noteq> None"
      "cs_MaxWriteChunks c > 0 \<longrightarrow> int (length ds) \<le> cs_MaxWriteChunks c" by blast
    have "st \<noteq> Absent" using sim ds(3) by (auto simp: key_sim_def)
    then show ?thesis
      unfolding 1 using sim_holds [OF ds(2,1,4) c(3)] spec_step.updated by blast
  next
    case 2
    then have none: "lookup w k = None" using sim by (simp add: key_sim_def)
    from getIndex_missing [OF c(1) none] obtain w1 where g: "getIndex c k w = (Inl ErrReleaseNotFound, w1)"
      by blast
    with step have "a = Ret (Some (ErrWrap ''update: '' ErrReleaseNotFound))" "w' = w1"
      by (simp_all add: cs_Update_def)
    moreover have "key_sim c (lookup w1) k Absent"
      using none getIndex_keeps [OF c(1) g] by (simp add: key_sim_def)
    ultimately show ?thesis using 2 by (auto intro: update_absent)
  next
    case 3
    with sim_unknown [OF update_touches [OF c(1) pos step] sim] show ?thesis by (blast intro: update_failed)
  qed
qed

lemma index_missing:
  assumes "cs_client c = C" and "lookup w k = None"
  shows "\<exists>w1. getIndexAndRelease c k w = (Inl ErrReleaseNotFound, w1)"
  using getIndex_missing [OF assms] by (auto simp: getIndexAndRelease_def)

lemma step_get:
  assumes c: "cs_client c = C" "codec_ok (cs_codec c)" and sim: "key_sim c (lookup w) k st"
    and step: "cs_Get c k w = (a, w')"
  shows "\<exists>st'. spec_step (OpGet k) st (AnsRead a) st' \<and> key_sim c (lookup w') k st'"
proof -
  have "spec_step (OpGet k) st (AnsRead a) st"
  proof (cases st)
    case Absent
    then have "lookup w k = None" using sim by (simp add: key_sim_def)
    from index_missing [OF c(1) this] step have "a = Inl (ErrWrap ''get: '' ErrReleaseNotFound)"
      by (auto simp: cs_Get_def)
    with Absent show ?thesis by (simp add: got_nothing)
  next
    case (Stored x)
    with sim_reads [OF _ c, of w k x] sim step have "a = Inr x" by auto
    with Stored show ?thesis by (simp add: got)
  next
    case Unknown
    then show ?thesis by (simp add: got_anything)
  qed
  with sim Get_keeps [OF c(1) step] show ?thesis by auto
qed

lemma step_delete:
  assumes c: "cs_client c = C" "codec_ok (cs_codec c)" and sim: "key_sim c (lookup w) k st"
    and step: "cs_Delete c k w = (a, w')"
  shows "\<exists>st'. spec_step (OpDelete k) st (AnsRead a) st' \<and> key_sim c (lookup w') k st'"
proof (cases a)
  case (Inr x)
  from delete_lookup [OF step [unfolded Inr] c(1)] sim have gone: "key_sim c (lookup w') k Absent"
    by (auto simp: key_sim_def split: option.splits)
  have "spec_step (OpDelete k) st (AnsRead (Inr x)) Absent"
  proof (cases st)
    case Absent
    then have "lookup w k = None" using sim by (simp add: key_sim_def)
    from index_missing [OF c(1) this] step Inr show ?thesis by (auto simp: cs_Delete_def)
  next
    case (Stored y)
    with sim_reads [OF _ c, of w k y] sim obtain w1 where "cs_Get c k w = (Inr y, w1)" by blast
    from get_delete_same [OF this step [unfolded Inr]] Stored show ?thesis by (simp add: spec_step.deleted)
  next
    case Unknown
    then show ?thesis by (simp add: deleted_anything)
  qed
  with Inr gone show ?thesis by blast
next
  case (Inl e)
  show ?thesis
  proof (cases "st = Absent")
    case True
    then have none: "lookup w k = None" using sim by (simp add: key_sim_def)
    from index_missing [OF c(1) none] step Inl have "e = ErrReleaseNotFound"
      by (auto simp: cs_Delete_def)
    moreover have "key_sim c (lookup w') k Absent"
    proof -
      from index_missing [OF c(1) none] obtain w1 where g: "getIndexAndRelease c k w = (Inl ErrReleaseNotFound, w1)"
        by blast
      with step have "w' = w1" by (simp add: cs_Delete_def)
      with index_and_release_keeps [OF c(1) g] none show ?thesis by (simp add: key_sim_def)
    qed
    ultimately show ?thesis using True Inl delete_absent by blast
  next
    case False
    with sim_unknown [OF delete_touches [OF c(1) step] sim] Inl show ?thesis by (blast intro: delete_failed)
  qed
qed

lemma step_any:
  assumes c: "cs_client c = C" "codec_ok (cs_codec c)" "limits_ok c"
    and sim: "key_sim c (lookup w) (op_key op) st"
  shows "\<exists>a w' st'. driver_step c op w = Some (a, w') \<and> spec_step op st a st'
    \<and> key_sim c (lookup w') (op_key op) st' \<and> touches (cs_owner c) (op_key op) w w'"
proof -
  have pos: "0 < cs_ChunkSize c" using c(3) by (simp add: limits_ok_def)
  show ?thesis
  proof (cases op)
    case (OpCreate k rls)
    from create_returns [OF pos] obtain a w' where s: "cs_Create c k rls w = Some (a, w')" by blast
    from step_create [OF c _ s] create_touches [OF c(1) pos s] sim s OpCreate show ?thesis by auto
  next
    case (OpUpdate k rls)
    from update_returns [OF pos] obtain a w' where s: "cs_Update c k rls w = Some (a, w')" by blast
    from step_update [OF c _ s] update_touches [OF c(1) pos s] sim s OpUpdate show ?thesis by auto
  next
    case (OpGet k)
    obtain a w' where s: "cs_Get c k w = (a, w')" by fastforce
    from step_get [OF c(1,2) _ s] touches_same [OF Get_keeps [OF c(1) s]] sim s OpGet show ?thesis by auto
  next
    case (OpDelete k)
    obtain a w' where s: "cs_Delete c k w = (a, w')" by fastforce
    from step_delete [OF c(1,2) _ s] delete_touches [OF c(1) s] sim s OpDelete show ?thesis by auto
  qed
qed

text \<open>Every run is one that the specification allows.\<close>

lemma run_accepted:
  assumes c: "cs_client c = C" "codec_ok (cs_codec c)" "limits_ok c"
    and "\<forall>op \<in> set ops. plain_key (op_key op)"
    and "\<forall>k. plain_key k \<longrightarrow> k \<in> op_key ` set ops \<longrightarrow> key_sim c (lookup w) k (M k)"
  shows "\<exists>h w' M'. driver_run c ops w = Some (h, w') \<and> map fst h = ops \<and> spec_accepts M h M'"
  using assms(4,5)
proof (induction ops arbitrary: w M)
  case Nil
  then show ?case by (auto intro: accepts_none)
next
  case (Cons op ops)
  let ?k = "op_key op"
  from step_any [OF c, of w op "M ?k"] Cons.prems obtain a w1 st where
    s: "driver_step c op w = Some (a, w1)" "spec_step op (M ?k) a st" "key_sim c (lookup w1) ?k st"
    and t: "touches (cs_owner c) ?k w w1" by auto
  have "key_sim c (lookup w1) k ((M(?k := st)) k)" if "plain_key k" "k \<in> op_key ` set ops" for k
    using s(3) sim_other [OF t, of k "M k"] Cons.prems that by auto
  with Cons.prems(1) have "\<exists>h w' M'. driver_run c ops w1 = Some (h, w') \<and> map fst h = ops
      \<and> spec_accepts (M(?k := st)) h M'"
    by (intro Cons.IH) (blast intro: list.set_intros(2))+
  then obtain h w' M' where
    "driver_run c ops w1 = Some (h, w')" "map fst h = ops" "spec_accepts (M(?k := st)) h M'" by blast
  with s show ?case by (auto intro: accepts_step)
qed

end

end
