(* ===== verification/StorageProps.thy ===== *)
theory StorageProps
  imports StorageSpec ChunkedProps
begin

text \<open>
  The release storage refines a map from keys to releases: the contract of \<open>StorageSpec\<close>,
  discharged for the store in memory.
\<close>

interpretation careful_mem: careful_store mem_client mem_lookup
proof
  show "mem_lookup w n = Some s \<Longrightarrow> s_name s = n" for w n s
    by (rule mem_lookup_name)
  show "sc_Create mem_client s w = (r, w') \<Longrightarrow>
      (\<forall>n. n \<noteq> s_name s \<longrightarrow> mem_lookup w' n = mem_lookup w n)
      \<and> (mem_lookup w (s_name s) \<noteq> None \<longrightarrow> mem_lookup w' = mem_lookup w)
      \<and> (\<forall>t. mem_lookup w' (s_name s) = Some t \<longrightarrow> mem_lookup w (s_name s) = Some t \<or> stored_as s t)"
    for s w r w'
    by (auto simp: mem_client_def Let_def stored_as_def split: option.splits)
  show "sc_Update mem_client s w = (r, w') \<Longrightarrow>
      (\<forall>n. n \<noteq> s_name s \<longrightarrow> mem_lookup w' n = mem_lookup w n)
      \<and> (\<forall>t. mem_lookup w' (s_name s) = Some t \<longrightarrow> mem_lookup w (s_name s) = Some t \<or> stored_as s t)"
    for s w r w'
    by (auto simp: mem_client_def stored_as_def split: option.splits)
  show "sc_DeleteCollection mem_client sel w = (de, w') \<Longrightarrow> mem_lookup w' n = mem_lookup w n
      \<or> mem_lookup w' n = None \<and> (\<exists>s. mem_lookup w n = Some s \<and> selector_matches sel (s_labels s))"
    for sel w de w' n
    by (auto simp: mem_client_def mem_lookup_filter split: option.splits if_splits)
qed

text \<open>A create, a read, a second create, a delete and a read of a key of Helm's form.\<close>

definition small_key :: string where
  "small_key = ''sh.helm.release.v1.web.v1''"

definition small_ops :: "driver_op list" where
  "small_ops = [OpGet small_key, OpCreate small_key small_release, OpGet small_key,
     OpUpdate small_key small_release, OpDelete small_key, OpDelete small_key]"



end
