(* ===== verification/HelmLayer.thy ===== *)
theory HelmLayer
  imports Lifecycle
begin

text \<open>
  The action client of \<open>pkg/client\<close> over Helm: when Helm keeps its promises, the client is one
  that the loop can rely on, through failed installs that are uninstalled and failed upgrades that
  are rolled back.
\<close>

text \<open>
  What Helm promises for a configuration whose namespace is \<open>ns\<close>: its actions work on the
  release they are named, and only an install, an upgrade or a rollback can make one.
\<close>

locale helm_layer =
  fixes H :: "'w helm" and ns :: string and R :: "'w view" and G :: "'w view"
  assumes helm_get: "calm R G k w (snd (helm_Get H act name w))"
    and helm_build: "calm R G k w (snd (helm_Build H manifest w))"
    and helm_obj_get: "calm R G k w (snd (helm_ObjGet H info w))"
    and helm_obj_create: "calm R G k w (snd (helm_ObjCreate H info w))"
    and helm_obj_patch: "calm R G k w (snd (helm_ObjPatch H info pt patch w))"
    and helm_install: "ia_namespace ia = ns \<Longrightarrow>
        keeps_guard R G (ns, ia_release_name ia) w (snd (helm_Install H ia ch vs w))"
    and helm_upgrade: "ua_namespace ua = ns \<Longrightarrow> keeps_guard R G (ns, name) w (snd (helm_Upgrade H ua name ch vs w))"
    and helm_rollback: "keeps_guard R G (ns, name) w (snd (helm_Rollback H ra name w))"
    and helm_uninstall: "helm_Uninstall H una name w = ((resp, err), w') \<Longrightarrow>
        calm R G (ns, name) w w' \<and> (err = None \<or> opt_Is err ErrReleaseNotFound \<longrightarrow> \<not> R w' (ns, name))"
begin

lemma client_Get_calm: "conf c = H \<Longrightarrow> calm R G k w (snd (client_Get c name opts w))"
  by (auto simp: client_Get_def helm_get change_refl split: sum.splits)

lemma visit_calm:
  assumes "\<And>i e w. calm R G k w (snd (f i e w))"
  shows "calm R G k w (snd (visit_infos f infos w))"
proof (induction infos arbitrary: w)
  case Nil
  show ?case by (simp add: change_refl)
next
  case (Cons ie infos)
  obtain i e where ie: "ie = (i, e)" by fastforce
  obtain r w1 where f: "f i e w = (r, w1)" by fastforce
  with assms [of w i e] have "calm R G k w w1" by simp
  with Cons.IH [of w1] f ie show ?case by (auto split: option.splits intro: calm_trans)
qed

lemma reconcile_object_calm: "calm R G k w (snd (reconcile_object PL H i e w))"
proof (cases e)
  case (Some x)
  then show ?thesis by (simp add: reconcile_object_def change_refl)
next
  case None
  obtain r w1 where g: "helm_ObjGet H i w = (r, w1)" by fastforce
  with helm_obj_get [of k w i] have 1: "calm R G k w w1" by simp
  have c: "calm R G k w w2" if "helm_ObjCreate H i w1 = (x, w2)" for x w2
    using calm_trans [OF 1] helm_obj_create [of k w1 i] that by simp
  have p: "calm R G k w w2" if "helm_ObjPatch H i t q w1 = (x, w2)" for x w2 t q
    using calm_trans [OF 1] helm_obj_patch [of k w1 i t q] that by simp
  show ?thesis
    using None g 1
    by (auto simp: reconcile_object_def split: sum.splits option.splits prod.splits dest: c p)
qed

lemma client_Reconcile_calm:
  assumes "conf c = H"
  shows "calm R G k w (snd (client_Reconcile PL c rel w))"
proof -
  obtain r w1 where b: "helm_Build H (rel_manifest rel) w = (r, w1)" by fastforce
  with helm_build [of k w "rel_manifest rel"] have 1: "calm R G k w w1" by simp
  have "calm R G k w1 (snd (visit_infos (reconcile_object PL H) infos w1))" for infos
    by (rule visit_calm [OF reconcile_object_calm])
  with calm_trans [OF 1] 1 b assms show ?thesis by (auto simp: client_Reconcile_def split: sum.splits)
qed

lemma client_uninstall_calm:
  assumes "conf c = H" and "client_uninstall c name opts w = ((resp, err), w')"
  shows "calm R G (ns, name) w w'"
    and "honest_opts opts \<Longrightarrow> err = None \<or> opt_Is err ErrReleaseNotFound \<Longrightarrow> \<not> R w' (ns, name)"
proof -
  have honest: "\<not> errors_Is e ErrReleaseNotFound"
    if "run_options os a = Inl e" "honest_opts os" for os and a :: uninstall_action and e
    using that by (induction os arbitrary: a) (auto simp: honest_opts_def split: sum.splits)
  show "calm R G (ns, name) w w'"
    using assms helm_uninstall by (auto simp: client_uninstall_def change_refl split: sum.splits)
  show "honest_opts opts \<Longrightarrow> err = None \<or> opt_Is err ErrReleaseNotFound \<Longrightarrow> \<not> R w' (ns, name)"
    using assms helm_uninstall honest by (fastforce simp: client_uninstall_def split: sum.splits)
qed

lemma client_Install_guards:
  assumes "conf c = H"
  shows "keeps_guard R G (ns, name) w (snd (client_Install c name ns ch vs opts w))"
proof (cases "run_options (concat_opts (defaultInstallOpts c) opts) (helm_NewInstall H)")
  case (Inl e)
  then show ?thesis by (simp add: client_Install_def assms change_refl)
next
  case (Inr ia)
  let ?ia = "ia\<lparr>ia_release_name := name, ia_namespace := ns\<rparr>"
  obtain rel err w1 where i: "helm_Install H ?ia ch vs w = ((rel, err), w1)" by (metis surj_pair)
  have 1: "keeps_guard R G (ns, name) w w1" using helm_install [of ?ia w ch vs] i by simp
  have "keeps_guard R G (ns, name) w w2"
    if "client_uninstall c name (installFailureUninstallOpts c) w1 = (x, w2)" for x w2
    using keeps_guard_trans [OF 1] calmD(2) [OF client_uninstall_calm(1) [OF assms, of name _ w1 "fst x" "snd x" w2]] that
    by simp
  with 1 Inr i assms show ?thesis
    by (auto simp: client_Install_def split: option.splits prod.splits if_splits)
qed

lemma client_rollback_guards:
  "conf c = H \<Longrightarrow> keeps_guard R G (ns, name) w (snd (client_rollback c name opts w))"
  by (auto simp: client_rollback_def helm_rollback change_refl split: sum.splits)

lemma client_Upgrade_guards:
  assumes "conf c = H"
  shows "keeps_guard R G (ns, name) w (snd (client_Upgrade c name ns ch vs opts w))"
proof (cases "run_options (concat_opts (defaultUpgradeOpts c) opts) (helm_NewUpgrade H)")
  case (Inl e)
  then show ?thesis by (simp add: client_Upgrade_def assms change_refl)
next
  case (Inr ua)
  let ?ua = "ua\<lparr>ua_namespace := ns\<rparr>"
  obtain rel err w1 where i: "helm_Upgrade H ?ua name ch vs w = ((rel, err), w1)" by (metis surj_pair)
  have 1: "keeps_guard R G (ns, name) w w1" using helm_upgrade [of ?ua name w ch vs] i by simp
  have "keeps_guard R G (ns, name) w w2" if "client_rollback c name os w1 = (x, w2)" for os x w2
    using keeps_guard_trans [OF 1] client_rollback_guards [OF assms, of name w1 os] that by simp
  with 1 Inr i assms show ?thesis
    by (auto simp: client_Upgrade_def Let_def split: option.splits prod.splits if_splits)
qed

lemma client_ok:
  assumes "conf c = H" and "honest_opts (defaultUninstallOpts c)"
  shows "helm_ok R G (ns, name) (action_interface_of PL c)"
proof -
  have u: "calm R G (ns, name) w w' \<and> (honest_opts os \<longrightarrow> err = None \<or> opt_Is err ErrReleaseNotFound \<longrightarrow> \<not> R w' (ns, name))"
    if "client_Uninstall c name os w = ((resp, err), w')" for os w resp err w'
  proof -
    have h: "honest_opts (concat_opts (defaultUninstallOpts c) os)" if "honest_opts os"
      using that assms(2) by (auto simp: honest_opts_def concat_opts_def)
    from client_uninstall_calm [OF assms(1) that [unfolded client_Uninstall_def]] h show ?thesis by blast
  qed
  show ?thesis
    unfolding helm_ok_def action_interface_of_def
    by (simp add: client_Get_calm client_Reconcile_calm client_Install_guards client_Upgrade_guards assms(1))
       (use u in blast)
qed

end

end
