(* ===== verification/Operator.thy ===== *)
theory Operator
  imports HelmLayer RunProps
begin

text \<open>
  The parts put together: the reconcilers that the command of
  \<open>internal/cmd/helm-operator/run\<close> makes from the watches file, with the action client
  getter, the translator, the watcher of dependents and the annotations that the code itself
  supplies, run the loop in surroundings that keep their promises as soon as the API server, the
  controllers and Helm do.
\<close>

section \<open>The reconciler of an entry\<close>

text \<open>The runtime of the reconciler that \<open>setup_watch\<close> makes of an entry.\<close>

definition watch_runtime ::
  "value_lib \<Rightarrow> flags \<Rightarrow> ('c, 'd, 'w) manager \<Rightarrow> watch \<Rightarrow> 'w \<Rightarrow> 'w runtime option" where
  "watch_runtime V f mgr wt w =
     (case (w_chart wt, w_selector wt, w_watch_dependents wt) of
        (Some chrt, Some sel, Some dependents) \<Rightarrow>
          (case New_reconciler (watch_options V f wt chrt sel dependents) of
             Inl e \<Rightarrow> None
           | Inr r \<Rightarrow>
               (case SetupWithManager mgr r w of
                  ((Ret None, r'), w') \<Rightarrow> runtime_of r'
                | _ \<Rightarrow> None))
      | _ \<Rightarrow> None)"

text \<open>The runtimes of all entries, set up one after the other as \<open>setup_all\<close> does.\<close>

fun watch_runtimes ::
  "value_lib \<Rightarrow> flags \<Rightarrow> ('c, 'd, 'w) manager \<Rightarrow> watch list \<Rightarrow> 'w \<Rightarrow> 'w runtime list" where
  "watch_runtimes V f mgr [] w = []"
| "watch_runtimes V f mgr (wt # wts) w =
     (case watch_runtime V f mgr wt w of
        None \<Rightarrow> []
      | Some rt \<Rightarrow> rt # watch_runtimes V f mgr wts (snd (setup_watch V f mgr wt w)))"

lemma watch_options_result:
  assumes "New_reconciler (watch_options V f wt chrt sel dependents) = Inr r"
  shows "c_client r = None" and "c_actionClientGetter r = None" and "c_valueTranslator r = None"
    and "c_eventRecorder r = None" and "c_preHooks r = []" and "c_postHooks r = []"
    and "c_pauseHandler r = None" and "c_controllerSetupFuncs r = []"
    and "c_uninstallAnnotations r = map (\<lambda>a. (un_Name a, a)) DefaultUninstallAnnotations"
  using assms
  by (auto simp: New_watch_options setupAnnotationMaps_def split: prod.splits option.splits if_splits)

lemma setup_watch_parts:
  assumes "setup_watch V f mgr wt w = (None, w')"
  obtains chrt sel dependents r r' where "w_chart wt = Some chrt" and "w_selector wt = Some sel"
    and "w_watch_dependents wt = Some dependents"
    and "New_reconciler (watch_options V f wt chrt sel dependents) = Inr r"
    and "SetupWithManager mgr r w = ((Ret None, r'), w')"
  using assms by (auto simp: setup_watch_def split: option.splits sum.splits prod.splits exit.splits)

lemma watch_options_family: "list_all (reconciler_option V) (watch_options V f wt chrt sel dependents)"
  by (simp add: watch_options_def reconciler_option.intros)

text \<open>Every entry that is set up has a reconciler whose loop can run.\<close>

lemma setup_watch_runtime:
  assumes "setup_watch V f mgr wt w = (None, w')"
  shows "\<exists>rt. watch_runtime V f mgr wt w = Some rt"
proof (rule setup_watch_parts [OF assms])
  fix chrt sel dependents r r'
  assume p: "w_chart wt = Some chrt" "w_selector wt = Some sel" "w_watch_dependents wt = Some dependents"
    "New_reconciler (watch_options V f wt chrt sel dependents) = Inr r"
    "SetupWithManager mgr r w = ((Ret None, r'), w')"
  note wf = New_reconciler_wf [OF p(4) watch_options_family]
  from setup_runtime [OF p(5) wf(4,2)] p show ?thesis by (auto simp: watch_runtime_def)
qed

lemma watch_runtimes_all:
  assumes "setup_all V f mgr wts w = (None, w')"
  shows "length (watch_runtimes V f mgr wts w) = length wts"
    and "rt \<in> set (watch_runtimes V f mgr wts w) \<Longrightarrow> \<exists>wt w1. wt \<in> set wts \<and> watch_runtime V f mgr wt w1 = Some rt"
proof -
  have "length (watch_runtimes V f mgr wts w) = length wts
      \<and> (rt \<in> set (watch_runtimes V f mgr wts w) \<longrightarrow> (\<exists>wt w1. wt \<in> set wts \<and> watch_runtime V f mgr wt w1 = Some rt))"
    using assms
  proof (induction wts arbitrary: w)
    case Nil
    then show ?case by simp
  next
    case (Cons wt wts)
    from Cons.prems obtain w1 where s: "setup_watch V f mgr wt w = (None, w1)"
      and r: "setup_all V f mgr wts w1 = (None, w')" by (auto split: prod.splits option.splits)
    from setup_watch_runtime [OF s] obtain rt1 where "watch_runtime V f mgr wt w = Some rt1" by blast
    with Cons.IH [OF r] s show ?case by auto
  qed
  then show "length (watch_runtimes V f mgr wts w) = length wts"
    and "rt \<in> set (watch_runtimes V f mgr wts w) \<Longrightarrow> \<exists>wt w1. wt \<in> set wts \<and> watch_runtime V f mgr wt w1 = Some rt"
    by blast+
qed

lemma default_uninstall_honest:
  "rt_uninstallAnnotations r = map (\<lambda>a. (un_Name a, a)) DefaultUninstallAnnotations \<Longrightarrow>
     honest_opts (uninstall_options r obj)"
  by (auto simp: uninstall_options_def annotation_options_def honest_opts_def
      DefaultUninstallAnnotations_def annotation_defs split: option.splits)

lemma watch_runtime_parts:
  assumes "watch_runtime V f mgr wt w = Some rt"
  obtains g c nm n w0 w1 where "default_getter mgr = Inr g"
    and "mgr_NewController mgr nm n w0 = (Inr c, w1)"
    and "rt_client rt = mgr_GetClient mgr" and "rt_actionClientGetter rt = g"
    and "rt_valueTranslator rt = (\<lambda>u w. ((DefaultTranslator u, u), w))"
    and "rt_eventRecorder rt = mgr_GetEventRecorderFor mgr nm" and "rt_preHooks rt = []"
    and "rt_postHooks rt = [] \<or> rt_postHooks rt =
       [watcher_hook mgr (fst (NewDependentResourceWatcher c (mgr_GetRESTMapper mgr) (mgr_manifest_lib mgr)))]"
    and "rt_pauseHandler rt = None"
    and "rt_uninstallAnnotations rt = map (\<lambda>a. (un_Name a, a)) DefaultUninstallAnnotations"
proof -
  from assms obtain chrt sel dependents r r' w' where
    n: "New_reconciler (watch_options V f wt chrt sel dependents) = Inr r"
    and s: "SetupWithManager mgr r w = ((Ret None, r'), w')" and rt: "runtime_of r' = Some rt"
    by (auto simp: watch_runtime_def split: option.splits sum.splits prod.splits exit.splits)
  note o = watch_options_result [OF n]
  obtain g nm r1 w1 w2 w3 c where d: "c_gvk r = Some g" "addDefaults mgr nm r = (None, r1)"
    and c: "mgr_NewController mgr nm (c_maxConcurrentReconciles r1) w1 = (Inr c, w2)"
    and sw: "setupWatches mgr c g r1 w2 = ((None, r'), w3)"
    by (rule SetupWithManager_ok [OF s])
  obtain ag where ag: "c_actionClientGetter r = Some ag \<or> default_getter mgr = Inr ag"
    and r1: "r1 = r\<lparr>c_client := set_default (mgr_GetClient mgr) (c_client r), c_actionClientGetter := Some ag,
      c_eventRecorder := set_default (mgr_GetEventRecorderFor mgr nm) (c_eventRecorder r),
      c_valueTranslator := set_default (\<lambda>u w. ((DefaultTranslator u, u), w)) (c_valueTranslator r),
      c_valueMapper := set_default DefaultMapper (c_valueMapper r),
      c_waitForDeletionTimeout := (if c_waitForDeletionTimeout r = 0 then DefaultWaitForDeletionTimeout
        else c_waitForDeletionTimeout r),
      c_maxReleaseHistory := set_default DefaultMaxReleaseHistory (c_maxReleaseHistory r)\<rparr>"
    by (rule addDefaults_form [OF d(2)])
  have hooks: "r' = r1\<lparr>c_postHooks := hooks_after_setup mgr c r1\<rparr>"
    using setupWatches_ok [OF sw] by (auto simp: hooks_after_setup_def split: if_splits)
  have "c_postHooks r1 = []" by (simp add: r1 o)
  then have ph: "c_postHooks r' = [] \<or> c_postHooks r' =
       [watcher_hook mgr (fst (NewDependentResourceWatcher c (mgr_GetRESTMapper mgr) (mgr_manifest_lib mgr)))]"
    by (simp add: hooks hooks_after_setup_def)
  show ?thesis
  proof (rule that [OF _ c])
    show "default_getter mgr = Inr ag" using ag o by simp
    show "rt_postHooks rt = [] \<or> rt_postHooks rt =
       [watcher_hook mgr (fst (NewDependentResourceWatcher c (mgr_GetRESTMapper mgr) (mgr_manifest_lib mgr)))]"
      using rt ph by (auto simp: runtime_of_def split: option.splits)
  qed (use rt in \<open>simp_all add: runtime_of_def hooks r1 o split: option.splits, auto\<close>)
qed

section \<open>The default action client getter\<close>

text \<open>
  Without options the configuration for a resource is made for the namespace of the resource, and
  making it does not change the world.
\<close>

lemma default_config:
  assumes "NewActionConfigGetter S disc cfg rm [] = Inr acg0" and "ActionConfigFor acg0 obj w = (x, w')"
  shows "w' = w \<and> (\<forall>cf. x = Ret (Inr cf) \<longrightarrow> ac_KubeClient_namespace cf = u_namespace obj)"
proof -
  have "acg0 = fill_getter S \<lparr>ag_baseRestConfig = cfg, ag_restMapper = rm,
      ag_discoveryClient = MemCacheClient cfg, ag_objectToClientRestConfig = None,
      ag_objectToClientNamespace = None, ag_objectToStorageRestConfig = None,
      ag_objectToStorageDriver = None, ag_objectToStorageNamespace = None,
      ag_disableStorageOwnerRefInjection = False\<rparr>"
    using assms(1) by (simp add: NewActionConfigGetter_def split: option.splits)
  with assms(2) show ?thesis
    by (auto simp: fill_getter_def ActionConfigFor_def copy_base_config_def getObjectNamespace_def
        DefaultSecretsStorageDriver_def Let_def split: sum.splits)
qed

lemma default_getter_client:
  assumes "default_getter mgr = Inr g" and "g obj w = (res, w')"
  shows "w' = w"
    and "res = Inr A \<Longrightarrow> \<exists>cf c. ac_KubeClient_namespace cf = u_namespace obj \<and> conf c = mgr_helm mgr cf
       \<and> defaultUninstallOpts c = [] \<and> A = action_interface_of (mgr_patch_lib mgr) c"
proof -
  from assms(1) obtain acg0 hcg where
    a: "NewActionConfigGetter (mgr_storage_lib mgr) (mgr_discovery mgr) (mgr_GetConfig mgr) (mgr_GetRESTMapper mgr) []
        = Inr acg0"
    and h: "NewActionClientGetter (config_for (mgr_helm mgr) acg0) [] = Inr hcg"
    and g: "g = (\<lambda>obj w. case ActionClientFor (mgr_pr_lib mgr) hcg obj w of
                      (Inl e, w1) \<Rightarrow> (Inl e, w1)
                    | (Inr c, w1) \<Rightarrow> (Inr (action_interface_of (mgr_patch_lib mgr) c), w1))"
    by (auto simp: default_getter_def split: sum.splits)
  obtain x w1 where x: "ActionConfigFor acg0 obj w = (x, w1)" by fastforce
  note d = default_config [OF a x]
  have acg: "acg hcg = config_for (mgr_helm mgr) acg0" "g_defaultUninstallOpts hcg = []"
    using h by (auto simp: NewActionClientGetter_def)
  show "w' = w"
    using assms(2) g d x acg
    by (auto simp: ActionClientFor_def config_for_def Let_def split: sum.splits prod.splits exit.splits)
  show "\<exists>cf c. ac_KubeClient_namespace cf = u_namespace obj \<and> conf c = mgr_helm mgr cf
       \<and> defaultUninstallOpts c = [] \<and> A = action_interface_of (mgr_patch_lib mgr) c" if "res = Inr A"
    using assms(2) g d x acg that
    by (cases x; force simp: ActionClientFor_def config_for_def Let_def split: sum.splits prod.splits)
qed

section \<open>The surroundings of an operator\<close>

text \<open>
  The API server, seen through the manager's client: what \<open>guarded_loop\<close> asks of it. Events,
  controllers, schemes, new watches and the map of the dependent watcher concern neither releases
  nor finalizers, and for every configuration Helm keeps its promises.
\<close>

locale operator_surroundings =
  fixes mgr :: "('c, 'd, 'w) manager" and E :: "'w env" and R :: "'w view" and G :: "'w view"
  assumes lib: "lib_ok (e_lib E)"
    and poll: "\<exists>n. snd (lib_poll (e_lib E) t c s) = ((\<lambda>s. snd (c s)) ^^ n) s"
    and get: "kc_get (mgr_GetClient mgr) key (obj, w) = (err, obj', w') \<Longrightarrow>
        (\<forall>k. calm R G k w w') \<and> (err = None \<longrightarrow> id_of obj' = key
           \<and> (uninstallFinalizer \<in> set (u_finalizers obj') \<longrightarrow> G w' key))"
    and status: "kc_status_update (mgr_GetClient mgr) (obj, w) = (err, obj', w') \<Longrightarrow> hook_ok R G obj obj' w w'"
    and update: "kc_update (mgr_GetClient mgr) (obj, w) = (err, obj', w') \<Longrightarrow>
        id_of obj' = id_of obj \<and> no_release R G (id_of obj) w w'
        \<and> (uninstallFinalizer \<in> set (u_finalizers obj) \<longrightarrow>
             keeps_guard R G (id_of obj) w w' \<and> (err = None \<longrightarrow> G w' (id_of obj)))"
    and recorder: "calm R G k w (mgr_GetEventRecorderFor mgr nm obj ty reason m w)"
    and watch: "mgr_NewController mgr nm n w0 = (Inr ct, w1) \<Longrightarrow> calm R G k w (snd (ctl_Watch ct src w))"
    and watches: "calm R G k w (mgr_set_watches mgr ws w)"
    and scheme: "calm R G k w (mgr_AddKnownTypeWithName mgr gk w)" "calm R G k w (mgr_AddToGroupVersion mgr gv w)"
    and controller: "calm R G k w (snd (mgr_NewController mgr nm n w))"
    and layer: "helm_layer (mgr_helm mgr cf) (ac_KubeClient_namespace cf) R G"
begin

lemma setWatch_calm:
  assumes "\<And>src w. calm R G k w (snd (ctl_Watch (dw_controller d) src w))"
    and "setWatchOnResource d owner g dep s = (err, s')"
  shows "calm R G k (snd s) (snd s')"
proof -
  obtain use where u: "use = SupportsOwnerReference (dw_restMapper d) owner dep" by blast
  show ?thesis
    using assms(2) assms(1) [of "snd s" "dependent_source owner dep (projr use)"]
    by (cases use) (auto simp: setWatchOnResource_def u [symmetric] change_refl
        split: if_splits option.splits prod.splits)
qed

lemma each_item_calm:
  assumes "\<And>u s err s'. f u s = (err, s') \<Longrightarrow> calm R G k (snd s) (snd s')"
    and "each_item f is s = (err, s')"
  shows "calm R G k (snd s) (snd s')"
  using assms(2)
proof (induction "is" arbitrary: s)
  case Nil
  then show ?case by (simp add: change_refl)
next
  case (Cons i us)
  show ?case
  proof (cases i)
    case (Inl e)
    with Cons.prems show ?thesis by (simp add: change_refl)
  next
    case (Inr u)
    obtain e1 s1 where f: "f u s = (e1, s1)" by (metis surj_pair)
    note c = assms(1) [OF f]
    show ?thesis
    proof (cases e1)
      case None
      with Cons.prems Inr f have "each_item f us s1 = (err, s')" by simp
      from calm_trans [OF c Cons.IH [OF this]] show ?thesis .
    qed (use Cons.prems Inr f c in auto)
  qed
qed

lemma exec_calm:
  assumes "\<And>src w. calm R G k w (snd (ctl_Watch (dw_controller d) src w))"
    and "exec_resources d owner rs s = (err, s')"
  shows "calm R G k (snd s) (snd s')"
  using assms(2)
proof (induction rs arbitrary: s)
  case Nil
  then show ?case by (simp add: change_refl)
next
  case (Cons x rs)
  show ?case
  proof (cases "ml_Unmarshal (dw_lib d) x")
    case (Inl e)
    with Cons.prems show ?thesis by (simp add: change_refl)
  next
    case (Inr obj)
    obtain e1 s1 where f: "exec_document d owner obj s = (e1, s1)" by (metis surj_pair)
    then have c: "calm R G k (snd s) (snd s1)"
      using setWatch_calm [OF assms(1)] each_item_calm [OF setWatch_calm [OF assms(1)]]
      by (auto simp: exec_document_def Let_def change_refl split: if_splits)
    show ?thesis
    proof (cases e1)
      case None
      with Cons.prems Inr f have "exec_resources d owner rs s1 = (err, s')" by simp
      from calm_trans [OF c Cons.IH [OF this]] show ?thesis .
    qed (use Cons.prems Inr f c in auto)
  qed
qed

lemma watcher_calm:
  assumes "mgr_NewController mgr nm n w0 = (Inr ct, w1)"
    and "watcher_hook mgr (fst (NewDependentResourceWatcher ct rm M)) obj rel w = (x, w')"
  shows "calm R G k w w'"
proof -
  let ?d = "fst (NewDependentResourceWatcher ct rm M)"
  obtain err ws w2 where e: "watcher_Exec ?d obj rel (mgr_watches mgr w, w) = (err, ws, w2)"
    by (metis surj_pair)
  from exec_calm [OF _ e [unfolded watcher_Exec_def], of k] watch [OF assms(1)]
  have "calm R G k w w2" by (simp add: NewDependentResourceWatcher_def)
  from calm_trans [OF this watches] assms(2) show ?thesis by (auto simp: watcher_hook_def e)
qed

text \<open>Setting up concerns neither releases nor finalizers.\<close>

lemma setupWatches_calm:
  assumes "setupWatches mgr ct g r w = ((None, r'), w')" and "mgr_NewController mgr nm n w0 = (Inr ct, w1)"
  shows "calm R G k w w'"
proof -
  obtain preds wa wb where s: "ctl_Watch ct (primary_source g preds) w = (None, wa)"
    "ctl_Watch ct (secret_source g preds) wa = (None, wb)"
    and w': "w' = wb \<or> w' = mgr_set_watches mgr {} wb"
    using setupWatches_ok [OF assms(1)] by (auto split: if_splits)
  have "calm R G k w wa" using watch [OF assms(2), of k w] s(1) by (metis snd_conv)
  moreover have "calm R G k wa wb" using watch [OF assms(2), of k wa] s(2) by (metis snd_conv)
  ultimately have "calm R G k w wb" by (rule calm_trans)
  with w' calm_trans [OF this watches] show ?thesis by blast
qed

lemma Setup_calm:
  assumes "SetupWithManager mgr r w = ((Ret None, r'), w')" and "c_controllerSetupFuncs r = []"
  shows "calm R G k w w'"
proof -
  from assms(1) obtain g nm r1 w1 ct w2 w3 where
    d: "addDefaults mgr nm r = (None, r1)" and w1: "w1 = w \<or> w1 = setupScheme mgr g w"
    and c: "mgr_NewController mgr nm (c_maxConcurrentReconciles r1) w1 = (Inr ct, w2)"
    and sw: "setupWatches mgr ct g r1 w2 = ((None, r'), w3)"
    and f: "run_setup_funcs ct (c_controllerSetupFuncs r') w3 = (None, w')"
    by (auto simp: SetupWithManager_def Let_def split: option.splits sum.splits prod.splits if_splits) blast+
  have "c_controllerSetupFuncs r' = []"
    using setupWatches_ok [OF sw] addDefaults_ok(15) [OF d] assms(2) by (auto split: if_splits)
  with f have "w' = w3" by simp
  have "calm R G k w (setupScheme mgr g w)"
    unfolding setupScheme_def by (rule calm_trans [OF scheme(1) scheme(2)])
  with w1 have "calm R G k w w1" by (auto simp: change_refl)
  moreover have "calm R G k w1 w2" using controller [of k w1] c by (metis snd_conv)
  ultimately have "calm R G k w w2" by (rule calm_trans)
  from calm_trans [OF this setupWatches_calm [OF sw c]] show ?thesis by (simp add: \<open>w' = w3\<close>)
qed

lemma setup_all_calm: "setup_all V f mgr wts w = (None, w') \<Longrightarrow> calm R G k w w'"
proof (induction wts arbitrary: w)
  case Nil
  then show ?case by (simp add: change_refl)
next
  case (Cons wt wts)
  from Cons.prems obtain w1 where s: "setup_watch V f mgr wt w = (None, w1)"
    and r: "setup_all V f mgr wts w1 = (None, w')" by (auto split: prod.splits option.splits)
  have "calm R G k w w1"
    by (rule setup_watch_parts [OF s]) (rule Setup_calm, assumption, rule watch_options_result(8))
  from calm_trans [OF this Cons.IH [OF r]] show ?case .
qed

text \<open>What the command sets up for an entry runs the loop in safe surroundings.\<close>

lemma watch_guarded:
  assumes "watch_runtime V f mgr wt w = Some rt"
  shows "guarded_loop rt E R G"
proof (rule watch_runtime_parts [OF assms])
  fix g ct nm n w0 w1
  assume g: "default_getter mgr = Inr g" and ct: "mgr_NewController mgr nm n w0 = (Inr ct, w1)"
    and rt: "rt_client rt = mgr_GetClient mgr" "rt_actionClientGetter rt = g"
      "rt_valueTranslator rt = (\<lambda>u w. ((DefaultTranslator u, u), w))"
      "rt_eventRecorder rt = mgr_GetEventRecorderFor mgr nm" "rt_preHooks rt = []"
      "rt_pauseHandler rt = None"
      "rt_uninstallAnnotations rt = map (\<lambda>a. (un_Name a, a)) DefaultUninstallAnnotations"
    and hooks: "rt_postHooks rt = [] \<or> rt_postHooks rt =
       [watcher_hook mgr (fst (NewDependentResourceWatcher ct (mgr_GetRESTMapper mgr) (mgr_manifest_lib mgr)))]"
  show ?thesis
  proof
    show "lib_ok (e_lib E)" by (rule lib)
    show "\<exists>n. snd (lib_poll (e_lib E) t c s) = ((\<lambda>s. snd (c s)) ^^ n) s" for t c s by (rule poll)
    show "honest_opts (uninstall_options rt obj)" for obj by (rule default_uninstall_honest [OF rt(7)])
    show "calm R G k w (rt_eventRecorder rt obj ty reason m w)" for k w obj ty reason m
      by (simp add: rt recorder)
    show "(\<forall>k. calm R G k w w') \<and> (\<forall>A. res = Inr A \<longrightarrow> helm_ok R G (id_of obj) A)"
      if "rt_actionClientGetter rt obj w = (res, w')" for obj w res w'
    proof -
      have r: "g obj w = (res, w')" using that by (simp add: rt)
      note d = default_getter_client [OF g r]
      have "helm_ok R G (id_of obj) A" if A: "res = Inr A" for A
      proof -
        from d(2) [OF A] obtain cf c where c: "ac_KubeClient_namespace cf = u_namespace obj"
          "conf c = mgr_helm mgr cf" "defaultUninstallOpts c = []"
          "A = action_interface_of (mgr_patch_lib mgr) c" by blast
        have "honest_opts (defaultUninstallOpts c)" by (simp add: c honest_opts_def)
        from helm_layer.client_ok [OF layer c(2) this, of "u_name obj" "mgr_patch_lib mgr"]
        show ?thesis by (simp add: c id_of_def)
      qed
      with d(1) show ?thesis by (simp add: change_refl)
    qed
    show "\<forall>k. calm R G k w w'" if "h \<in> set (rt_postHooks rt)" "h obj rel w = ((err, obj'), w')"
      for h obj rel w err obj' w'
      using hooks that watcher_calm [OF ct] by auto
  qed (use get status update in \<open>simp_all add: rt hook_ok_refl\<close>)
qed

end

section \<open>Histories of an operator\<close>

text \<open>
  The worlds that the operator passes through once its manager runs: a reconcile of any request
  by any of its reconcilers, or a change from outside, in any order.
\<close>

inductive serving ::
  "'w runtime set \<Rightarrow> 'w env \<Rightarrow> ('w \<Rightarrow> 'w \<Rightarrow> bool) \<Rightarrow> 'w \<Rightarrow> 'w \<Rightarrow> bool"
  for rts :: "'w runtime set" and E :: "'w env" and outside :: "'w \<Rightarrow> 'w \<Rightarrow> bool" and w0 :: 'w
where
  serving_start: "serving rts E outside w0 w0"
| serving_reconcile: "serving rts E outside w0 w \<Longrightarrow> rt \<in> rts \<Longrightarrow>
     Reconcile rt E req \<lparr>world = w, calls = log\<rparr> = (out, s) \<Longrightarrow> serving rts E outside w0 (world s)"
| serving_outside: "serving rts E outside w0 w \<Longrightarrow> outside w w' \<Longrightarrow> serving rts E outside w0 w'"

lemma serving_safe:
  assumes "serving rts E outside w0 w" and "\<And>rt. rt \<in> rts \<Longrightarrow> guarded_loop rt E R G"
    and "\<And>w w'. outside w w' \<Longrightarrow> no_orphan R G w \<Longrightarrow> no_orphan R G w'" and "no_orphan R G w0"
  shows "no_orphan R G w"
  using assms(1)
proof (induction rule: serving.induct)
  case serving_start
  show ?case by (rule assms(4))
next
  case (serving_reconcile w rt req log out s)
  from guarded_loop.Reconcile_safe [OF assms(2) serving_reconcile.hyps(3), OF serving_reconcile.hyps(2)]
    serving_reconcile.IH show ?case by simp
next
  case (serving_outside w w')
  then show ?case by (blast intro: assms(3))
qed

end
