(* ===== verification/OperatorProps.thy ===== *)
theory OperatorProps
  imports Operator LifecycleProps
begin

text \<open>
  The operator as the command sets it up, from the watches file to every history that follows,
  on the cluster of \<open>LifecycleProps\<close> with a Helm of its own.
\<close>

section \<open>A Helm and a manager for the cluster\<close>

definition town_helm :: "string \<Rightarrow> town helm" where
  "town_helm ns =
     \<lparr>helm_NewGet = \<lparr>ga_version = 0\<rparr>, helm_NewHistory = \<lparr>hia_max = 0\<rparr>,
      helm_NewInstall = \<lparr>ia_release_name = [], ia_namespace = [], ia_disable_hooks = False,
        ia_description = [], ia_post_renderer = None\<rparr>,
      helm_NewUpgrade = sample_upgrade_action,
      helm_NewUninstall = \<lparr>una_disable_hooks = False, una_description = []\<rparr>,
      helm_NewRollback = \<lparr>ra_force = False, ra_max_history = 0\<rparr>,
      helm_Get = (\<lambda>g name w. case map_of (t_releases w) (ns, name) of
          None \<Rightarrow> ((None, Some ErrReleaseNotFound), w) | Some rl \<Rightarrow> ((Some rl, None), w)),
      helm_History = (\<lambda>h n w. (([], None), w)),
      helm_Install = (\<lambda>i c v w. let rl = sample_release (ia_release_name i) (ia_namespace i) c 1
          in ((Some rl, None), set_release (ns, ia_release_name i) (Some rl) w)),
      helm_Upgrade = (\<lambda>u name c v w. let rl = sample_release name (ua_namespace u) c 2
          in ((Some rl, None), if ua_dry_run u then w else set_release (ns, name) (Some rl) w)),
      helm_Uninstall = (\<lambda>u name w. case map_of (t_releases w) (ns, name) of
          None \<Rightarrow> ((None, Some ErrReleaseNotFound), w)
        | Some rl \<Rightarrow> ((Some \<lparr>ur_release = Some rl, ur_info = []\<rparr>, None), set_release (ns, name) None w)),
      helm_Rollback = (\<lambda>r n w. (None, w)), helm_SortByRevision = (\<lambda>rs. rs),
      helm_Build = (\<lambda>m w. (Inr [], w)), helm_ObjGet = (\<lambda>i w. (Inl (ErrMsg ''idle''), w)),
      helm_ObjCreate = (\<lambda>i w. (None, w)), helm_ObjPatch = (\<lambda>i t p w. (None, w))\<rparr>"

interpretation town_layer: helm_layer "town_helm ns" ns town_released town_guarded for ns
  by unfold_locales
     (auto simp: town_helm_def Let_def set_release_changes change_refl town_released_none split: option.splits)

definition town_manager :: "(unit, unit, town) manager" where
  "town_manager =
     \<lparr>mgr_GetClient = \<lparr>kc_get = town_get, kc_update = town_update, kc_status_update = town_status_update\<rparr>,
      mgr_GetConfig = (), mgr_GetRESTMapper = (\<lambda>g. Inr NamespaceScope),
      mgr_GetEventRecorderFor = (\<lambda>n obj t r m w. w),
      mgr_NewController = (\<lambda>n k w. (Inr \<lparr>ctl_Watch = (\<lambda>src w. (None, w))\<rparr>, w)),
      mgr_AddKnownTypeWithName = (\<lambda>g w. w), mgr_AddToGroupVersion = (\<lambda>gv w. w),
      mgr_selector_Size = (\<lambda>s. int (length (ls_match_labels s))), mgr_check_selector = (\<lambda>s. None),
      mgr_manifest_lib = \<lparr>ml_SplitManifests = (\<lambda>m. [m]), ml_Unmarshal = (\<lambda>d. Inl (ErrMsg d)), ml_items = (\<lambda>u. [])\<rparr>,
      mgr_watches = t_watched, mgr_set_watches = (\<lambda>ws w. w\<lparr>t_watched := ws\<rparr>),
      mgr_storage_lib =
        \<lparr>st_NewForConfig = (\<lambda>c. Inr (\<lambda>ns.
           \<lparr>sc_Get = (\<lambda>n w. (Inl (ErrApi NotFound n), w)), sc_Create = (\<lambda>s w. (Inr s, w)),
            sc_Update = (\<lambda>s w. (Inr s, w)), sc_DeleteCollection = (\<lambda>sel w. (None, w)),
            sc_List = (\<lambda>sel w. (Inr [], w))\<rparr>)),
         st_NewControllerRef = (\<lambda>obj g. \<lparr>or_api_version = gvk_version g, or_kind = gvk_kind g,
            or_name = u_name obj, or_uid = u_uid obj, or_controller = Some True,
            or_block_owner_deletion = Some True\<rparr>),
         st_NewSecrets = (\<lambda>C. ())\<rparr>,
      mgr_discovery = (\<lambda>c. None), mgr_helm = (\<lambda>cf. town_helm (ac_KubeClient_namespace cf)),
      mgr_pr_lib = mgr_pr_lib (sample_manager), mgr_patch_lib = mgr_patch_lib (sample_manager)\<rparr>"

interpretation town_operator: operator_surroundings town_manager town_env town_released town_guarded
proof (rule operator_surroundings.intro)
  show "lib_ok (e_lib town_env)" by (simp add: town_env_def)
  show "\<exists>n. snd (lib_poll (e_lib town_env) t c s) = ((\<lambda>s. snd (c s)) ^^ n) s" for t c s
    by (rule town.poll)
  show "(\<forall>k. calm town_released town_guarded k w w') \<and> (err = None \<longrightarrow> id_of obj' = key
      \<and> (uninstallFinalizer \<in> set (u_finalizers obj') \<longrightarrow> town_guarded w' key))"
    if "kc_get (mgr_GetClient town_manager) key (obj, w) = (err, obj', w')" for key obj w err obj' w'
    by (rule town.get) (use that in \<open>simp add: town_manager_def town_runtime_def\<close>)
  show "hook_ok town_released town_guarded obj obj' w w'"
    if "kc_status_update (mgr_GetClient town_manager) (obj, w) = (err, obj', w')" for obj w err obj' w'
    by (rule town.status) (use that in \<open>simp add: town_manager_def town_runtime_def\<close>)
  show "id_of obj' = id_of obj \<and> no_release town_released town_guarded (id_of obj) w w'
      \<and> (uninstallFinalizer \<in> set (u_finalizers obj) \<longrightarrow>
           keeps_guard town_released town_guarded (id_of obj) w w' \<and> (err = None \<longrightarrow> town_guarded w' (id_of obj)))"
    if "kc_update (mgr_GetClient town_manager) (obj, w) = (err, obj', w')" for obj w err obj' w'
    by (rule town.update) (use that in \<open>simp add: town_manager_def town_runtime_def\<close>)
  show "helm_layer (mgr_helm town_manager cf) (ac_KubeClient_namespace cf) town_released town_guarded" for cf
    unfolding town_manager_def by (simp add: town_layer.helm_layer_axioms)
  show "calm town_released town_guarded k w (mgr_set_watches town_manager ws w)" for k w ws
    by (rule calm_same) (simp_all add: town_manager_def town_released_def town_guarded_def fun_eq_iff)
qed (auto simp: town_manager_def change_refl)

section \<open>The operator\<close>


text \<open>One entry, with the watcher of dependents, and the world after its first reconcile.\<close>

definition town_watch :: watch where
  "town_watch = loaded_watch\<lparr>w_gvk := rt_gvk town_runtime, w_watch_dependents := Some False\<rparr>"

definition town_flags :: flags where
  "town_flags = AddTo 4 (\<lambda>_. False)"

definition town_set_up :: "run_result option \<times> town" where
  "town_set_up = setup_all lenient_values town_flags town_manager [town_watch] town_start"

definition town_served :: "outcome \<times> town sys" where
  "town_served = Reconcile (hd (watch_runtimes lenient_values town_flags town_manager [town_watch] town_start))
     town_env sample_request \<lparr>world = snd town_set_up, calls = []\<rparr>"

lemma town_runs: "fst town_set_up = None" "town_released (world (snd town_served)) sample_request"
  by code_simp+


end
