(* ===== verification/Convergence.thy ===== *)
theory Convergence
  imports ReconcileProps
begin

text \<open>
  Successive runs of the loop: a successful run leaves a status that says all that the next run
  over the same release has to say.
\<close>

section \<open>What a success leaves\<close>

lemma success_tail_eq:
  assumes "us @ success_tail rel = vs @ success_tail rel'"
  shows "success_tail rel = success_tail rel'"
proof -
  have "length (success_tail rel) = length (success_tail rel')"
    by (simp add: success_tail_def ensureDeployedRelease_def split: prod.splits)
  with assms show ?thesis by (simp add: append_eq_append_conv)
qed

lemma applied_agrees:
  assumes "updateStatusFuncs u = map write_func ws" and "last_cond t ws = Some c"
  shows "agrees (snd (applied_status L u obj s)) (WCond c)"
  using run_writes_condition_Some [OF assms(2)] last_cond_type [OF assms(2)]
  by (simp add: applied_status_def assms(1))

lemma quiet_agrees: "agrees st w \<Longrightarrow> quiet st (write_func w)"
  by (simp add: quiet_def agrees_write)

text \<open>The status of a success is settled for the release that it reported.\<close>

lemma success_settles:
  assumes "updateStatusFuncs u = EnsureCondition (Paused ConditionFalse [] (MStr [])) # fs
      @ EnsureCondition (Initialized ConditionTrue [] (MStr [])) # gs @ success_tail rel"
    and "are_writes fs" and "are_writes gs"
    and "statusFor L obj2 = snd (applied_status L u obj s)"
  shows "settled L obj2 rel"
proof -
  obtain reason m where t: "success_tail rel = map write_func
     [WCond (Deployed ConditionTrue reason (MStr m)), WRel (Some rel),
      WCond (ReleaseFailed ConditionFalse [] (MStr [])), WCond (Irreconcilable ConditionFalse [] (MStr []))]"
    (is "_ = map write_func ?t")
    using success_tail_writes by blast
  obtain vs where vs: "fs = map write_func vs" "\<forall>w \<in> set vs. release_write w"
    using assms(2) by (auto simp: are_writes_map)
  obtain ws where ws: "gs = map write_func ws" "\<forall>w \<in> set ws. release_write w"
    using assms(3) by (auto simp: are_writes_map)
  let ?W = "WCond (Paused ConditionFalse [] (MStr [])) # vs
      @ WCond (Initialized ConditionTrue [] (MStr [])) # ws @ ?t"
  have W: "updateStatusFuncs u = map write_func ?W"
    by (simp add: assms(1) vs(1) ws(1) t)
  note n = release_writes_no_other [OF vs(2)] release_writes_no_other [OF ws(2)]
  have l: "last_cond TypeDeployed ?W = Some (Deployed ConditionTrue reason (MStr m))"
    "last_cond TypeReleaseFailed ?W = Some (ReleaseFailed ConditionFalse [] (MStr []))"
    "last_cond TypeIrreconcilable ?W = Some (Irreconcilable ConditionFalse [] (MStr []))"
    "last_cond TypeInitialized ?W = Some (Initialized ConditionTrue [] (MStr []))"
    "last_cond TypePaused ?W = Some (Paused ConditionFalse [] (MStr []))"
    "last_rel ?W = Some (Some rel)"
    by (simp_all add: last_cond_append last_rel_append n)
  have r: "agrees (snd (applied_status L u obj s)) (WRel (Some rel))"
    using applied_release [OF W l(6)] by simp
  note q = l(1-5) [THEN applied_agrees [OF W, where L = L and obj = obj and s = s], THEN quiet_agrees] r [THEN quiet_agrees]
  from q show ?thesis unfolding settled_def t assms(4) by simp
qed

section \<open>Convergence\<close>


definition first_run :: "outcome \<times> cluster frame" where
  "first_run = reconcile_body (sample_runtime steady_action) sample_env
     \<lparr>f_obj = protected_object, f_u = New_updater, f_sys = start protected_object (Some installed)\<rparr>"

lemma first_run_ends:
  "fst first_run = Ret (\<lparr>requeue_after = 60\<rparr>, None)"
  "updateStatusFuncs (f_u (snd first_run)) =
     [EnsureCondition (Paused ConditionFalse [] (MStr []))] @ ensureDeployedRelease installed
     @ [EnsureCondition (Initialized ConditionTrue [] (MStr [])),
        EnsureCondition (Irreconcilable ConditionFalse [] (MStr [])),
        EnsureCondition (ReleaseFailed ConditionFalse [] (MStr []))] @ success_tail installed"
proof -
  let ?A = steady_action and ?r = "sample_runtime steady_action"
  have up: "up_to_date ?r ?A protected_object [] installed"
    using sample_up_to_date by (simp add: settled_object_def up_to_date_def upgrade_options_def annotation_options_def)
  show "fst first_run = Ret (\<lparr>requeue_after = 60\<rparr>, None)" by code_simp
  show "updateStatusFuncs (f_u (snd first_run)) =
     [EnsureCondition (Paused ConditionFalse [] (MStr []))] @ ensureDeployedRelease installed
     @ [EnsureCondition (Initialized ConditionTrue [] (MStr [])),
        EnsureCondition (Irreconcilable ConditionFalse [] (MStr [])),
        EnsureCondition (ReleaseFailed ConditionFalse [] (MStr []))] @ success_tail installed"
  proof -
    let ?w = "world (start protected_object (Some installed))"
    from up obtain spec info where
      g: "\<And>w. ai_Get ?A ''web'' [] w = ((Some installed, None), w)"
        "\<And>w. ai_Reconcile ?A installed w = (None, w)"
      and u: "ai_Upgrade ?A ''web'' (u_namespace protected_object) (rt_chrt ?r) []
          (upgrade_options ?r protected_object @ [dry_run_option]) ?w = ((Some spec, None), ?w)"
        "rel_manifest spec = rel_manifest installed"
      and i: "rel_info installed = Some info" "ri_status info \<noteq> StatusFailed" "ri_status info \<noteq> StatusSuperseded"
      unfolding up_to_date_def by fastforce
    have ov: "ApplyOverrides (e_values sample_env) [] protected_object = (None, protected_object)"
      by (rule ApplyOverrides_none [where m = "[]"]) (simp add: getSpecMap_Inr sample_defs)
    have tr: "DefaultTranslator protected_object = Inr []"
      by (simp add: DefaultTranslator_def getSpecMap_def sample_defs)
    show ?thesis
      by (simp add: first_run_def reconcile_body_def reconcile_unpaused_def fcall_def call_def observe_release_def
        reconcile_release_def getValues_def getReleaseState_def perform_state_def doReconcile_def finish_release_def
        success_tail_def Let_def g u i ov tr)
  qed
qed

text \<open>The resource as the run left it.\<close>

definition second_object :: unstructured where
  "second_object = settled_object\<lparr>u_status := StStruct (snd (applied_status sample_lib
     (f_u (snd first_run)) (f_obj (snd first_run)) (f_sys (snd first_run))))\<rparr>"


end
