(* ===== verification/TestUtil.thy ===== *)
theory TestUtil
  imports Setup
begin

text \<open>
  \<open>pkg/internal/testutil\<close>: the resource, its definition and the chart loader that the tests
  use. The schema of the definition is fixed and left out but for its type.
\<close>

record crd_version =
  crv_Name :: string
  crv_SchemaType :: string
  crv_PreserveUnknownFields :: bool
  crv_StatusSubresource :: bool
  crv_Served :: bool
  crv_Storage :: bool

record custom_resource_definition =
  crd_Name :: string
  crd_Group :: string
  crd_Kind :: string
  crd_ListKind :: string
  crd_Singular :: string
  crd_Plural :: string
  crd_Scope :: rest_scope
  crd_Versions :: "crd_version list"

definition BuildTestCRD :: "gvk \<Rightarrow> custom_resource_definition" where
  "BuildTestCRD g =
     (let singular = ToLower (gvk_kind g); plural = singular @ ''s''
      in \<lparr>crd_Name = plural @ ''.'' @ gvk_group g, crd_Group = gvk_group g, crd_Kind = gvk_kind g,
          crd_ListKind = gvk_kind g @ ''List'', crd_Singular = singular, crd_Plural = plural,
          crd_Scope = NamespaceScope,
          crd_Versions = [\<lparr>crv_Name = ''v1'', crv_SchemaType = ''object'', crv_PreserveUnknownFields = True,
             crv_StatusSubresource = True, crv_Served = True, crv_Storage = True\<rparr>]\<rparr>)"

definition MustLoadChart :: "(string \<Rightarrow> 'w \<Rightarrow> (go_error + chart) \<times> 'w) \<Rightarrow> string \<Rightarrow> 'w \<Rightarrow> chart exit \<times> 'w" where
  "MustLoadChart load path w =
     (case load path w of
        (Inl e, w1) \<Rightarrow> (Panic (error_text e), w1)
      | (Inr chrt, w1) \<Rightarrow> (Ret chrt, w1))"

definition BuildTestCR :: "gvk \<Rightarrow> unstructured" where
  "BuildTestCR g =
     (new_object g)\<lparr>u_spec := Some (JObj [(''replicas'', JNum 2)]), u_name := ''test'',
        u_namespace := ''default'', u_uid := ''test-uid'',
        u_annotations :=
          [''helm.sdk.operatorframework.io/install-description'' \<mapsto> ''test install description'',
           ''helm.sdk.operatorframework.io/upgrade-description'' \<mapsto> ''test upgrade description'',
           ''helm.sdk.operatorframework.io/uninstall-description'' \<mapsto> ''test uninstall description'']\<rparr>"

text \<open>
  The annotations of the test resource are those that the default annotations read: with them an
  install, an upgrade and an uninstall get exactly the option of their description.
\<close>

lemma test_resource_options:
  assumes "rt_installAnnotations r = map (\<lambda>a. (inst_Name a, a)) DefaultInstallAnnotations"
    and "rt_uninstallAnnotations r = map (\<lambda>a. (un_Name a, a)) DefaultUninstallAnnotations"
  shows "run_options (install_options r (BuildTestCR g)) i = Inr (i\<lparr>ia_description := ''test install description''\<rparr>)"
    and "run_options (uninstall_options r (BuildTestCR g)) u = Inr (u\<lparr>una_description := ''test uninstall description''\<rparr>)"
  by (simp_all add: install_options_def uninstall_options_def annotation_options_def assms
      DefaultInstallAnnotations_def DefaultUninstallAnnotations_def annotation_defs default_name_defs BuildTestCR_def)

end
