(* ===== verification/RootCmd.thy ===== *)
theory RootCmd
  imports RunCmd RunProps
begin

text \<open>
  The program: \<open>main.go\<close>, \<open>internal/cmd/root.go\<close> and the command object of
  \<open>internal/cmd/helm-operator/run/cmd.go\<close>. The command line parser is cobra's and a
  parameter; a command is a value with the fields that the code sets.
\<close>

section \<open>Commands\<close>

text \<open>\<open>cobra.MinimumNArgs\<close>, and the nil that leaves the check to cobra.\<close>

datatype positional_args = NilArgs | MinimumNArgs int

text \<open>
  A \<open>Run\<close> gets what the parser read: which flags were given, and the values that it wrote over
  the defaults.
\<close>

type_synonym 'w command_run = "(string \<Rightarrow> bool) \<Rightarrow> (flags \<Rightarrow> flags) \<Rightarrow> 'w \<Rightarrow> run_result \<times> 'w"

datatype 'w cobra_command =
  Command (cc_Use: string) (cc_Short: string) (cc_Long: string) (cc_Version: string)
    (cc_Args: positional_args) (cc_flags: "string list") (cc_Run: "'w command_run option")
    (cc_commands: "'w cobra_command list")

text \<open>\<open>zap_flags\<close> are the names that the logging library registers.\<close>

definition NewCmd :: "('c, 'd, 'w) run_env \<Rightarrow> int \<Rightarrow> string list \<Rightarrow> 'w cobra_command" where
  "NewCmd R numCPU zap_flags =
     Command ''run'' ''Run the operator'' [] [] NilArgs (flag_names @ zap_flags)
       (Some (\<lambda>changed parse w. run R (parse (AddTo numCPU changed)) changed (re_SetLogger R w))) []"

definition rootCmd :: "('c, 'd, 'w) run_env \<Rightarrow> int \<Rightarrow> string list \<Rightarrow> 'w cobra_command" where
  "rootCmd R numCPU zap_flags =
     Command ''helm-operator-plugins'' ''Helm Operator Plugins cli tool''
       ''A utility that enables the ability to run a helm-based operator''
       (Context_String (Version (re_GitVersion R) (re_GitCommit R))) (MinimumNArgs 1) [] None
       [NewCmd R numCPU zap_flags]"

section \<open>The program\<close>

text \<open>
  \<open>ExecuteContext\<close> is a parameter: it returns an error or nil, or the process ends inside the
  \<open>Run\<close> of a command, by an exit or a panic.
\<close>

type_synonym 'w execute_context = "'w cobra_command \<Rightarrow> 'w \<Rightarrow> (run_result + go_error option) \<times> 'w"

definition Execute ::
  "'w execute_context \<Rightarrow> ('c, 'd, 'w) run_env \<Rightarrow> int \<Rightarrow> string list \<Rightarrow> 'w \<Rightarrow> (run_result + go_error option) \<times> 'w" where
  "Execute ExecuteContext R numCPU zap_flags w = ExecuteContext (rootCmd R numCPU zap_flags) w"

text \<open>\<open>log.Fatal\<close> prints the error and exits with code 1.\<close>

definition main_program ::
  "'w execute_context \<Rightarrow> (go_error \<Rightarrow> 'w \<Rightarrow> 'w) \<Rightarrow> ('c, 'd, 'w) run_env \<Rightarrow> int \<Rightarrow> string list \<Rightarrow> 'w
     \<Rightarrow> run_result \<times> 'w" where
  "main_program ExecuteContext log_Print R numCPU zap_flags w =
     (case Execute ExecuteContext R numCPU zap_flags w of
        (Inl r, w1) \<Rightarrow> (r, w1)
      | (Inr (Some err), w1) \<Rightarrow> (OsExit 1, log_Print err w1)
      | (Inr None, w1) \<Rightarrow> (Returned, w1))"

section \<open>What cobra does with a command\<close>

fun all_commands :: "'w cobra_command \<Rightarrow> 'w cobra_command list" where
  "all_commands (Command u s l v a fs r cs) = Command u s l v a fs r cs # concat (map all_commands cs)"

text \<open>
  What \<open>ExecuteContext\<close> is documented to do: it reads the arguments of the process and either
  writes a help text, the version or an error, which leaves the operator's world as \<open>idle\<close> says,
  or calls the \<open>Run\<close> of one command of the tree, once. When that returns so does it, with no
  error; otherwise the process ends there.
\<close>

definition runs_one_command :: "('w \<Rightarrow> 'w \<Rightarrow> bool) \<Rightarrow> 'w execute_context \<Rightarrow> bool" where
  "runs_one_command idle ExecuteContext \<longleftrightarrow>
     (\<forall>c w. (\<exists>e w'. ExecuteContext c w = (Inr e, w') \<and> idle w w')
        \<or> (\<exists>d \<in> set (all_commands c). \<exists>f changed parse w1 x w'.
             cc_Run d = Some f \<and> idle w w1 \<and> f changed parse w1 = (x, w')
             \<and> ExecuteContext c w = (if x = Returned then Inr None else Inl x, w')))"

lemma rootCmd_commands: "set (all_commands (rootCmd R numCPU zap_flags)) = {rootCmd R numCPU zap_flags, NewCmd R numCPU zap_flags}"
  by (simp add: rootCmd_def NewCmd_def)

lemma rootCmd_runs:
  assumes "runs_one_command idle ExecuteContext"
    and "main_program ExecuteContext log_Print R numCPU zap_flags w = (x, w')"
  obtains (message) e w1 where "idle w w1" and "x = (case e of None \<Rightarrow> Returned | Some _ \<Rightarrow> OsExit 1)"
      and "w' = (case e of None \<Rightarrow> w1 | Some err \<Rightarrow> log_Print err w1)"
    | (run) changed parse w1 where "idle w w1"
      and "run R (parse (AddTo numCPU changed)) changed (re_SetLogger R w1) = (x, w')"
  using assms(1) [unfolded runs_one_command_def, rule_format, of "rootCmd R numCPU zap_flags" w]
proof
  assume "\<exists>e w'. ExecuteContext (rootCmd R numCPU zap_flags) w = (Inr e, w') \<and> idle w w'"
  then obtain e w2 where e: "ExecuteContext (rootCmd R numCPU zap_flags) w = (Inr e, w2)" "idle w w2" by blast
  with assms(2) message [of w2 e] show thesis
    by (auto simp: main_program_def Execute_def split: option.splits)
next
  assume "\<exists>d \<in> set (all_commands (rootCmd R numCPU zap_flags)). \<exists>f changed parse w1 x w'.
      cc_Run d = Some f \<and> idle w w1 \<and> f changed parse w1 = (x, w')
      \<and> ExecuteContext (rootCmd R numCPU zap_flags) w = (if x = Returned then Inr None else Inl x, w')"
  then obtain changed parse w1 y w2 where "idle w w1"
    and "run R (parse (AddTo numCPU changed)) changed (re_SetLogger R w1) = (y, w2)"
    and "ExecuteContext (rootCmd R numCPU zap_flags) w = (if y = Returned then Inr None else Inl y, w2)"
    by (auto simp: rootCmd_commands rootCmd_def [of R numCPU zap_flags] NewCmd_def [of R numCPU zap_flags])
  with assms(2) run show thesis by (auto simp: main_program_def Execute_def split: if_splits)
qed

section \<open>How the program ends\<close>

lemma setup_watch_exit:
  "fst (setup_watch V f mgr wt w) = Some r \<Longrightarrow> r = OsExit 1 \<or> (\<exists>m. r = RunPanic m)"
  by (auto simp: setup_watch_def split: option.splits sum.splits prod.splits exit.splits)

lemma setup_all_exit:
  "fst (setup_all V f mgr wts w) = Some r \<Longrightarrow> r = OsExit 1 \<or> (\<exists>m. r = RunPanic m)"
proof (induction wts arbitrary: w)
  case (Cons wt wts)
  then show ?case
    using setup_watch_exit [of V f mgr wt w r] by (auto split: prod.splits option.splits)
qed simp

lemma setup_all_ends: "setup_all V f mgr wts w = (Some r, w') \<Longrightarrow> r = OsExit 1 \<or> (\<exists>m. r = RunPanic m)"
  using setup_all_exit [of V f mgr wts w r] by simp

text \<open>
  What it takes for the operator to end without an error: from the options of the flags a manager
  was made, the watches file was loaded, every entry was set up, and the manager was started and
  stopped without an error.
\<close>

definition operator_stopped :: "('c, 'd, 'w) run_env \<Rightarrow> 'w \<Rightarrow> bool" where
  "operator_stopped R w' \<longleftrightarrow>
     (\<exists>f changed cfg w1 opts mgr w2 w4 ws w5 w6. run_options_of R f changed = Some opts
        \<and> re_NewManager R cfg opts w1 = (Inr mgr, w2)
        \<and> Load (re_open R (fl_watches_file f)) (re_close R) (re_watches_lib R) w4 = (Inr ws, w5)
        \<and> setup_all (re_values R) f mgr ws w5 = (None, w6) \<and> re_Start R w6 = (None, w'))"

lemma run_operator_ends:
  assumes "run_operator R f changed w = (x, w')"
  shows "x = OsExit 1 \<or> x = Returned \<and> operator_stopped R w'"
proof -
  have "x \<noteq> RunPanic m" for m using run_operator_no_panic [of R f changed w m] assms by simp
  with assms have "x = OsExit 1 \<or> x = Returned \<and> (\<exists>cfg w1 opts mgr w2 w4 ws w5 w6. run_options_of R f changed = Some opts
      \<and> re_NewManager R cfg opts w1 = (Inr mgr, w2)
      \<and> Load (re_open R (fl_watches_file f)) (re_close R) (re_watches_lib R) w4 = (Inr ws, w5)
      \<and> setup_all (re_values R) f mgr ws w5 = (None, w6) \<and> re_Start R w6 = (None, w'))"
    by (force simp: run_operator_def exit_on_error_def dest: setup_all_ends split: option.splits sum.splits prod.splits)
  then show ?thesis unfolding operator_stopped_def by blast
qed

lemma run_ends:
  assumes "run R f changed w = (x, w')"
  shows "x = OsExit 1 \<or> x = Returned \<and> operator_stopped R w'
    \<or> (\<exists>e w1. fst (re_Register R ((buildInfo (re_GitVersion R) (re_GitCommit R))\<lparr>ga_value := 1\<rparr>) w1) = Some e
         \<and> x = RunPanic (error_text e))"
proof (cases "re_Register R ((buildInfo (re_GitVersion R) (re_GitCommit R))\<lparr>ga_value := 1\<rparr>) (printVersion R w)")
  case (Pair e w2)
  show ?thesis
  proof (cases e)
    case None
    with assms Pair have "run_operator R f changed w2 = (x, w')" by (simp add: run_def RegisterBuildInfo_def)
    from run_operator_ends [OF this] show ?thesis by blast
  next
    case (Some err)
    with Pair have "fst (re_Register R ((buildInfo (re_GitVersion R) (re_GitCommit R))\<lparr>ga_value := 1\<rparr>) (printVersion R w)) = Some err"
      by simp
    moreover from assms Pair Some have "x = RunPanic (error_text err)" by (simp add: run_def RegisterBuildInfo_def)
    ultimately show ?thesis by blast
  qed
qed


text \<open>A process that is started with \<open>run\<close> and no flags, on a file with one entry.\<close>

definition first_command :: "'w execute_context" where
  "first_command c w =
     (case cc_commands c of
        [] \<Rightarrow> (Inr None, w)
      | d # _ \<Rightarrow>
          (case cc_Run d of
             None \<Rightarrow> (Inr None, w)
           | Some f \<Rightarrow> (case f (\<lambda>_. False) (\<lambda>x. x) w of
                           (Returned, w1) \<Rightarrow> (Inr None, w1)
                         | (x, w1) \<Rightarrow> (Inl x, w1))))"

lemma first_command_ok: "runs_one_command (=) first_command"
  unfolding runs_one_command_def
proof (intro allI)
  fix c :: "'w cobra_command" and w
  consider "cc_commands c = []" | d ds where "cc_commands c = d # ds" "cc_Run d = None"
    | d ds f where "cc_commands c = d # ds" "cc_Run d = Some f"
    by (metis list.exhaust option.exhaust)
  then show "(\<exists>e w'. first_command c w = (Inr e, w') \<and> w = w')
      \<or> (\<exists>d \<in> set (all_commands c). \<exists>f changed parse w1 x w'. cc_Run d = Some f \<and> w = w1
           \<and> f changed parse w1 = (x, w') \<and> first_command c w = (if x = Returned then Inr None else Inl x, w'))"
  proof cases
    case (3 d ds f)
    obtain x w' where x: "f (\<lambda>_. False) (\<lambda>x. x) w = (x, w')" by fastforce
    have d: "d \<in> set (all_commands c)" using 3(1) by (cases c; cases d) auto
    have "first_command c w = (if x = Returned then Inr None else Inl x, w')"
      using 3 x by (cases x) (auto simp: first_command_def)
    with d 3(2) x show ?thesis by blast
  qed (auto simp: first_command_def)
qed

definition one_watch_lib :: "watch_world watches_lib" where
  "one_watch_lib =
     \<lparr>wl_ReadAll = (\<lambda>w. (Inr ''file'', w)),
      wl_Unmarshal = (\<lambda>b. Inr
        [\<lparr>w_gvk = web_gvk, w_chart_path = ''charts/web'', w_watch_dependents = None, w_override_values = None,
          w_reconcile_period = None, w_max_concurrent = None, w_selector = None, w_chart = None\<rparr>]),
      wl_LoadChart = (\<lambda>p w. (Inr web_chart, w)),
      wl_getenv = (\<lambda>v. []), wl_Parse = (\<lambda>k t. None), wl_Execute = (\<lambda>k t w. (Inr t, w))\<rparr>"

definition process_env :: "(unit, unit, watch_world) run_env" where
  "process_env =
     \<lparr>re_go_version = ''go1.24'', re_GOOS = ''linux'', re_GOARCH = ''amd64'', re_GitVersion = Unknown_version,
      re_GitCommit = Unknown_version, re_SetLogger = id, re_log_Info = (\<lambda>m kvs w. w),
      re_Register = (\<lambda>g w. (None, w)), re_GetConfig = (\<lambda>w. (Inr (), w)), re_LookupEnv = (\<lambda>v. None),
      re_NewManager = (\<lambda>c opts w. (Inr sample_manager, w)), re_AddHealthzCheck = (\<lambda>w. (None, w)),
      re_AddReadyzCheck = (\<lambda>w. (None, w)), re_open = (\<lambda>p w. (None, w)), re_close = (\<lambda>w. (None, w)),
      re_watches_lib = one_watch_lib, re_values = lenient_values,
      re_Start = (\<lambda>w. (None, (fst w, insert web_gvk (snd w))))\<rparr>"

lemma process_env_load:
  "\<exists>wt. Load (re_open process_env p) (re_close process_env) (re_watches_lib process_env) w = (Inr [wt], w)
     \<and> w_gvk wt = web_gvk \<and> w_chart wt = Some web_chart \<and> w_selector wt = Some empty_selector
     \<and> w_watch_dependents wt = Some True \<and> w_override_values wt = None"
  by (simp add: process_env_def one_watch_lib_def Load_def LoadReader_def load_watch_def verifyGVK_def web_gvk_def
      expandOverrideValues_def Let_def)

lemma process_env_setup:
  assumes "w_gvk wt = web_gvk" and "w_chart wt = Some web_chart" and "w_selector wt = Some empty_selector"
    and "w_watch_dependents wt = Some dep" and "w_override_values wt = None"
    and "1 \<le> fl_max_concurrent_reconciles f" and "0 \<le> fl_reconcile_period f"
  shows "\<exists>w'. setup_watch lenient_values f sample_manager wt ([], {}) = (None, w')"
proof -
  obtain r :: "watch_world reconciler"
    where r: "New_reconciler (watch_options lenient_values f wt web_chart empty_selector dep) = Inr r"
      "c_gvk r = Some web_gvk" "c_client r = None" "c_actionClientGetter r = None" "c_controllerSetupFuncs r = []"
      "c_labelSelector r = empty_selector"
    using assms by (simp add: New_watch_options ApplyOverrides_def getSpecMap_def setupAnnotationMaps_def)
  obtain r' w' where "SetupWithManager sample_manager r ([], {}) = ((Ret None, r'), w')"
    using sample_setup [OF r(2-5) r(6) [unfolded empty_selector_def]] by blast
  with r(1) assms show ?thesis by (simp add: setup_watch_def)
qed


end
