(* ===== verification/ObjectRepair.thy ===== *)
theory ObjectRepair
  imports ClientProps
begin

text \<open>
  What \<open>Reconcile\<close> of the action client (\<open>pkg/client/actionclient.go\<close>) does to the objects of the
  cluster, against an abstract repair of a map of objects.
\<close>

section \<open>The objects of the cluster\<close>

text \<open>
  The helper of client-go, seen through the objects that the cluster has: \<open>key\<close> is the address of
  an object, \<open>stored\<close> what the server makes of an object that is created, and \<open>patched\<close> of one that
  is patched. Reading changes nothing; a create or a patch touches the addressed object only,
  never deletes it, and does what it says when it returns no error.
\<close>

definition may_change :: "('w \<Rightarrow> 'k \<rightharpoonup> json) \<Rightarrow> 'k \<Rightarrow> json option \<Rightarrow> 'w \<Rightarrow> go_error option \<times> 'w \<Rightarrow> bool" where
  "may_change objs k new w res \<longleftrightarrow>
     (\<exists>x. objs (snd res) = (objs w)(k := x) \<and> (objs w k \<noteq> None \<longrightarrow> x \<noteq> None) \<and> (fst res = None \<longrightarrow> x = new))"

definition object_store ::
  "'w helm \<Rightarrow> (resource_info \<Rightarrow> 'k) \<Rightarrow> ('w \<Rightarrow> 'k \<rightharpoonup> json) \<Rightarrow> (resource_info \<Rightarrow> json)
     \<Rightarrow> (patch_type \<Rightarrow> string \<Rightarrow> json \<Rightarrow> json) \<Rightarrow> bool" where
  "object_store H key objs stored patched \<longleftrightarrow>
     (\<forall>i w r w'. helm_ObjGet H i w = (r, w') \<longrightarrow> objs w' = objs w
        \<and> (case r of Inr j \<Rightarrow> objs w (key i) = Some j | Inl e \<Rightarrow> IsNotFound e \<longrightarrow> objs w (key i) = None))
     \<and> (\<forall>i w. may_change objs (key i) (Some (stored i)) w (helm_ObjCreate H i w))
     \<and> (\<forall>i t p w. may_change objs (key i) (map_option (patched t p) (objs w (key i))) w (helm_ObjPatch H i t p w))"

lemma object_store_get:
  assumes "object_store H key objs stored patched" and "helm_ObjGet H i w = (r, w')"
  shows "objs w' = objs w" and "r = Inr j \<Longrightarrow> objs w (key i) = Some j"
    and "r = Inl e \<Longrightarrow> IsNotFound e \<Longrightarrow> objs w (key i) = None"
  using assms by (auto simp: object_store_def split: sum.splits)

lemma object_store_change:
  assumes "object_store H key objs stored patched"
  shows "may_change objs (key i) (Some (stored i)) w (helm_ObjCreate H i w)"
    and "may_change objs (key i) (map_option (patched t p) (objs w (key i))) w (helm_ObjPatch H i t p w)"
  using assms by (simp_all add: object_store_def)

section \<open>The abstract repair\<close>

text \<open>
  An object that is missing is created, one that is there gets the patch that \<open>createPatch\<close> makes
  for it, if any.
\<close>

definition repaired ::
  "patch_lib \<Rightarrow> (resource_info \<Rightarrow> json) \<Rightarrow> (patch_type \<Rightarrow> string \<Rightarrow> json \<Rightarrow> json) \<Rightarrow> resource_info
     \<Rightarrow> json option \<Rightarrow> json" where
  "repaired PL stored patched i cur =
     (case cur of
        None \<Rightarrow> stored i
      | Some j \<Rightarrow> (case createPatch PL j i of (Inr (Some p), t) \<Rightarrow> patched t p j | _ \<Rightarrow> j))"

fun repair_all ::
  "(resource_info \<Rightarrow> json option \<Rightarrow> json) \<Rightarrow> (resource_info \<Rightarrow> 'k) \<Rightarrow> resource_info list
     \<Rightarrow> ('k \<rightharpoonup> json) \<Rightarrow> ('k \<rightharpoonup> json)" where
  "repair_all rp key [] m = m"
| "repair_all rp key (i # js) m = repair_all rp key js (m(key i \<mapsto> rp i (m (key i))))"

lemma repair_all_frame: "k \<notin> key ` set js \<Longrightarrow> repair_all rp key js m k = m k"
  by (induction js arbitrary: m) auto

lemma repair_all_keeps: "m k \<noteq> None \<Longrightarrow> repair_all rp key js m k \<noteq> None"
  by (induction js arbitrary: m) auto

lemma repair_all_present: "k \<in> key ` set js \<Longrightarrow> repair_all rp key js m k \<noteq> None"
proof (induction js arbitrary: m)
  case (Cons i js)
  then show ?case
    using repair_all_keeps [of "m(key i \<mapsto> rp i (m (key i)))" "key i" rp key js] by auto
qed simp

lemma repair_all_nth:
  assumes "distinct (map key js)" and "i \<in> set js"
  shows "repair_all rp key js m (key i) = Some (rp i (m (key i)))"
  using assms
proof (induction js arbitrary: m)
  case (Cons j js)
  show ?case
  proof (cases "i = j")
    case True
    with Cons.prems show ?thesis
      by (simp add: repair_all_frame)
  next
    case False
    with Cons.prems have i: "i \<in> set js" and d: "distinct (map key js)" by auto
    with Cons.prems have "key i \<noteq> key j" by (metis distinct.simps(2) image_eqI list.set_map list.simps(9))
    with Cons.IH [OF d i] show ?thesis by simp
  qed
qed simp

text \<open>A repair that finds nothing to patch in what it made does nothing the second time.\<close>

lemma repair_all_id:
  assumes "\<forall>i \<in> set js. \<exists>j. m (key i) = Some j \<and> rp i (Some j) = j"
  shows "repair_all rp key js m = m"
  using assms
proof (induction js)
  case (Cons i js)
  then have "m(key i \<mapsto> rp i (m (key i))) = m" by (auto simp: fun_eq_iff)
  with Cons show ?case by simp
qed simp

lemma repair_all_idem:
  assumes "distinct (map key js)" and "\<And>i cur. rp i (Some (rp i cur)) = rp i cur"
  shows "repair_all rp key js (repair_all rp key js m) = repair_all rp key js m"
  by (rule repair_all_id) (use assms repair_all_nth [OF assms(1)] in auto)

section \<open>One object\<close>

lemma reconcile_object_repairs:
  assumes store: "object_store H key objs stored patched"
  shows "may_change objs (key i) (Some (repaired PL stored patched i (objs w (key i)))) w
      (reconcile_object PL H i ie w)
    \<and> (fst (reconcile_object PL H i ie w) = None \<longrightarrow> ie = None)"
proof (cases ie)
  case (Some err)
  then show ?thesis by (auto simp: reconcile_object_def may_change_def intro: exI [of _ "objs w (key i)"])
next
  case None
  obtain r w1 where g: "helm_ObjGet H i w = (r, w1)" by fastforce
  note get = object_store_get [OF store g]
  have keep: "may_change objs (key i) new w (e, w1)" if "e = None \<Longrightarrow> objs w (key i) = new" for e new
    using that get(1) by (auto simp: may_change_def intro: exI [of _ "objs w (key i)"])
  have done_by: "may_change objs (key i) new w res"
    if "may_change objs (key i) new w1 res1" "snd res = snd res1" "fst res = None \<longleftrightarrow> fst res1 = None" for new res res1
    using that get(1) by (auto simp: may_change_def)
  show ?thesis
  proof (cases r)
    case (Inl ge)
    show ?thesis
    proof (cases "IsNotFound ge")
      case True
      obtain ce w2 where c: "helm_ObjCreate H i w1 = (ce, w2)" by fastforce
      from None g Inl True c have "reconcile_object PL H i ie w = (map_option (ErrWrap ''create error: '') ce, w2)"
        by (simp add: reconcile_object_def split: option.split)
      with None get(3) [OF Inl True] object_store_change(1) [OF store, of i w1] c show ?thesis
        by (auto simp: repaired_def intro!: done_by)
    qed (use None g Inl keep in \<open>auto simp: reconcile_object_def\<close>)
  next
    case (Inr j)
    note j = get(2) [OF Inr]
    obtain pr t where p: "createPatch PL j i = (pr, t)" by fastforce
    consider e where "pr = Inl e" | "pr = Inr None" | patch where "pr = Inr (Some patch)"
      by (metis not_Some_eq sum.exhaust)
    then show ?thesis
    proof cases
      case (3 patch)
      obtain pe w2 where c: "helm_ObjPatch H i t patch w1 = (pe, w2)" by fastforce
      from None g Inr p 3 c have "reconcile_object PL H i ie w = (map_option (ErrWrap ''patch error: '') pe, w2)"
        by (simp add: reconcile_object_def split: option.split)
      with None j p 3 object_store_change(2) [OF store, of i t patch w1] c get(1) show ?thesis
        by (auto simp: repaired_def intro!: done_by)
    qed (use None g Inr p j keep in \<open>auto simp: reconcile_object_def repaired_def\<close>)
  qed
qed

section \<open>All objects of a manifest\<close>

lemma visit_infos_repair:
  assumes store: "object_store H key objs stored patched"
    and "visit_infos (reconcile_object PL H) infos w = (e, w')"
  shows "if e = None
    then list_all (\<lambda>x. snd x = None) infos
      \<and> objs w' = repair_all (repaired PL stored patched) key (map fst infos) (objs w)
    else \<exists>pre i ie post x. infos = pre @ (i, ie) # post \<and> list_all (\<lambda>x. snd x = None) pre
      \<and> (let m = repair_all (repaired PL stored patched) key (map fst pre) (objs w)
         in objs w' = m(key i := x) \<and> (m (key i) \<noteq> None \<longrightarrow> x \<noteq> None))"
  using assms(2)
proof (induction infos arbitrary: w)
  case (Cons info infos)
  obtain i ie where info: "info = (i, ie)" by fastforce
  obtain e1 w1 where o1: "reconcile_object PL H i ie w = (e1, w1)" by fastforce
  with reconcile_object_repairs [OF store, of i PL w ie] obtain x where x: "objs w1 = (objs w)(key i := x)"
    "objs w (key i) \<noteq> None \<longrightarrow> x \<noteq> None"
    "e1 = None \<longrightarrow> ie = None \<and> x = Some (repaired PL stored patched i (objs w (key i)))"
    by (auto simp: may_change_def)
  show ?case
  proof (cases e1)
    case (Some err)
    with Cons.prems info o1 have "e \<noteq> None" "w' = w1" by auto
    with x info show ?thesis
      by (intro iffD2 [OF if_not_P] exI [of _ "[]"] exI [of _ i] exI [of _ ie] exI [of _ infos] exI [of _ x]) simp_all
  next
    case None
    with Cons.prems info o1 have v: "visit_infos (reconcile_object PL H) infos w1 = (e, w')" by simp
    from None x have w1: "ie = None" "objs w1 = (objs w)(key i \<mapsto> repaired PL stored patched i (objs w (key i)))" by auto
    show ?thesis
    proof (cases "e = None")
      case True
      with Cons.IH [OF v] w1 info show ?thesis by simp
    next
      case False
      with Cons.IH [OF v] obtain pre i' ie' post y where "infos = pre @ (i', ie') # post"
        "list_all (\<lambda>x. snd x = None) pre"
        "let m = repair_all (repaired PL stored patched) key (map fst pre) (objs w1)
           in objs w' = m(key i' := y) \<and> (m (key i') \<noteq> None \<longrightarrow> y \<noteq> None)" by auto
      with w1 info False show ?thesis
        by (intro iffD2 [OF if_not_P] exI [of _ "info # pre"]) (auto simp: Let_def)
    qed
  qed
qed simp

section \<open>Reconciling a release\<close>

lemma json_patch_ops:
  assumes "createPatch PL j i = (Inr (Some p), JSONPatchType)"
  shows "\<exists>ops. pt_MarshalOps PL ops = Inr p \<and> ops \<noteq> [] \<and> list_all keep_patch_op ops"
  using assms
  by (auto simp: createPatch_def createJSONMergePatch_def list_all_iff Let_def split: sum.splits option.splits if_splits)

text \<open>What a visit leaves alone, however it ends.\<close>

lemma visit_effect:
  assumes "if e = None
    then list_all (\<lambda>x. snd x = None) infos \<and> m' = repair_all rp key (map fst infos) m
    else \<exists>pre i ie post x. infos = pre @ (i, ie) # post \<and> list_all (\<lambda>x. snd x = None) pre
      \<and> (let m1 = repair_all rp key (map fst pre) m
         in m' = m1(key i := x) \<and> (m1 (key i) \<noteq> None \<longrightarrow> x \<noteq> None))"
  shows "(m k \<noteq> None \<longrightarrow> m' k \<noteq> None) \<and> (k \<notin> key ` set (map fst infos) \<longrightarrow> m' k = m k)"
proof (cases "e = None")
  case True
  with assms show ?thesis
    using repair_all_keeps [of m k rp key "map fst infos"] repair_all_frame [of k key "map fst infos" rp m] by simp
next
  case False
  with assms obtain pre i ie post x where "infos = pre @ (i, ie) # post"
    "m' = (repair_all rp key (map fst pre) m)(key i := x)"
    "repair_all rp key (map fst pre) m (key i) \<noteq> None \<longrightarrow> x \<noteq> None"
    unfolding Let_def by (simp only: if_False) blast
  then show ?thesis
    using repair_all_keeps [of m k rp key "map fst pre"] repair_all_frame [of k key "map fst pre" rp m]
    by (cases "k = key i") auto
qed

text \<open>C15. An up-to-date release is repaired in place. When \<open>Reconcile\<close> of the action client returns no
  error, every object of the manifest that was missing has been created and every other one has got
  exactly the patch made for it, in the order of the manifest. When it returns an error, that is so for the
  objects before the one that failed, and at most that one has changed besides. In any case no object is
  ever deleted and no object outside the manifest touched, and a JSON patch that is sent has an operation,
  but none that removes a field and none that adds null.\<close>

theorem drift_repaired:
  assumes "object_store (conf c) key objs stored patched" and "client_Reconcile PL c rel w = (err, w')"
    and "helm_Build (conf c) (rel_manifest rel) w = (Inr infos, w0)" and "objs w0 = objs w"
  shows "(if err = None
      then list_all (\<lambda>x. snd x = None) infos
        \<and> objs w' = repair_all (repaired PL stored patched) key (map fst infos) (objs w)
        \<and> (\<forall>i \<in> set (map fst infos). objs w' (key i) \<noteq> None)
      else \<exists>pre i ie post x. infos = pre @ (i, ie) # post
        \<and> objs w' = (repair_all (repaired PL stored patched) key (map fst pre) (objs w))(key i := x))
    \<and> (\<forall>k. objs w k \<noteq> None \<longrightarrow> objs w' k \<noteq> None)
    \<and> (\<forall>k. k \<notin> key ` set (map fst infos) \<longrightarrow> objs w' k = objs w k)
    \<and> (\<forall>i j p. createPatch PL j i = (Inr (Some p), JSONPatchType) \<longrightarrow>
         (\<exists>ops. pt_MarshalOps PL ops = Inr p \<and> ops \<noteq> []
            \<and> (\<forall>o1 \<in> set ops. op_operation o1 \<noteq> ''remove'' \<and> (op_operation o1 = ''add'' \<longrightarrow> op_value o1 \<noteq> None))))"
proof -
  let ?rp = "repaired PL stored patched"
  have v: "visit_infos (reconcile_object PL (conf c)) infos w0 = (err, w')"
    using assms(2,3) by (simp add: client_Reconcile_def)
  note visit = visit_infos_repair [OF assms(1) v, unfolded assms(4)]
  have objs: "if err = None
      then list_all (\<lambda>x. snd x = None) infos
        \<and> objs w' = repair_all ?rp key (map fst infos) (objs w)
        \<and> (\<forall>i \<in> set (map fst infos). objs w' (key i) \<noteq> None)
      else \<exists>pre i ie post x. infos = pre @ (i, ie) # post
        \<and> objs w' = (repair_all ?rp key (map fst pre) (objs w))(key i := x)"
  proof (cases "err = None")
    case True
    with visit repair_all_present [where key = key and rp = ?rp and m = "objs w" and js = "map fst infos"]
    show ?thesis by simp
  next
    case False
    with visit show ?thesis unfolding Let_def by (simp only: if_False) blast
  qed
  have effect: "objs w' k \<noteq> None" if "objs w k \<noteq> None" for k
    using visit_effect [OF visit] that by blast
  have frame: "objs w' k = objs w k" if "k \<notin> key ` set (map fst infos)" for k
    using visit_effect [OF visit] that by blast
  have ops: "\<exists>ops. pt_MarshalOps PL ops = Inr p \<and> ops \<noteq> []
      \<and> (\<forall>o1 \<in> set ops. op_operation o1 \<noteq> ''remove'' \<and> (op_operation o1 = ''add'' \<longrightarrow> op_value o1 \<noteq> None))"
    if "createPatch PL j i = (Inr (Some p), JSONPatchType)" for i j p
    using json_patch_ops [OF that] by (auto simp: list_all_iff keep_patch_op_def)
  from objs effect frame ops show ?thesis by blast
qed

text \<open>
  A second reconcile of the same release changes nothing, when a repaired object needs no further
  patch: a run over an up-to-date release converges at once.
\<close>

lemma second_reconcile_changes_nothing:
  assumes "object_store (conf c) key objs stored patched" and "distinct (map key (map fst infos))"
    and "\<And>i cur. repaired PL stored patched i (Some (repaired PL stored patched i cur)) = repaired PL stored patched i cur"
    and "visit_infos (reconcile_object PL (conf c)) infos w = (None, w1)"
    and "visit_infos (reconcile_object PL (conf c)) infos w1 = (None, w2)"
  shows "objs w2 = objs w1"
  using visit_infos_repair [OF assms(1,4)] visit_infos_repair [OF assms(1,5)]
    repair_all_idem [where rp = "repaired PL stored patched", OF assms(2,3)] by simp

text \<open>A cluster of objects by name: one of the manifest is missing, one has drifted, one is foreign.\<close>

definition shop_info :: "string \<Rightarrow> resource_info" where
  "shop_info n = \<lparr>in_namespace = ''prod'', in_name = n, in_object = JObj []\<rparr>"

definition shop_release :: release where
  "shop_release = sample_rel\<lparr>rel_info := Some \<lparr>ri_status = ''deployed'', ri_notes = []\<rparr>\<rparr>"

definition shop_helm :: "(string \<rightharpoonup> json) helm" where
  "shop_helm =
     \<lparr>helm_NewGet = \<lparr>ga_version = 0\<rparr>, helm_NewHistory = \<lparr>hia_max = 0\<rparr>,
      helm_NewInstall = sample_install_action, helm_NewUpgrade = base_upgrade_action,
      helm_NewUninstall = \<lparr>una_disable_hooks = False, una_description = []\<rparr>,
      helm_NewRollback = \<lparr>ra_force = False, ra_max_history = 0\<rparr>,
      helm_Get = (\<lambda>g n w. ((Some shop_release, None), w)), helm_History = (\<lambda>h n w. (([], None), w)),
      helm_Install = (\<lambda>i c v w. ((Some shop_release, None), w)), helm_Upgrade = (\<lambda>u n c v w. ((Some shop_release, None), w)),
      helm_Uninstall = (\<lambda>u n w. ((None, None), w)), helm_Rollback = (\<lambda>r n w. (None, w)),
      helm_SortByRevision = (\<lambda>rs. rs),
      helm_Build = (\<lambda>m w. (Inr [(shop_info ''svc'', None), (shop_info ''dep'', None)], w)),
      helm_ObjGet = (\<lambda>i w. (case w (in_name i) of None \<Rightarrow> Inl (ErrApi NotFound ''not found'') | Some j \<Rightarrow> Inr j, w)),
      helm_ObjCreate = (\<lambda>i w. (None, w(in_name i \<mapsto> in_object i))),
      helm_ObjPatch = (\<lambda>i t p w. (None, w(in_name i := map_option (\<lambda>_. JObj []) (w (in_name i)))))\<rparr>"

definition shop_client :: "(string \<rightharpoonup> json) actionClient" where
  "shop_client =
     \<lparr>conf = shop_helm, defaultGetOpts = [], defaultHistoryOpts = [], defaultInstallOpts = [],
      defaultUpgradeOpts = [], defaultUninstallOpts = [], enableFailureRollbacks = True,
      installFailureUninstallOpts = [], upgradeFailureRollbackOpts = []\<rparr>"

definition shop_patch_lib :: patch_lib where
  "shop_patch_lib =
     \<lparr>pt_Marshal = (\<lambda>j. Inr (if j = JObj [] then ''{}'' else ''null'')), pt_AsVersioned = (\<lambda>i. VTyped),
      pt_CreatePatch = (\<lambda>x y. Inr [sample_remove]), pt_MarshalOps = (\<lambda>ops. Inr ''ops''),
      pt_NewPatchMeta = (\<lambda>i. None), pt_ThreeWayMerge = (\<lambda>a b x i. Inr (if x = a then ''{}'' else ''merge''))\<rparr>"

lemma shop_store: "object_store shop_helm in_name (\<lambda>w. w) in_object (\<lambda>t p j. JObj [])"
  by (auto simp: object_store_def may_change_def shop_helm_def IsNotFound_def split: option.split)

theorem drift_repaired_witness:
  "\<exists>w'. client_Reconcile shop_patch_lib shop_client sample_rel [''dep'' \<mapsto> JNull, ''other'' \<mapsto> JNull] = (None, w')
     \<and> w' ''svc'' = Some (JObj []) \<and> w' ''dep'' = Some (JObj []) \<and> w' ''other'' = Some JNull"
proof -
  let ?w = "[''dep'' \<mapsto> JNull, ''other'' \<mapsto> JNull]" and ?infos = "[(shop_info ''svc'', None), (shop_info ''dep'', None)]"
  obtain err w' where run: "client_Reconcile shop_patch_lib shop_client sample_rel ?w = (err, w')" by fastforce
  have err: "err = None"
    using run by (simp add: client_Reconcile_def shop_client_def shop_helm_def reconcile_object_def shop_info_def
        createPatch_def shop_patch_lib_def IsNotFound_def)
  have store: "object_store (conf shop_client) in_name (\<lambda>w. w) in_object (\<lambda>t p j. JObj [])"
    by (simp add: shop_client_def shop_store)
  have build: "helm_Build (conf shop_client) (rel_manifest sample_rel) ?w = (Inr ?infos, ?w)"
    by (simp add: shop_client_def shop_helm_def)
  from drift_repaired [OF store run build refl] err
  have w': "w' = repair_all (repaired shop_patch_lib in_object (\<lambda>t p j. JObj [])) in_name (map fst ?infos) ?w"
    by simp
  have "w' ''svc'' = Some (JObj []) \<and> w' ''dep'' = Some (JObj []) \<and> w' ''other'' = Some JNull"
    using w' by (simp add: repaired_def shop_info_def createPatch_def shop_patch_lib_def)
  with run err show ?thesis by blast
qed

end
