(* ===== verification/RepairRun.thy ===== *)
theory RepairRun
  imports ObjectRepair Samples
begin

text \<open>
  A run of the loop over an up-to-date release, down to the objects of the cluster: the reconciler
  (\<open>pkg/reconciler/reconciler.go\<close>) on top of the action client (\<open>pkg/client/actionclient.go\<close>).
\<close>

section \<open>Steps that leave the objects alone\<close>

text \<open>
  What the loop calls besides \<open>Reconcile\<close> does not touch the objects of the manifest: the
  translator, the hooks, reading a release, building the manifest, and an upgrade that is a dry run.
\<close>

definition keeps_objects :: "('w \<Rightarrow> 'k \<rightharpoonup> json) \<Rightarrow> 'w runtime \<Rightarrow> 'w helm \<Rightarrow> bool" where
  "keeps_objects objs r H \<longleftrightarrow>
     (\<forall>obj w. objs (snd (rt_valueTranslator r obj w)) = objs w)
     \<and> (\<forall>h \<in> set (rt_preHooks r). \<forall>obj v w. objs (snd (h obj v w)) = objs w)
     \<and> (\<forall>h \<in> set (rt_postHooks r). \<forall>obj rel w. objs (snd (h obj rel w)) = objs w)
     \<and> (\<forall>g n w. objs (snd (helm_Get H g n w)) = objs w)
     \<and> (\<forall>m w. objs (snd (helm_Build H m w)) = objs w)
     \<and> (\<forall>u n chrt v w. ua_dry_run u \<longrightarrow> objs (snd (helm_Upgrade H u n chrt v w)) = objs w)"

lemma fcall_objects:
  assumes "fcall ev g f = (x, f')" and "\<And>w. objs (snd (g w)) = objs w"
  shows "objs (world (f_sys f')) = objs (world (f_sys f))"
  using assms(2) [of "world (f_sys f)"] fcall_eqD(4) [OF assms(1)] by simp

lemma getValues_objects:
  assumes "keeps_objects objs r H" and "getValues r E f = (v, f')"
  shows "objs (world (f_sys f')) = objs (world (f_sys f))"
proof -
  obtain err obj1 where o: "ApplyOverrides (e_values E) (rt_overrideValues r) (f_obj f) = (err, obj1)" by fastforce
  obtain res obj2 f1 where c: "fcall EvTranslate (rt_valueTranslator r obj1) (f\<lparr>f_obj := obj1\<rparr>) = ((res, obj2), f1)"
    by (metis surj_pair)
  have "objs (world (f_sys f1)) = objs (world (f_sys f))"
    using fcall_objects [OF c, of objs] assms(1) by (simp add: keeps_objects_def)
  with assms(2) show ?thesis by (cases err; cases res) (auto simp: getValues_def o c)
qed

lemma pre_hooks_objects:
  assumes "\<forall>h \<in> set hs. \<forall>obj v w. objs (snd (h obj v w)) = objs w"
  shows "objs (world (f_sys (snd (run_pre_hooks hs vals0 f)))) = objs (world (f_sys f))"
  using assms
proof (induction hs vals0 f rule: run_pre_hooks.induct)
  case (2 h hs vals0 f)
  obtain err obj' vals' f1 where c: "fcall EvPreHook (h (f_obj f) vals0) f = ((err, obj', vals'), f1)"
    by (metis surj_pair)
  from 2(1) [OF c [symmetric] refl refl] 2(2) c fcall_objects [OF c, of objs] show ?case by simp
qed simp

lemma post_hooks_objects:
  assumes "\<forall>h \<in> set hs. \<forall>obj rel w. objs (snd (h obj rel w)) = objs w"
  shows "objs (world (f_sys (run_post_hooks hs rel f))) = objs (world (f_sys f))"
  using assms
proof (induction hs rel f rule: run_post_hooks.induct)
  case (2 h hs rel f)
  obtain err obj' f1 where c: "fcall EvPostHook (h (f_obj f) rel) f = ((err, obj'), f1)" by (metis surj_pair)
  from 2(1) [OF c [symmetric] refl] 2(2) c fcall_objects [OF c, of objs] show ?case by simp
qed simp

lemma finish_release_objects:
  assumes "keeps_objects objs r H" and "finish_release r rel f = (out, f')"
  shows "objs (world (f_sys f')) = objs (world (f_sys f))"
  using assms post_hooks_objects [of "rt_postHooks r" objs rel f]
  by (auto simp: finish_release_def keeps_objects_def Let_def)

lemma client_Get_objects:
  "keeps_objects objs r (conf c) \<Longrightarrow> objs (snd (client_Get c name opts w)) = objs w"
  by (simp add: client_Get_def keeps_objects_def split: sum.split)

text \<open>The option of the dry run comes last, so nothing turns it off.\<close>

lemma client_Upgrade_dry_run:
  assumes "keeps_objects objs r (conf c)"
    and "client_Upgrade c name ns chrt v (opts @ [dry_run_option]) w = ((rel, None), w')"
  shows "objs w' = objs w"
proof -
  from assms(2) obtain u where u: "run_options ((defaultUpgradeOpts c @ opts) @ [dry_run_option]) (helm_NewUpgrade (conf c)) = Inr u"
    and w: "helm_Upgrade (conf c) (u\<lparr>ua_namespace := ns\<rparr>) name chrt v w = ((rel, None), w')"
    by (auto simp: client_Upgrade_def concat_opts_def Let_def split: sum.splits prod.splits option.splits if_splits)
  from u have "ua_dry_run (u\<lparr>ua_namespace := ns\<rparr>)"
    unfolding run_options_snoc by (auto simp: dry_run_option_def split: sum.splits)
  with assms(1) have "objs (snd (helm_Upgrade (conf c) (u\<lparr>ua_namespace := ns\<rparr>) name chrt v w)) = objs w"
    unfolding keeps_objects_def by blast
  with w show ?thesis by simp
qed

lemma getReleaseState_unchanged:
  assumes keeps: "keeps_objects objs r (conf c)"
    and run: "getReleaseState r (action_interface_of PL c) v f = (Ret (rel, StateUnchanged, None), f')"
  shows "objs (world (f_sys f')) = objs (world (f_sys f))
    \<and> (\<exists>cr w1. rel = Some cr \<and> client_Get c (u_name (f_obj f)) [] (world (f_sys f)) = ((Some cr, None), w1))"
proof -
  let ?A = "action_interface_of PL c"
  obtain cur err f1 where g: "fcall EvGetRelease (ai_Get ?A (u_name (f_obj f)) []) f = ((cur, err), f1)"
    by (metis surj_pair)
  obtain spec err2 f2 where u: "fcall EvDryRunUpgrade (ai_Upgrade ?A (u_name (f_obj f)) (u_namespace (f_obj f)) (rt_chrt r) v
      (upgrade_options r (f_obj f) @ [dry_run_option])) f1 = ((spec, err2), f2)" by (metis surj_pair)
  have s: "f' = f2" "err = None" "err2 = None" "\<exists>cr. rel = Some cr \<and> cur = Some cr"
    using run by (auto simp: getReleaseState_def g u Let_def split: if_splits option.splits)
  have "objs (world (f_sys f1)) = objs (world (f_sys f))"
    using fcall_objects [OF g, of objs] client_Get_objects [OF keeps] by (simp add: action_interface_of_def)
  moreover have "objs (world (f_sys f2)) = objs (world (f_sys f1))"
    using fcall_eqD(4) [OF u] s(3) by (auto simp: action_interface_of_def intro: client_Upgrade_dry_run [OF keeps])
  ultimately show ?thesis
    using s fcall_eqD(4) [OF g] by (auto simp: action_interface_of_def)
qed

section \<open>The release state of a run\<close>

lemma frame_step_event:
  "frame_step A f g \<Longrightarrow> ev \<notin> A \<Longrightarrow> ev \<in> set (calls (f_sys g)) \<longleftrightarrow> ev \<in> set (calls (f_sys f))"
  by (auto simp: frame_step_def adds_def)

lemma reconcile_not_override [simp]: "EvReconcileRelease \<notin> override_events"
  by (auto simp: override_events_def)

text \<open>Only the branch of an unchanged release reconciles it.\<close>

lemma perform_state_reconciles:
  assumes "perform_state r A v rel state f = (Ret (res, None), f')"
    and "EvReconcileRelease \<notin> set (calls (f_sys f))" and "EvReconcileRelease \<in> set (calls (f_sys f'))"
  obtains rl f1 where "state = StateUnchanged" and "rel = Some rl" and "doReconcile A rl f = (None, f1)"
    and "finish_release r rl f1 = (Ret (res, None), f')"
proof (cases state)
  case StateNeedsInstall
  obtain o1 f1 where i: "doInstall r A v f = (o1, f1)" by (metis surj_pair)
  with assms(1) StateNeedsInstall obtain rl where "finish_release r rl f1 = (Ret (res, None), f')"
    by (auto simp: perform_state_def fail_with_def split: exit.splits sum.splits)
  with frame_step_event [OF doInstall_step [OF i], of EvReconcileRelease]
    frame_step_event [OF finish_release_step, of r rl f1 _ f' EvReconcileRelease] assms(2,3)
  show thesis by simp
next
  case StateNeedsUpgrade
  obtain o1 f1 where i: "doUpgrade r A v f = (o1, f1)" by (metis surj_pair)
  with assms(1) StateNeedsUpgrade obtain rl where "finish_release r rl f1 = (Ret (res, None), f')"
    by (auto simp: perform_state_def fail_with_def split: exit.splits sum.splits)
  with frame_step_event [OF doUpgrade_step [OF i], of EvReconcileRelease]
    frame_step_event [OF finish_release_step, of r rl f1 _ f' EvReconcileRelease] assms(2,3)
  show thesis by simp
next
  case StateUnchanged
  with assms(1) that show thesis
    by (auto simp: perform_state_def fail_with_def split: option.splits prod.splits)
next
  case StateError
  with assms(1) show thesis by (simp add: perform_state_def fail_with_def)
qed

lemma reconcile_release_unchanged:
  assumes "reconcile_release r E A f = (Ret (res, None), f')"
    and "EvReconcileRelease \<notin> set (calls (f_sys f))" and "EvReconcileRelease \<in> set (calls (f_sys f'))"
  obtains vals0 f1 rl f2 vals1 f4 f5 where "getValues r E f = (Inr vals0, f1)"
    and "getReleaseState r A vals0 f1 = (Ret (Some rl, StateUnchanged, None), f2)"
    and "run_pre_hooks (rt_preHooks r) vals0
           (collect [EnsureCondition (Irreconcilable ConditionFalse [] (MStr []))] f2) = (vals1, f4)"
    and "doReconcile A rl f4 = (None, f5)" and "finish_release r rl f5 = (Ret (res, None), f')"
proof -
  obtain v f1 where v: "getValues r E f = (v, f1)" by (metis surj_pair)
  with assms(1) obtain vals0 where v0: "v = Inr vals0" by (cases v) (auto simp: reconcile_release_def fail_with_def)
  obtain st f2 where st: "getReleaseState r A vals0 f1 = (st, f2)" by (metis surj_pair)
  with assms(1) v v0 obtain rel state where rel: "st = Ret (rel, state, None)"
    by (cases st) (auto simp: reconcile_release_def fail_with_def split: option.splits)
  let ?f3 = "collect [EnsureCondition (Irreconcilable ConditionFalse [] (MStr []))] f2"
  obtain vals1 f4 where h: "run_pre_hooks (rt_preHooks r) vals0 ?f3 = (vals1, f4)" by (metis surj_pair)
  have p: "perform_state r A vals1 rel state f4 = (Ret (res, None), f')"
    using assms(1) v v0 st rel h by (simp add: reconcile_release_def)
  have "EvReconcileRelease \<notin> set (calls (f_sys f4))"
    using frame_step_event [OF getValues_step [OF v], of EvReconcileRelease]
      frame_step_event [OF getReleaseState_step(1) [OF st], of EvReconcileRelease]
      frame_step_event [OF run_pre_hooks_step [of ?f3 "rt_preHooks r" vals0], of EvReconcileRelease] h assms(2)
    by simp
  from perform_state_reconciles [OF p this assms(3)] obtain rl f5 where
    "state = StateUnchanged" "rel = Some rl" "doReconcile A rl f4 = (None, f5)" "finish_release r rl f5 = (Ret (res, None), f')"
    by blast
  with v v0 st rel h show thesis by (intro that) simp_all
qed

section \<open>The whole run\<close>


text \<open>The shop with its objects, run by a reconciler without hooks.\<close>

definition shop_runtime :: "(string \<rightharpoonup> json) runtime" where
  "shop_runtime =
     \<lparr>rt_client =
        \<lparr>kc_get = (\<lambda>k (obj, w). (Some (ErrApi NotFound ''not found''), obj, w)),
         kc_update = (\<lambda>(obj, w). (None, obj, w)), kc_status_update = (\<lambda>(obj, w). (None, obj, w))\<rparr>,
      rt_actionClientGetter = (\<lambda>obj w. (Inr (action_interface_of shop_patch_lib shop_client), w)),
      rt_valueTranslator = (\<lambda>obj w. ((DefaultTranslator obj, obj), w)),
      rt_valueMapper = DefaultMapper, rt_eventRecorder = (\<lambda>obj t reason m w. w),
      rt_preHooks = [], rt_postHooks = [],
      rt_gvk = \<lparr>gvk_group = ''apps'', gvk_version = ''v1'', gvk_kind = ''Shop''\<rparr>,
      rt_chrt = sample_chart, rt_overrideValues = [], rt_reconcilePeriod = 60, rt_waitForDeletionTimeout = 30,
      rt_maxReleaseHistory = 10, rt_pauseHandler = None, rt_installAnnotations = [],
      rt_upgradeAnnotations = [], rt_uninstallAnnotations = []\<rparr>"

definition shop_env :: "(string \<rightharpoonup> json) env" where
  "shop_env =
     \<lparr>e_lib = sample_lib, e_values = \<lparr>vl_getenv = (\<lambda>x. []), vl_ParseInto = (\<lambda>line m. (None, m))\<rparr>,
      e_CoalesceValues = (\<lambda>chrt v. Inr v)\<rparr>"

definition shop_start :: "(string \<rightharpoonup> json) frame" where
  "shop_start =
     \<lparr>f_obj = (new_object (rt_gvk shop_runtime))\<lparr>u_name := ''web'', u_namespace := ''prod'', u_spec := Some (JObj [])\<rparr>,
      f_u = New_updater,
      f_sys = \<lparr>world = [''dep'' \<mapsto> JNull, ''other'' \<mapsto> JNull], calls = []\<rparr>\<rparr>"


section \<open>A failed dry run\<close>


text \<open>The shop with a chart whose objects the cluster does not know; a rollback removes the drifted object.\<close>

definition unknown_kind_helm :: "(string \<rightharpoonup> json) helm" where
  "unknown_kind_helm = shop_helm
     \<lparr>helm_Upgrade := (\<lambda>u n c v w. ((Some shop_release, Some (ErrMsg ''no matches for kind'')), w)),
      helm_Rollback := (\<lambda>r n w. (None, w(''dep'' := None)))\<rparr>"


end
