(* ===== verification/DriftEvents.thy ===== *)
theory DriftEvents
  imports WatcherProps
begin

text \<open>
  From the mark on an object of a release to a request for its owner: the owner post-renderer
  (\<open>pkg/client/postrenderer.go\<close>) and the dependent watcher (\<open>reconciler/internal/hook/hook.go\<close>) decide
  alike whether an object is followed by owner reference or by annotation.
\<close>

section \<open>Requests\<close>

text \<open>
  \<open>requests\<close> are the names that a handler makes of an object. The owner handler of
  controller-runtime reads the controller reference, and takes the namespace of the object when the
  owner is namespaced; the annotation handler of operator-lib reads the annotations that
  \<open>SetOwnerAnnotations\<close> of the same library writes, beside those that the object has.
\<close>

type_synonym key = "string \<times> string"

definition owner_key :: "unstructured \<Rightarrow> key" where
  "owner_key owner = (u_namespace owner, u_name owner)"

definition controllers :: "unstructured \<Rightarrow> owner_ref list" where
  "controllers u = filter (\<lambda>r. or_controller r = Some True) (u_owner_refs u)"

definition routing_ok ::
  "pr_lib \<Rightarrow> (gvk \<Rightarrow> go_error + rest_scope) \<Rightarrow> (watch_handler \<Rightarrow> unstructured \<Rightarrow> key set) \<Rightarrow> bool" where
  "routing_ok P rm requests \<longleftrightarrow>
     (\<forall>owner. or_controller (pl_NewControllerRef P owner (u_gvk owner)) = Some True)
     \<and> (\<forall>owner dep. controllers dep = [pl_NewControllerRef P owner (u_gvk owner)]
          \<and> (rm (u_gvk owner) = Inr RootScope \<and> u_namespace owner = []
               \<or> rm (u_gvk owner) = Inr NamespaceScope \<and> u_namespace dep = u_namespace owner)
          \<longrightarrow> owner_key owner \<in> requests (EnqueueRequestForOwner (u_gvk owner)) dep)
     \<and> (\<forall>owner u u'. pl_SetOwnerAnnotations P owner u = Inr u' \<longrightarrow>
          u_gvk u' = u_gvk u \<and> u_namespace u' = u_namespace u
          \<and> u_annotations u' ResourcePolicyAnno = u_annotations u ResourcePolicyAnno
          \<and> (\<forall>dep. u_annotations dep = u_annotations u' \<longrightarrow>
               owner_key owner \<in> requests (EnqueueRequestForAnnotation (gvk_group (u_gvk owner)) (gvk_kind (u_gvk owner))) dep))"

fun event_object :: "dependent_event \<Rightarrow> unstructured" where
  "event_object (CreateEvent u) = u"
| "event_object (DeleteEvent u) = u"
| "event_object (GenericEvent u) = u"
| "event_object (UpdateEvent old updated) = updated"

definition delivered ::
  "(watch_handler \<Rightarrow> unstructured \<Rightarrow> key set) \<Rightarrow> watch_source \<Rightarrow> dependent_event \<Rightarrow> key set" where
  "delivered requests src ev =
     (if DependentPredicate \<in> set (ws_predicates src) \<and> \<not> DependentPredicateFuncs ev then {}
      else requests (ws_handler src) (event_object ev))"

section \<open>Marks and sources agree\<close>

text \<open>Whether an object is followed by its owner reference.\<close>

definition by_reference :: "(gvk \<Rightarrow> go_error + rest_scope) \<Rightarrow> unstructured \<Rightarrow> unstructured \<Rightarrow> bool" where
  "by_reference rm owner u \<longleftrightarrow>
     SupportsOwnerReference rm owner u = Inr True \<and> \<not> HasResourcePolicyKeep (Some (u_annotations u))"

lemma SupportsOwnerReference_cong:
  "u_gvk u = u_gvk u' \<Longrightarrow> u_namespace u = u_namespace u' \<Longrightarrow>
     SupportsOwnerReference rm owner u = SupportsOwnerReference rm owner u'"
  by (simp only: SupportsOwnerReference_def)

lemma HasResourcePolicyKeep_cong:
  "m ResourcePolicyAnno = m' ResourcePolicyAnno \<Longrightarrow> HasResourcePolicyKeep (Some m) = HasResourcePolicyKeep (Some m')"
  by (simp add: HasResourcePolicyKeep_def)

lemma dependent_source_handler:
  assumes "SupportsOwnerReference rm owner u = Inr b"
  shows "ws_handler (dependent_source owner u b) =
    (if by_reference rm owner u then EnqueueRequestForOwner (u_gvk owner)
     else EnqueueRequestForAnnotation (gvk_group (u_gvk owner)) (gvk_kind (u_gvk owner)))"
  using assms by (simp add: dependent_source_def by_reference_def)

text \<open>An owner reference is only set where the owner's name can be read off the object.\<close>

lemma by_reference_scope:
  "by_reference rm owner u \<Longrightarrow> rm (u_gvk owner) = Inr RootScope
     \<or> rm (u_gvk owner) = Inr NamespaceScope \<and> u_namespace u = u_namespace owner"
  by (auto simp: by_reference_def SupportsOwnerReference_def Let_def split: sum.splits if_splits)
    (metis rest_scope.exhaust)

text \<open>
  Marking an object does not change how it is followed, and a handler chosen for it makes a
  request for the owner of every object that still carries the mark.
\<close>

lemma mark_owner_routes:
  assumes laws: "routing_ok P rm requests" and mark: "mark_owner P rm owner u = Inr obj" and none: "controllers u = []"
    and root: "rm (u_gvk owner) = Inr RootScope \<Longrightarrow> u_namespace owner = []"
    and live: "u_owner_refs live = u_owner_refs obj" "u_annotations live = u_annotations obj"
      "u_namespace live = u_namespace obj"
  shows "owner_key owner \<in> requests (if by_reference rm owner obj then EnqueueRequestForOwner (u_gvk owner)
      else EnqueueRequestForAnnotation (gvk_group (u_gvk owner)) (gvk_kind (u_gvk owner))) live"
  using mark
proof (cases rule: mark_owner_cases)
  case ref
  then have b: "by_reference rm owner obj"
    using SupportsOwnerReference_cong [of obj u rm owner] by (simp add: by_reference_def)
  from laws have "or_controller (pl_NewControllerRef P owner (u_gvk owner)) = Some True" by (simp add: routing_ok_def)
  with ref(3) none live(1) have "controllers live = [pl_NewControllerRef P owner (u_gvk owner)]"
    by (simp add: controllers_def)
  with laws by_reference_scope [OF b] live(3) root have "owner_key owner \<in> requests (EnqueueRequestForOwner (u_gvk owner)) live"
    unfolding routing_ok_def by auto
  with b show ?thesis by simp
next
  case (annotation b)
  from laws annotation(3) have same: "u_gvk obj = u_gvk u" "u_namespace obj = u_namespace u"
    "u_annotations obj ResourcePolicyAnno = u_annotations u ResourcePolicyAnno"
    and req: "owner_key owner \<in> requests (EnqueueRequestForAnnotation (gvk_group (u_gvk owner)) (gvk_kind (u_gvk owner))) live"
    using live(2) by (auto simp: routing_ok_def)
  have "\<not> by_reference rm owner obj"
    using annotation(1,2) SupportsOwnerReference_cong [OF same(1,2), of rm owner] HasResourcePolicyKeep_cong [of "u_annotations obj" "u_annotations u"] same(3)
    by (auto simp: by_reference_def)
  with req show ?thesis by simp
qed

section \<open>The sources of a release\<close>

lemma exec_document_sources:
  assumes "watch_ok (dw_controller d) log" and "u_gvk obj \<noteq> listGVK" and "exec_document d owner obj s = (err, s')"
  shows "\<exists>new. log (snd s') = log (snd s) @ new \<and> fst s' = fst s \<union> ws_gvk ` set new
    \<and> (\<forall>src \<in> set new. \<exists>b. SupportsOwnerReference (dw_restMapper d) owner obj = Inr b \<and> src = dependent_source owner obj b)"
proof (cases "gvk_empty (u_gvk obj)")
  case True
  with assms(3) show ?thesis by (simp add: exec_document_def)
next
  case False
  with assms(2,3) have set: "setWatchOnResource d owner (u_gvk obj) obj s = (err, s')" by (simp add: exec_document_def)
  show ?thesis
  proof (cases "snd s' = snd s \<and> fst s' = fst s")
    case True
    then show ?thesis by (intro exI [of _ "[]"]) simp
  next
    case same: False
    with set False obtain b where b: "SupportsOwnerReference (dw_restMapper d) owner obj = Inr b"
      by (auto simp: setWatchOnResource_def split: if_splits sum.splits)
    obtain e w1 where w: "ctl_Watch (dw_controller d) (dependent_source owner obj b) (snd s) = (e, w1)" by fastforce
    with assms(1) have l: "log w1 = (if e = None then log (snd s) @ [dependent_source owner obj b] else log (snd s))"
      unfolding watch_ok_def by blast
    from set False same b w have "s' = (if e = None then insert (u_gvk obj) (fst s) else fst s, w1)"
      by (auto simp: setWatchOnResource_def split: if_splits option.splits)
    with l b show ?thesis
      by (cases e) (auto intro: exI [of _ "[dependent_source owner obj b]"])
  qed
qed

lemma exec_resources_sources:
  assumes "watch_ok (dw_controller d) log"
    and "\<forall>r \<in> set rs. \<forall>obj. ml_Unmarshal (dw_lib d) r = Inr obj \<longrightarrow> u_gvk obj \<noteq> listGVK"
    and "exec_resources d owner rs s = (err, s')"
  shows "\<exists>new. log (snd s') = log (snd s) @ new \<and> fst s' = fst s \<union> ws_gvk ` set new
    \<and> (\<forall>src \<in> set new. \<exists>r \<in> set rs. \<exists>obj b. ml_Unmarshal (dw_lib d) r = Inr obj
         \<and> SupportsOwnerReference (dw_restMapper d) owner obj = Inr b \<and> src = dependent_source owner obj b)"
  using assms(2,3)
proof (induction rs arbitrary: s)
  case Nil
  then show ?case by simp
next
  case (Cons r rs)
  show ?case
  proof (cases "ml_Unmarshal (dw_lib d) r")
    case (Inl e)
    with Cons.prems show ?thesis by auto
  next
    case (Inr obj)
    obtain e1 s1 where d1: "exec_document d owner obj s = (e1, s1)" by (metis surj_pair)
    have nl: "u_gvk obj \<noteq> listGVK" using Cons.prems(1) Inr by simp
    from exec_document_sources [OF assms(1) nl d1] obtain n1 where n1: "log (snd s1) = log (snd s) @ n1"
      "fst s1 = fst s \<union> ws_gvk ` set n1"
      "\<forall>src \<in> set n1. \<exists>b. SupportsOwnerReference (dw_restMapper d) owner obj = Inr b \<and> src = dependent_source owner obj b"
      by blast
    show ?thesis
    proof (cases e1)
      case (Some x)
      with Cons.prems(2) Inr d1 have "s' = s1" by simp
      with n1 Inr show ?thesis by (intro exI [of _ n1]) auto
    next
      case None
      with Cons.prems(2) Inr d1 have rest: "exec_resources d owner rs s1 = (err, s')" by simp
      have plain: "\<forall>r \<in> set rs. \<forall>obj. ml_Unmarshal (dw_lib d) r = Inr obj \<longrightarrow> u_gvk obj \<noteq> listGVK"
        using Cons.prems(1) by simp
      from Cons.IH [OF plain rest] obtain n2 where n2: "log (snd s') = log (snd s1) @ n2"
        "fst s' = fst s1 \<union> ws_gvk ` set n2"
        "\<forall>src \<in> set n2. \<exists>r \<in> set rs. \<exists>obj b. ml_Unmarshal (dw_lib d) r = Inr obj
           \<and> SupportsOwnerReference (dw_restMapper d) owner obj = Inr b \<and> src = dependent_source owner obj b" by blast
      show ?thesis
      proof (intro exI [of _ "n1 @ n2"] conjI ballI)
        fix src
        assume "src \<in> set (n1 @ n2)"
        then show "\<exists>r \<in> set (r # rs). \<exists>obj b. ml_Unmarshal (dw_lib d) r = Inr obj
            \<and> SupportsOwnerReference (dw_restMapper d) owner obj = Inr b \<and> src = dependent_source owner obj b"
          using n1(3) n2(3) Inr by fastforce
      qed (use n1 n2 in auto)
    qed
  qed
qed

text \<open>A release that is handled without an error leaves no kind unwatched, whatever the state before.\<close>

lemma exec_document_watched:
  assumes "u_gvk obj \<noteq> listGVK" and "exec_document d owner obj s = (None, s')"
  shows "fst s \<subseteq> fst s' \<and> (gvk_empty (u_gvk obj) \<or> u_gvk obj \<in> fst s')"
  using assms
  by (auto simp: exec_document_def setWatchOnResource_def Let_def
      split: if_splits sum.splits prod.splits option.splits)

lemma exec_resources_watched:
  assumes "\<forall>r \<in> set rs. \<forall>obj. ml_Unmarshal (dw_lib d) r = Inr obj \<longrightarrow> u_gvk obj \<noteq> listGVK"
    and "exec_resources d owner rs s = (None, s')"
  shows "fst s \<subseteq> fst s' \<and> (\<forall>r \<in> set rs. \<forall>obj. ml_Unmarshal (dw_lib d) r = Inr obj \<longrightarrow>
     gvk_empty (u_gvk obj) \<or> u_gvk obj \<in> fst s')"
  using assms
proof (induction rs arbitrary: s)
  case (Cons r rs)
  from Cons.prems(2) obtain obj s1 where o1: "ml_Unmarshal (dw_lib d) r = Inr obj"
    "exec_document d owner obj s = (None, s1)" "exec_resources d owner rs s1 = (None, s')"
    by (auto split: sum.splits prod.splits option.splits)
  from Cons.prems(1) o1(1) have nl: "u_gvk obj \<noteq> listGVK" by simp
  from Cons.IH [OF _ o1(3)] Cons.prems(1) exec_document_watched [OF nl o1(2)] o1(1) show ?case by auto
qed simp

section \<open>From a mark to a request\<close>


text \<open>A release with one service, marked by its owner, which the watcher meets for the first time.\<close>

definition route_pr_lib :: pr_lib where
  "route_pr_lib =
     \<lparr>pl_ToUnstructured = (\<lambda>j. Inr (dependent_of_kind ''Service'')),
      pl_NewControllerRef = (\<lambda>owner g. \<lparr>or_api_version = gvk_version g, or_kind = gvk_kind g,
         or_name = u_name owner, or_uid = u_uid owner, or_controller = Some True, or_block_owner_deletion = Some True\<rparr>),
      pl_SetOwnerAnnotations = (\<lambda>owner u. Inr (u\<lparr>u_annotations := (u_annotations u)
         (''primary-namespace'' \<mapsto> u_namespace owner, ''primary-name'' \<mapsto> u_name owner)\<rparr>)),
      pl_YamlMarshal = (\<lambda>u. Inr ''doc'')\<rparr>"

fun route_requests :: "watch_handler \<Rightarrow> unstructured \<Rightarrow> key set" where
  "route_requests EnqueueRequestForObject u = {(u_namespace u, u_name u)}"
| "route_requests (EnqueueRequestForOwner g) u = (\<lambda>r. (u_namespace u, or_name r)) ` set (controllers u)"
| "route_requests (EnqueueRequestForAnnotation grp knd) u =
     (case (u_annotations u ''primary-namespace'', u_annotations u ''primary-name'') of
        (Some ns, Some n) \<Rightarrow> {(ns, n)}
      | _ \<Rightarrow> {})"

definition marked_service :: unstructured where
  "marked_service = (dependent_of_kind ''Service'')
     \<lparr>u_owner_refs := [pl_NewControllerRef route_pr_lib (dependent_of_kind ''Web'') (namespaced_gvk ''Web'')]\<rparr>"

definition route_watcher :: "watch_source list dependentResourceWatcher" where
  "route_watcher = \<lparr>dw_controller = list_controller, dw_restMapper = (\<lambda>g. Inr NamespaceScope),
      dw_lib = \<lparr>ml_SplitManifests = (\<lambda>m. [m]), ml_Unmarshal = (\<lambda>r. Inr marked_service), ml_items = (\<lambda>u. [])\<rparr>\<rparr>"

lemma route_laws: "routing_ok route_pr_lib (\<lambda>g. Inr NamespaceScope) route_requests"
  by (auto simp: routing_ok_def route_pr_lib_def owner_key_def)


end
