(* ===== verification/Spec2Isabelle.thy ===== *)
theory Spec2Isabelle
  imports Prelude NameCodec Conditions KubeApi Controllerutil Updater GoLib Helm PostRenderer ActionClient
    Annotation Values Reconcile ReconcileFacts ReconcileRuns Samples ReconcileProps Lifecycle LifecycleProps
    ChunkedProps StatusProps ClientProps Predicates DependentWatcher WatcherProps WatchesFile ManagerOptions
    ActionConfig Setup SetupProps RunCmd RunProps Diff FakeClient StorageSpec StorageProps HelmLayer Operator
    OperatorProps Convergence Version TestUtil RootCmd ObjectRepair RepairRun DriftEvents
begin

text \<open>
  The helm-operator-plugins library: a controller that keeps a Helm release for every custom
  resource of a kind, the storage of releases that it offers, and the command that runs it from a
  watches file. This development models the Go code under \<open>src/pkg\<close> and \<open>src/internal\<close> as
  HOL functions and proves what makes it correct.

  \<^bold>\<open>How the program works.\<close> \<open>internal/cmd/helm-operator/run\<close> turns flags and the environment into
  options of a manager, loads the watches file, makes a reconciler for every entry and sets it up
  with the manager. A reconciler (\<open>pkg/reconciler\<close>) gets the resource of a request, puts an
  uninstall finalizer on it, asks for a Helm action client (\<open>pkg/client\<close>), looks at the release of
  the same name, and installs, upgrades or re-applies it, or uninstalls it when the resource is
  being deleted. It collects changes to the status and the object in an updater, which writes them
  when the loop leaves. Post-renderers mark the objects of a release with their owner; a post-hook
  watches their kinds, so that drift leads to a new reconcile. \<open>pkg/storage\<close> is a Helm storage
  driver that cuts a release into chunks, one secret each.

  \<^bold>\<open>How it is modelled.\<close> Everything outside the repository (the API server, Helm, client-go,
  controller-runtime, YAML, templates, user hooks) is a parameter: a record of functions on an
  arbitrary type of worlds. A Go function that changes its receiver or argument returns the new
  one; an error is a value of \<open>go_error\<close> (an option or the left of a sum); a function that can panic
  returns an \<open>exit\<close>; a loop that may run for ever is a \<open>partial_function (option)\<close>. The loop
  also keeps a log of its outside calls, which no definition reads. What the documentation of a
  parameter promises is a named predicate or locale (\<open>lib_ok\<close>, \<open>codec_ok\<close>,
  \<open>secret_store\<close>, \<open>reliable_store\<close>, \<open>careful_store\<close>, \<open>watch_ok\<close>, \<open>helm_layer\<close>,
  \<open>guarded_loop\<close>, \<open>operator_surroundings\<close>, \<open>object_store\<close>,
  \<open>routing_ok\<close>, \<open>runs_one_command\<close>), a hypothesis of the theorems that need it, with an
  instance by concrete functions.

  \<^bold>\<open>Theories and sources.\<close>
  \<^item> \<open>Prelude\<close>: errors, panics, the log of calls. \<open>GoLib\<close>: the parts of Go's library that the
    code depends on. \<open>NameCodec\<close>: FNV-1a on 64-bit words, base 32, and the JSON of a list of names.
  \<^item> \<open>KubeApi\<close>, \<open>Helm\<close>: the data and the interfaces of Kubernetes and Helm.
  \<^item> \<open>Conditions\<close>: \<open>pkg/internal/status\<close> and \<open>reconciler/internal/conditions\<close>. \<open>Controllerutil\<close>:
    \<open>internal/sdk/controllerutil\<close>, \<open>pkg/manifestutil\<close>. \<open>Updater\<close>: \<open>reconciler/internal/updater\<close>.
  \<^item> \<open>PostRenderer\<close>, \<open>ActionClient\<close>, \<open>ActionConfig\<close>: \<open>pkg/client\<close>. \<open>Annotation\<close>, \<open>Values\<close>:
    \<open>pkg/annotation\<close>, \<open>pkg/values\<close> and the override values.
  \<^item> \<open>Reconcile\<close>: the loop of \<open>pkg/reconciler/reconciler.go\<close>; \<open>ReconcileFacts\<close> and \<open>ReconcileRuns\<close>
    hold the lemmas on its steps and runs, \<open>Samples\<close> a concrete cluster, \<open>ReconcileProps\<close> the properties.
    \<open>Lifecycle\<close> and \<open>LifecycleProps\<close>: the invariant over whole histories. \<open>Convergence\<close>: two
    runs in a row.
  \<^item> \<open>Setup\<close>, \<open>SetupProps\<close>: the options, defaults, validation and watches of a reconciler, up to
    \<open>SetupWithManager\<close>; \<open>runtime_of\<close> gives what the loop works on.
  \<^item> \<open>Predicates\<close>, \<open>DependentWatcher\<close>, \<open>WatcherProps\<close>: \<open>pkg/internal/predicate\<close> and
    \<open>reconciler/internal/hook\<close>. \<open>Diff\<close>: \<open>reconciler/internal/diff\<close>. \<open>FakeClient\<close>: the recording doubles.
  \<^item> \<open>WatchesFile\<close>: \<open>pkg/watches\<close>. \<open>ManagerOptions\<close>: \<open>internal/flags\<close> and \<open>pkg/manager\<close>.
    \<open>RunCmd\<close>, \<open>RunProps\<close>: the run command. \<open>RootCmd\<close>: \<open>internal/cmd/root.go\<close>, \<open>main.go\<close> and the
    command objects. \<open>Version\<close>: \<open>internal/version\<close> and \<open>internal/metrics\<close>. \<open>TestUtil\<close>: \<open>pkg/internal/testutil\<close>.
  \<^item> \<open>HelmLayer\<close>, \<open>Operator\<close>, \<open>OperatorProps\<close>: the parts put together. \<open>HelmLayer\<close> shows that
    the action client keeps what the loop asks of it when Helm keeps its promises; \<open>Operator\<close> that
    each reconciler that the command sets up runs the loop in surroundings as \<open>Lifecycle\<close> asks
    (\<open>watch_runtimes\<close> are the reconcilers of \<open>setup_all\<close>, \<open>serving\<close> is the relation of the worlds
    that they reach).
  \<^item> \<open>ObjectRepair\<close>, \<open>RepairRun\<close>: what \<open>Reconcile\<close> of the action client, and a run of the loop that
    ends in it, do to the objects of the cluster (\<open>object_store\<close> says what the helper of client-go
    promises), against the abstract repair \<open>repair_all\<close> of a map of objects.
  \<^item> \<open>DriftEvents\<close>: from the mark that the post-renderer puts on an object, by the source that the
    watcher chooses for it, to a request for its owner (\<open>routing_ok\<close> says what the handlers promise).
  \<^item> \<open>Secrets\<close>, \<open>ChunkedSecrets\<close>, \<open>ChunkedFacts\<close>, \<open>ChunkedProps\<close>: \<open>pkg/storage\<close> and the owner
    reference client. \<open>StorageSpec\<close> states what a storage of releases promises, a map from keys to
    releases with failures, and holds the simulation; \<open>StorageProps\<close> the refinement. \<open>StatusProps\<close>, \<open>ClientProps\<close>: properties of the updater and of the action client.

  \<^bold>\<open>What is proved.\<close> Of the loop: no release outlives its resource, in any history of reconciles and
  outside changes, for the loop in any safe surroundings and, end to end, for the operator that
  the command sets up from a watches file; the finalizer is written before anything else; a deleted resource is only
  uninstalled and a live one never; the finalizer goes only after an uninstall that removed the
  release; pausing keeps Helm untouched; the conditions after success and after each error; after
  a success the next run over the same release writes nothing. Of the storage: the driver refines a
  map from keys to releases, whatever calls fail; encoding returns unless the chunk size is zero,
  the chunks are within their bounds, what was created or updated reads back, deletion leaves
  nothing, and a query is answered exactly. Of the status: the last write of each kind decides, and applying twice changes
  nothing more. Of the client: what a failed install or upgrade leaves; and that reconciling an
  up-to-date release creates what is missing, patches what has drifted, deletes nothing and touches
  nothing else, for one call and for a whole run of the loop. Of the configuration: the
  options keep the reconciler well formed, its setup makes a complete runtime, the loaded watches
  are complete and of distinct kinds, the command panics only when the metrics registry refuses
  the build information, and the program ends normally only after an operator that ran. Of the watcher: each
  kind is watched once, and the drift of a marked object leads to a request for its owner. Several theorems prove a defect and are listed as findings.

  \<^bold>\<open>Bounds.\<close> No fuel is used: the chunk loop is a partial function whose result is shown to exist for
  every positive chunk size; retries and polls are any number of repetitions that the library chooses.

  \<^bold>\<open>Not modelled.\<close> Logging (\<open>WithLog\<close>, the debug logger, the messages of the commands but for the version)
  carries no logic of the operator; the parsing of the command line is cobra's. Mutexes are left out: the models are sequential, one call at a time. The goroutine
  that feeds the decoder of the storage driver is modelled by its stream. Go maps are listed in the
  order in which the run iterates over them, so a theorem holds for every order.
\<close>

end
